(* ===== verification/CLib.thy ===== *)
theory CLib
  imports Main "HOL-Library.Word"
begin

text \<open>
  The prelude of the development: what the chat server uses of C and of the C library.

  \<^item> A computation that can end in undefined behaviour, in a failed \<^verbatim>\<open>assert\<close> or in \<^verbatim>\<open>exit\<close> has type
    \<open>'a result\<close>; \<open>Inl\<close> carries the reason, and \<open>bindR\<close> sequences such computations.
  \<^item> A \<^verbatim>\<open>char\<close> array or a malloc'ed block is the list of its bytes, of exactly its size; a
    pointer to a string literal or to a token is that string with its terminating NUL.
  \<^item> \<open>strlen\<close>, \<open>strcmp\<close>, \<open>strncpy\<close>, \<open>strcpy\<close>, \<open>strcat\<close>, \<open>sprintf\<close>, \<open>snprintf\<close>, \<open>strtok\<close>,
    \<open>strtol\<close>, \<open>isspace\<close> and \<open>isdigit\<close> work on these lists. Reading past the end of a list is
    \<open>Overread\<close>, writing past it is \<open>BufferOverflow\<close>: no write of the model is silently cut.

  The collection \<open>clib\<close> gathers the rules the component proofs rewrite with.
\<close>

named_theorems clib "rewriting of C library calls on zero padded arrays"

section \<open>Faults and results\<close>

datatype fault = NullDeref | BufferOverflow | Overread | AssertFailed | Exited int

type_synonym 'a result = "fault + 'a"

definition bindR :: "'a result \<Rightarrow> ('a \<Rightarrow> 'b result) \<Rightarrow> 'b result" where
  "bindR m f = (case m of Inl e \<Rightarrow> Inl e | Inr x \<Rightarrow> f x)"

definition assertR :: "bool \<Rightarrow> unit result" where
  "assertR b = (if b then Inr () else Inl AssertFailed)"

definition deref :: "'a option \<Rightarrow> 'a result" where
  "deref p = (case p of None \<Rightarrow> Inl NullDeref | Some x \<Rightarrow> Inr x)"

section \<open>Arrays and strings\<close>

type_synonym bytes = "char list"

abbreviation NUL :: char where "NUL \<equiv> CHR 0x00"

abbreviation ETX :: char where "ETX \<equiv> CHR 0x03"

definition cstr :: "bytes \<Rightarrow> string" where
  "cstr b = takeWhile (\<lambda>c. c \<noteq> NUL) b"

definition terminated :: "bytes \<Rightarrow> bool" where
  "terminated b \<longleftrightarrow> NUL \<in> set b"

definition lit :: "string \<Rightarrow> bytes" where
  "lit s = s @ [NUL]"

definition zeros :: "nat \<Rightarrow> bytes" where
  "zeros n = replicate n NUL"

definition nul_pad :: "nat \<Rightarrow> string \<Rightarrow> bytes" where
  "nul_pad n s = s @ zeros (n - length s)"

definition c_string :: "bytes \<Rightarrow> string result" where
  "c_string b = (if terminated b then Inr (cstr b) else Inl Overread)"

definition strlen :: "bytes \<Rightarrow> nat result" where
  "strlen b = bindR (c_string b) (\<lambda>s. Inr (length s))"

text \<open>\<open>strcmp_eq a b\<close> is \<^verbatim>\<open>strcmp(a, b) == 0\<close>: it stops at the first difference or at the common
  NUL, and only a comparison that runs off an array is an over-read.\<close>

fun strcmp_eq :: "bytes \<Rightarrow> bytes \<Rightarrow> bool result" where
  "strcmp_eq [] _ = Inl Overread"
| "strcmp_eq (x # xs) [] = Inl Overread"
| "strcmp_eq (x # xs) (y # ys) =
     (if x \<noteq> y then Inr False else if x = NUL then Inr True else strcmp_eq xs ys)"

definition strncpy :: "bytes \<Rightarrow> bytes \<Rightarrow> nat \<Rightarrow> bytes result" where
  "strncpy dst src n =
     (let s = cstr (take n src)
      in if length src < n \<and> \<not> terminated src then Inl Overread
         else if length dst < n then Inl BufferOverflow
         else Inr (nul_pad n s @ drop n dst))"

definition strcpy :: "bytes \<Rightarrow> bytes \<Rightarrow> bytes result" where
  "strcpy dst src =
     bindR (c_string src) (\<lambda>s.
       if length dst < Suc (length s) then Inl BufferOverflow
       else Inr (lit s @ drop (Suc (length s)) dst))"

definition strcat :: "bytes \<Rightarrow> bytes \<Rightarrow> bytes result" where
  "strcat dst src =
     bindR (c_string dst) (\<lambda>d. bindR (c_string src) (\<lambda>s. strcpy dst (lit (d @ s))))"

text \<open>\<open>sprintf dst s\<close> and \<open>snprintf dst n s\<close> store the formatted text \<open>s\<close>: the callers build \<open>s\<close>
  from the format and its arguments.\<close>

definition sprintf :: "bytes \<Rightarrow> string \<Rightarrow> bytes result" where
  "sprintf dst s = strcpy dst (lit s)"

definition snprintf :: "bytes \<Rightarrow> nat \<Rightarrow> string \<Rightarrow> bytes result" where
  "snprintf dst n s =
     (if n = 0 then Inr dst else strcpy dst (lit (take (n - 1) s)))"

definition memcpy_prefix :: "bytes \<Rightarrow> nat \<Rightarrow> bytes result" where
  "memcpy_prefix src n = (if length src < n then Inl Overread else Inr (take n src))"

text \<open>\<^verbatim>\<open>strtok\<close> keeps the rest of its string in a static pointer; the model threads it.\<close>

definition strtok :: "char set \<Rightarrow> string \<Rightarrow> string option \<times> string" where
  "strtok delim s =
     (let s1 = dropWhile (\<lambda>c. c \<in> delim) s
      in if s1 = [] then (None, [])
         else (Some (takeWhile (\<lambda>c. c \<notin> delim) s1), drop 1 (dropWhile (\<lambda>c. c \<notin> delim) s1)))"

definition isspace :: "char \<Rightarrow> bool" where
  "isspace c \<longleftrightarrow> c \<in> set [CHR 0x20, CHR 0x09, CHR 0x0A, CHR 0x0B, CHR 0x0C, CHR 0x0D]"

definition isdigit :: "char \<Rightarrow> bool" where
  "isdigit c \<longleftrightarrow> c \<in> set ''0123456789''"

section \<open>Decimal numbers\<close>

definition digit_chr :: "nat \<Rightarrow> char" where
  "digit_chr d = ''0123456789'' ! d"

definition digit_val :: "char \<Rightarrow> nat" where
  "digit_val c = of_char c - 48"

fun show_nat :: "nat \<Rightarrow> string" where
  "show_nat n = (if n < 10 then [digit_chr n] else show_nat (n div 10) @ [digit_chr (n mod 10)])"

declare show_nat.simps [simp del]

definition show_int :: "int \<Rightarrow> string" where
  "show_int i = (if i < 0 then CHR ''-'' # show_nat (nat (- i)) else show_nat (nat i))"

definition digits_val :: "string \<Rightarrow> nat" where
  "digits_val s = fold (\<lambda>c n. 10 * n + digit_val c) s 0"

abbreviation LONG_MAX :: int where "LONG_MAX \<equiv> 9223372036854775807"

abbreviation LONG_MIN :: int where "LONG_MIN \<equiv> - 9223372036854775808"

text \<open>\<^verbatim>\<open>strtol(s, &end, 10)\<close>: the value, clamped to the range of \<^verbatim>\<open>long\<close>; the characters from \<open>end\<close>
  on; and whether \<^verbatim>\<open>errno\<close> became \<^verbatim>\<open>ERANGE\<close>. Without a digit \<open>end\<close> is the start of the string.\<close>

definition strtol :: "string \<Rightarrow> int \<times> string \<times> bool" where
  "strtol s =
     (let t = dropWhile isspace s;
          neg = (t \<noteq> [] \<and> hd t = CHR ''-'');
          u = (if t \<noteq> [] \<and> hd t \<in> {CHR ''-'', CHR ''+''} then tl t else t);
          ds = takeWhile isdigit u;
          v = (if neg then - int (digits_val ds) else int (digits_val ds))
      in if ds = [] then (0, s, False)
         else if LONG_MAX < v then (LONG_MAX, drop (length ds) u, True)
         else if v < LONG_MIN then (LONG_MIN, drop (length ds) u, True)
         else (v, drop (length ds) u, False))"

text \<open>The conversion of a \<^verbatim>\<open>long\<close> to \<^verbatim>\<open>int\<close> keeps the low 32 bits.\<close>

definition int_of_long :: "int \<Rightarrow> int" where
  "int_of_long v = sint (word_of_int v :: 32 word)"

section \<open>Rules\<close>

lemma bindR_simps [simp]: "bindR (Inl e) f = Inl e" "bindR (Inr x) f = f x"
  by (simp_all add: bindR_def)

lemma bindR_eq_Inr: "bindR m f = Inr y \<longleftrightarrow> (\<exists>x. m = Inr x \<and> f x = Inr y)"
  by (cases m) simp_all

lemma bindR_InrE:
  assumes "bindR m f = Inr y"
  obtains x where "m = Inr x" "f x = Inr y"
  using assms by (auto simp: bindR_eq_Inr)

lemma bindR_assoc: "bindR (bindR m f) g = bindR m (\<lambda>x. bindR (f x) g)"
  by (cases m) simp_all

lemma assertR_simps [simp]: "assertR True = Inr ()" "assertR False = Inl AssertFailed"
  by (simp_all add: assertR_def)

lemma assertR_eq_Inr [simp]: "assertR b = Inr u \<longleftrightarrow> b"
  by (simp add: assertR_def)

lemma deref_simps [simp]: "deref None = Inl NullDeref" "deref (Some x) = Inr x"
  by (simp_all add: deref_def)

lemma deref_eq_Inr [simp]: "deref p = Inr x \<longleftrightarrow> p = Some x"
  by (cases p) simp_all

lemma length_zeros [simp]: "length (zeros n) = n"
  by (simp add: zeros_def)

lemma set_zeros: "set (zeros n) \<subseteq> {NUL}"
  by (auto simp: zeros_def)

lemma zeros_0 [simp]: "zeros 0 = []"
  by (simp add: zeros_def)

lemma drop_zeros [simp]: "drop k (zeros n) = zeros (n - k)"
  by (simp add: zeros_def)

lemma take_zeros [simp]: "take k (zeros n) = zeros (min k n)"
  by (simp add: zeros_def)

lemma zeros_append [simp]: "zeros m @ zeros n = zeros (m + n)"
  by (simp add: zeros_def replicate_add)

lemma nth_zeros [simp]: "i < n \<Longrightarrow> zeros n ! i = NUL"
  by (simp add: zeros_def)

lemma cstr_zeros [simp]: "cstr (zeros n) = []"
  by (cases n) (simp_all add: cstr_def zeros_def)

lemma terminated_zeros [simp]: "terminated (zeros n) \<longleftrightarrow> 0 < n"
  by (auto simp: terminated_def zeros_def)

lemma terminated_append [simp]: "terminated (a @ b) \<longleftrightarrow> terminated a \<or> terminated b"
  by (simp add: terminated_def)

lemma cstr_Nil [simp]: "cstr [] = []"
  by (simp add: cstr_def)

lemma cstr_Cons [simp]: "cstr (x # xs) = (if x = NUL then [] else x # cstr xs)"
  by (simp add: cstr_def)

lemma terminated_Cons [simp]: "terminated (x # xs) \<longleftrightarrow> x = NUL \<or> terminated xs"
  by (auto simp: terminated_def)

lemma terminated_Nil [simp]: "\<not> terminated []"
  by (simp add: terminated_def)

lemma cstr_no_NUL [simp]: "NUL \<notin> set (cstr b)"
  by (auto simp: cstr_def dest: set_takeWhileD)

lemma takeWhile_no_NUL: "NUL \<notin> set s \<Longrightarrow> takeWhile (\<lambda>c. c \<noteq> NUL) (s @ b) = s @ takeWhile (\<lambda>c. c \<noteq> NUL) b"
  by (induction s) auto

lemma cstr_id: "NUL \<notin> set s \<Longrightarrow> cstr s = s"
  using takeWhile_no_NUL [of s "[]"] by (simp add: cstr_def)

lemma cstr_append: "NUL \<notin> set s \<Longrightarrow> cstr (s @ b) = s @ cstr b"
  by (simp add: cstr_def takeWhile_no_NUL)

lemma cstr_lit [simp]: "NUL \<notin> set s \<Longrightarrow> cstr (lit s) = s"
  by (simp add: lit_def cstr_def takeWhile_no_NUL)

lemma cstr_lit_append [simp]: "NUL \<notin> set s \<Longrightarrow> cstr (lit s @ b) = s"
  by (simp add: lit_def cstr_def takeWhile_no_NUL)

lemma terminated_lit [simp]: "terminated (lit s)"
  by (simp add: lit_def terminated_def)

lemma length_lit [simp]: "length (lit s) = Suc (length s)"
  by (simp add: lit_def)

lemma length_cstr_le: "length (cstr b) \<le> length b"
  by (simp add: cstr_def length_takeWhile_le)

lemma length_cstr_less: "terminated b \<Longrightarrow> length (cstr b) < length b"
  unfolding cstr_def terminated_def
  by (induction b) auto

lemma length_nul_pad [simp]: "length (nul_pad n s) = max n (length s)"
  by (simp add: nul_pad_def)

lemma cstr_nul_pad [simp]: "NUL \<notin> set s \<Longrightarrow> cstr (nul_pad n s) = s"
  by (simp add: nul_pad_def cstr_append)

lemma terminated_nul_pad [simp]: "NUL \<notin> set s \<Longrightarrow> terminated (nul_pad n s) \<longleftrightarrow> length s < n"
  by (auto simp: nul_pad_def terminated_def zeros_def)

lemma nul_pad_inj:
  "nul_pad n s = nul_pad n t \<Longrightarrow> NUL \<notin> set s \<Longrightarrow> NUL \<notin> set t \<Longrightarrow> s = t"
  by (metis cstr_nul_pad)

lemma cstr_terminated_append [simp]: "terminated a \<Longrightarrow> cstr (a @ b) = cstr a"
  by (induction a) auto

lemma nul_pad_eq [simp]: "NUL \<notin> set s \<Longrightarrow> NUL \<notin> set t \<Longrightarrow> nul_pad n s = nul_pad n t \<longleftrightarrow> s = t"
  using nul_pad_inj by blast

lemma nul_pad_Nil [simp]: "nul_pad n [] = zeros n"
  by (simp add: nul_pad_def)

lemma c_string_eq_Inr [simp]: "c_string b = Inr s \<longleftrightarrow> terminated b \<and> s = cstr b"
  by (auto simp: c_string_def)

lemma c_string_terminated [clib]: "terminated b \<Longrightarrow> c_string b = Inr (cstr b)"
  by simp

lemma strlen_terminated [clib]: "terminated b \<Longrightarrow> strlen b = Inr (length (cstr b))"
  by (simp add: strlen_def clib)

lemma strlen_lit [simp]: "NUL \<notin> set s \<Longrightarrow> strlen (lit s) = Inr (length s)"
  by (simp add: clib)

lemma strcmp_eq_terminated [clib]:
  "terminated a \<Longrightarrow> terminated b \<Longrightarrow> strcmp_eq a b = Inr (cstr a = cstr b)"
  by (induction a b rule: strcmp_eq.induct) (auto simp: terminated_def cstr_def)

lemma strcmp_eq_InrD:
  "strcmp_eq a b = Inr True \<Longrightarrow> terminated a \<and> terminated b \<and> cstr a = cstr b"
  by (induction a b rule: strcmp_eq.induct)
    (auto simp: terminated_def cstr_def split: if_splits)

lemma strncpy_eq_Inr:
  "strncpy dst src n = Inr r \<longleftrightarrow>
     (n \<le> length src \<or> terminated src) \<and> n \<le> length dst \<and>
     r = nul_pad n (cstr (take n src)) @ drop n dst"
  by (auto simp: strncpy_def Let_def)

lemma length_strncpy: "strncpy dst src n = Inr r \<Longrightarrow> length r = length dst"
proof (unfold strncpy_eq_Inr)
  assume "(n \<le> length src \<or> terminated src) \<and> n \<le> length dst \<and>
    r = nul_pad n (cstr (take n src)) @ drop n dst"
  moreover have "length (cstr (take n src)) \<le> n"
    using length_cstr_le [of "take n src"] by simp
  ultimately show ?thesis by simp
qed

lemma take_lit: "n \<le> length s \<Longrightarrow> take n (lit s) = take n s"
  by (simp add: lit_def)

lemma cstr_take_lit: "NUL \<notin> set s \<Longrightarrow> cstr (take n (lit s)) = take n s"
proof (cases "n \<le> length s")
  case True
  assume "NUL \<notin> set s"
  with True show ?thesis
    by (simp add: take_lit cstr_id) (metis cstr_id in_set_takeD)
next
  case False
  assume "NUL \<notin> set s"
  with False show ?thesis
    by (simp add: lit_def cstr_append take_Cons')
qed

text \<open>The copy of a token into a zeroed array of size \<open>n\<close>, with the length of the token as the
  bound: it fails exactly when the token is longer than the array, and it leaves the array without
  a terminator exactly when the two lengths agree.\<close>

lemma strncpy_token [clib]:
  "NUL \<notin> set s \<Longrightarrow> length s \<le> n \<Longrightarrow> strncpy (zeros n) (lit s) (length s) = Inr (nul_pad n s)"
  by (simp add: strncpy_eq_Inr cstr_take_lit) (simp add: nul_pad_def)

lemma strncpy_token_overflow [clib]:
  "NUL \<notin> set s \<Longrightarrow> n < length s \<Longrightarrow> strncpy (zeros n) (lit s) (length s) = Inl BufferOverflow"
  by (simp add: strncpy_def Let_def)

lemma strncpy_same_size [clib]:
  "terminated src \<Longrightarrow> length src = n \<Longrightarrow> length dst = n \<Longrightarrow>
     strncpy dst src n = Inr (nul_pad n (cstr src))"
  by (simp add: strncpy_eq_Inr)

lemma strncpy_lit [clib]:
  "NUL \<notin> set s \<Longrightarrow> length dst = n \<Longrightarrow> strncpy dst (lit s) n = Inr (nul_pad n (take n s))"
  by (simp add: strncpy_eq_Inr cstr_take_lit)

lemma strcpy_eq_Inr:
  "strcpy dst src = Inr r \<longleftrightarrow>
     terminated src \<and> length (cstr src) < length dst \<and>
     r = lit (cstr src) @ drop (Suc (length (cstr src))) dst"
  by (auto simp: strcpy_def bindR_eq_Inr)

lemma strcpy_ok [clib]:
  "terminated src \<Longrightarrow> length (cstr src) < length dst \<Longrightarrow>
     strcpy dst src = Inr (lit (cstr src) @ drop (Suc (length (cstr src))) dst)"
  by (simp add: strcpy_eq_Inr)

lemma length_strcpy: "strcpy dst src = Inr r \<Longrightarrow> length r = length dst"
  by (auto simp: strcpy_eq_Inr)

lemma cstr_strcpy: "strcpy dst src = Inr r \<Longrightarrow> cstr r = cstr src \<and> terminated r"
  by (auto simp: strcpy_eq_Inr)

lemma strcpy_zeros:
  "terminated src \<Longrightarrow> length (cstr src) < n \<Longrightarrow> strcpy (zeros n) src = Inr (nul_pad n (cstr src))"
  by (simp add: clib nul_pad_def lit_def zeros_def Suc_diff_Suc flip: replicate_Suc)

lemma strcat_eq_Inr:
  "strcat dst src = Inr r \<longleftrightarrow>
     terminated dst \<and> terminated src \<and> length (cstr dst) + length (cstr src) < length dst \<and>
     r = lit (cstr dst @ cstr src) @ drop (Suc (length (cstr dst) + length (cstr src))) dst"
  by (auto simp: strcat_def bindR_eq_Inr strcpy_eq_Inr)

lemma strcat_ok [clib]:
  "terminated dst \<Longrightarrow> terminated src \<Longrightarrow> length (cstr dst) + length (cstr src) < length dst \<Longrightarrow>
     strcat dst src =
       Inr (lit (cstr dst @ cstr src) @ drop (Suc (length (cstr dst) + length (cstr src))) dst)"
  by (simp add: strcat_eq_Inr)

lemma length_strcat: "strcat dst src = Inr r \<Longrightarrow> length r = length dst"
  by (auto simp: strcat_eq_Inr)

lemma cstr_strcat:
  "strcat dst src = Inr r \<Longrightarrow> cstr r = cstr dst @ cstr src \<and> terminated r"
  by (auto simp: strcat_eq_Inr)

lemma sprintf_fits:
  assumes "NUL \<notin> set t" "length t < length dst"
  obtains r where "sprintf dst t = Inr r" "length r = length dst" "terminated r" "cstr r = t"
proof (rule that)
  show "sprintf dst t = Inr (lit t @ drop (Suc (length t)) dst)"
    using assms by (simp add: sprintf_def clib)
qed (use assms in simp_all)

lemma strcat_fits:
  assumes "terminated dst" "terminated src" "length (cstr dst) + length (cstr src) < length dst"
  obtains r where "strcat dst src = Inr r" "length r = length dst" "terminated r" "cstr r = cstr dst @ cstr src"
proof (rule that)
  show "strcat dst src = Inr (lit (cstr dst @ cstr src) @ drop (Suc (length (cstr dst) + length (cstr src))) dst)"
    using assms by (simp add: clib)
qed (use assms in simp_all)

lemma memcpy_prefix_eq_Inr [simp]: "memcpy_prefix src n = Inr r \<longleftrightarrow> n \<le> length src \<and> r = take n src"
  by (auto simp: memcpy_prefix_def)

subsection \<open>Tokens\<close>

lemma strtok_Nil [simp]: "strtok d [] = (None, [])"
  by (simp add: strtok_def)

lemma takeWhile_until: "set t \<inter> d = {} \<Longrightarrow> c \<in> d \<Longrightarrow>
    takeWhile (\<lambda>x. x \<notin> d) (t @ c # r) = t \<and> dropWhile (\<lambda>x. x \<notin> d) (t @ c # r) = c # r"
  by (induction t) auto

lemma takeWhile_all: "set t \<inter> d = {} \<Longrightarrow>
    takeWhile (\<lambda>x. x \<notin> d) t = t \<and> dropWhile (\<lambda>x. x \<notin> d) t = []"
  by (induction t) auto

lemma dropWhile_id: "set t \<inter> d = {} \<Longrightarrow> t \<noteq> [] \<Longrightarrow> dropWhile (\<lambda>x. x \<in> d) (t @ r) = t @ r"
  by (cases t) auto

lemma strtok_field [clib]:
  assumes "t \<noteq> []" "set t \<inter> d = {}" "c \<in> d"
  shows "strtok d (t @ c # r) = (Some t, r)"
  using assms takeWhile_until [of t d c r] dropWhile_id [of t d "c # r"]
  by (simp add: strtok_def Let_def)

lemma strtok_last [clib]:
  assumes "t \<noteq> []" "set t \<inter> d = {}"
  shows "strtok d t = (Some t, [])"
proof -
  from assms have "dropWhile (\<lambda>x. x \<in> d) t = t"
    using dropWhile_id [of t d "[]"] by simp
  with assms(1) takeWhile_all [OF assms(2)] show ?thesis
    unfolding strtok_def Let_def by (simp only: if_False drop_Nil)
qed

lemma strtok_Some:
  assumes "strtok d s = (Some t, r)"
  shows "t \<noteq> []" "set t \<inter> d = {}" "set t \<subseteq> set s" "set r \<subseteq> set s" "length t + length r \<le> length s"
proof -
  let ?u = "dropWhile (\<lambda>c. c \<in> d) s"
  from assms have u: "?u \<noteq> []" "t = takeWhile (\<lambda>c. c \<notin> d) ?u"
    and r: "r = drop 1 (dropWhile (\<lambda>c. c \<notin> d) ?u)"
    by (auto simp: strtok_def Let_def split: if_splits)
  from u show "t \<noteq> []"
    by (metis hd_dropWhile takeWhile_eq_Nil_iff)
  show "set t \<inter> d = {}"
    using u(2) by (auto dest: set_takeWhileD)
  have sub: "set ?u \<subseteq> set s" by (rule set_dropWhileD [THEN subsetI])
  then show "set t \<subseteq> set s"
    using u(2) by (auto dest: set_takeWhileD)
  have "set r \<subseteq> set (dropWhile (\<lambda>c. c \<notin> d) ?u)"
    unfolding r by (rule set_drop_subset)
  also have "\<dots> \<subseteq> set ?u" by (auto dest: set_dropWhileD)
  finally show "set r \<subseteq> set s" using sub by simp
  have "length t + length (dropWhile (\<lambda>c. c \<notin> d) ?u) = length ?u"
    unfolding u(2) by (metis length_append takeWhile_dropWhile_id)
  moreover have "length ?u \<le> length s" by (rule length_dropWhile_le)
  ultimately show "length t + length r \<le> length s" by (simp add: r)
qed

lemma strtok_rest:
  assumes "strtok d s = (tok, r)"
  shows "set r \<subseteq> set s \<and> length r \<le> length s"
proof (cases tok)
  case None
  with assms show ?thesis by (auto simp: strtok_def Let_def split: if_splits)
next
  case (Some t)
  with assms strtok_Some [of d s t r] show ?thesis by simp
qed

lemma strtok_shrinks: "strtok d s = (Some t, r) \<Longrightarrow> length r < length s"
  using strtok_Some(1,5) [of d s t r] by (cases t) auto

subsection \<open>Numbers\<close>

lemma less_10_cases: "(d::nat) < 10 \<Longrightarrow>
    d = 0 \<or> d = 1 \<or> d = 2 \<or> d = 3 \<or> d = 4 \<or> d = 5 \<or> d = 6 \<or> d = 7 \<or> d = 8 \<or> d = 9"
  by arith

lemma isdigit_digit_chr [simp]: "d < 10 \<Longrightarrow> isdigit (digit_chr d)"
  unfolding isdigit_def digit_chr_def by (rule nth_mem) simp

lemma digit_val_chr [simp]: "d < 10 \<Longrightarrow> digit_val (digit_chr d) = d"
  by (drule less_10_cases) (auto simp: digit_val_def digit_chr_def)

lemma show_digits: "show_nat 0 = ''0''" "show_nat (Suc 0) = ''1''" "show_nat 5 = ''5''"
  by (subst show_nat.simps, simp add: digit_chr_def)+

lemma show_nat_digits: "list_all isdigit (show_nat n)"
proof (induction n rule: show_nat.induct)
  case (1 n)
  then show ?case
    by (subst show_nat.simps) (auto simp: isdigit_digit_chr)
qed

lemma show_nat_nonempty [simp]: "show_nat n \<noteq> []"
  by (subst show_nat.simps) simp

lemma digits_val_snoc: "digits_val (s @ [c]) = 10 * digits_val s + digit_val c"
  by (simp add: digits_val_def)

lemma digits_val_show_nat [simp]: "digits_val (show_nat n) = n"
proof (induction n rule: show_nat.induct)
  case (1 n)
  show ?case
  proof (cases "n < 10")
    case True
    then show ?thesis
      by (subst show_nat.simps) (simp add: digits_val_def)
  next
    case False
    with "1" show ?thesis
      by (subst show_nat.simps) (simp add: digits_val_snoc)
  qed
qed

lemma isdigit_not_space: "isdigit c \<Longrightarrow> \<not> isspace c"
  by (auto simp: isdigit_def isspace_def)

lemma isdigit_not_sign: "isdigit c \<Longrightarrow> c \<noteq> CHR ''-'' \<and> c \<noteq> CHR ''+'' \<and> c \<noteq> NUL \<and> c \<noteq> ETX"
  by (auto simp: isdigit_def)

lemma takeWhile_list_all: "list_all p s \<Longrightarrow> takeWhile p s = s"
  by (induction s) auto

lemma show_nat_no_NUL [simp]: "NUL \<notin> set (show_nat n)"
  using show_nat_digits [of n] isdigit_not_sign by (auto simp: list_all_iff)

lemma show_nat_no_ETX [simp]: "ETX \<notin> set (show_nat n)"
  using show_nat_digits [of n] isdigit_not_sign by (auto simp: list_all_iff)

lemma show_int_no_NUL [simp]: "NUL \<notin> set (show_int i)"
  by (simp add: show_int_def)

lemma strtol_digits:
  assumes ds: "list_all isdigit s" "s \<noteq> []"
  shows "strtol s =
    (if LONG_MAX < int (digits_val s) then (LONG_MAX, [], True) else (int (digits_val s), [], False))"
proof -
  from ds obtain c cs where s: "s = c # cs" "isdigit c" by (cases s) auto
  then have "dropWhile isspace s = s" by (simp add: isdigit_not_space)
  moreover have "hd s \<noteq> CHR ''-''" "hd s \<noteq> CHR ''+''"
    using s isdigit_not_sign by auto
  ultimately show ?thesis
    using ds by (simp add: strtol_def Let_def takeWhile_list_all)
qed

lemma strtol_show_nat:
  "int n \<le> LONG_MAX \<Longrightarrow> strtol (show_nat n) = (int n, [], False)"
  by (simp add: strtol_digits show_nat_digits)

end
