(* ===== verification/Words.thy ===== *)
theory Words
  imports CLib
begin

unbundle bit_operations_syntax

text \<open>
  Machine words in memory. A \<^verbatim>\<open>uint32_t\<close> is a \<open>32 word\<close>; \<open>mem32\<close> is its representation in the memory
  of a little endian (\<open>le\<close>) or big endian host and \<open>of_mem32\<close> reads it back. \<open>htonl\<close> and \<open>ntohl\<close> swap
  the bytes on a little endian host and do nothing on a big endian one. Everything that uses them
  takes the byte order as an argument, so that results hold on both kinds of host.
\<close>

definition byte_chr :: "8 word \<Rightarrow> char" where
  "byte_chr b = char_of (unat b)"

definition chr_byte :: "char \<Rightarrow> 8 word" where
  "chr_byte c = word_of_nat (of_char c)"

definition be_bytes :: "32 word \<Rightarrow> 8 word list" where
  "be_bytes w = [ucast (drop_bit 24 w), ucast (drop_bit 16 w), ucast (drop_bit 8 w), ucast w]"

definition of_be :: "8 word \<Rightarrow> 8 word \<Rightarrow> 8 word \<Rightarrow> 8 word \<Rightarrow> 32 word" where
  "of_be a b c d =
     push_bit 24 (ucast a) OR push_bit 16 (ucast b) OR push_bit 8 (ucast c) OR ucast d"

definition swap32 :: "32 word \<Rightarrow> 32 word" where
  "swap32 w = of_be (ucast w) (ucast (drop_bit 8 w)) (ucast (drop_bit 16 w)) (ucast (drop_bit 24 w))"

definition htonl :: "bool \<Rightarrow> 32 word \<Rightarrow> 32 word" where
  "htonl le w = (if le then swap32 w else w)"

definition ntohl :: "bool \<Rightarrow> 32 word \<Rightarrow> 32 word" where
  "ntohl le w = (if le then swap32 w else w)"

definition mem32 :: "bool \<Rightarrow> 32 word \<Rightarrow> bytes" where
  "mem32 le w = map byte_chr (if le then rev (be_bytes w) else be_bytes w)"

text \<open>The bytes of a list shorter than four are read as if followed by zero bytes: the value starts
  as 0 in every place that reads fewer than four bytes into it.\<close>

definition of_mem32 :: "bool \<Rightarrow> bytes \<Rightarrow> 32 word" where
  "of_mem32 le bs =
     (let v = map chr_byte (take 4 (nul_pad 4 bs))
      in if le then of_be (v ! 3) (v ! 2) (v ! 1) (v ! 0) else of_be (v ! 0) (v ! 1) (v ! 2) (v ! 3))"

section \<open>Rules\<close>

lemma chr_byte_byte_chr [simp]: "chr_byte (byte_chr b) = b"
proof -
  have "unat b < 256" using unsigned_less [of b, where 'a = nat] by simp
  then have "of_char (char_of (unat b)) = unat b" by simp
  then show ?thesis by (simp add: chr_byte_def byte_chr_def)
qed

lemma byte_chr_chr_byte [simp]: "byte_chr (chr_byte c) = c"
proof -
  have "unat (word_of_nat (of_char c) :: 8 word) = of_char c"
    by (simp add: unat_of_nat)
  then show ?thesis by (simp add: chr_byte_def byte_chr_def)
qed

lemma chr_byte_inj [simp]: "chr_byte c = chr_byte d \<longleftrightarrow> c = d"
  by (metis byte_chr_chr_byte)

lemma chr_byte_NUL [simp]: "chr_byte NUL = 0"
  by (simp add: chr_byte_def)

lemma byte_chr_0 [simp]: "byte_chr 0 = NUL"
  by (simp add: byte_chr_def char_of_def)

lemma length_mem32 [simp]: "length (mem32 le w) = 4"
  by (simp add: mem32_def be_bytes_def)

lemma of_be_be_bytes:
  "of_be (ucast (drop_bit 24 w)) (ucast (drop_bit 16 w)) (ucast (drop_bit 8 w)) (ucast w) = w"
proof (rule bit_word_eqI)
  fix n
  assume "n < LENGTH(32)"
  then consider "n < 8" | "8 \<le> n" "n < 16" | "16 \<le> n" "n < 24" | "24 \<le> n" "n < 32" by fastforce
  then show "bit (of_be (ucast (drop_bit 24 w)) (ucast (drop_bit 16 w)) (ucast (drop_bit 8 w)) (ucast w)) n
      = bit w n"
    by cases (auto simp: of_be_def bit_simps)
qed

lemma byte_bit_high: "8 \<le> n \<Longrightarrow> \<not> bit (b :: 8 word) n"
  by (auto dest: bit_imp_le_length)

lemma ucast_of_be:
  "ucast (drop_bit 24 (of_be a b c d)) = a" "ucast (drop_bit 16 (of_be a b c d)) = b"
  "ucast (drop_bit 8 (of_be a b c d)) = c" "ucast (of_be a b c d) = d"
  unfolding of_be_def
  by (rule bit_word_eqI, force simp: bit_simps byte_bit_high)+

lemma swap32_swap32 [simp]: "swap32 (swap32 w) = w"
  by (simp add: swap32_def ucast_of_be of_be_be_bytes)

lemma swap32_of_be [simp]: "swap32 (of_be a b c d) = of_be d c b a"
  by (simp add: swap32_def ucast_of_be)

lemma ntohl_htonl [simp]: "ntohl le (htonl le w) = w"
  by (simp add: ntohl_def htonl_def)

lemma be_bytes_of_be [simp]: "be_bytes (of_be a b c d) = [a, b, c, d]"
  by (simp add: be_bytes_def ucast_of_be)

lemma of_mem32_mem32 [simp]: "of_mem32 le (mem32 le w) = w"
  by (simp add: of_mem32_def mem32_def be_bytes_def nul_pad_def Let_def of_be_be_bytes)

text \<open>On the wire the word is big endian whatever the byte order of the host.\<close>

lemma mem32_htonl: "mem32 le (htonl le w) = map byte_chr (be_bytes w)"
  by (simp add: mem32_def htonl_def swap32_def be_bytes_def ucast_of_be)

lemma ntohl_of_mem32:
  "length bs \<le> 4 \<Longrightarrow> ntohl le (of_mem32 le bs) =
     (let v = map chr_byte (nul_pad 4 bs) in of_be (v ! 0) (v ! 1) (v ! 2) (v ! 3))"
  by (simp add: ntohl_def of_mem32_def Let_def max_def)

end
