(* ===== verification/Records.thy ===== *)
theory Records
  imports Words
begin

text \<open>
  The structures of \<^verbatim>\<open>include/my_ndbm.h\<close> and their representation in memory, which is what the
  databases store. Every \<^verbatim>\<open>char\<close> array is a byte list of the array's size (\<open>wf_...\<close> states the sizes);
  \<open>encode_...\<close> lays a structure out as the compiler does (one byte of padding before the aligned
  \<^verbatim>\<open>int\<close> of an account), and \<open>decode_...\<close> is the \<^verbatim>\<open>memcpy\<close> of \<^verbatim>\<open>sizeof\<close> bytes back into a structure,
  which over-reads a datum that is too short. Decoding inverts encoding on well formed structures.
\<close>

abbreviation TOKEN_NAME_LENGTH :: nat where "TOKEN_NAME_LENGTH \<equiv> 21"

abbreviation BIG_TOKEN_NAME_LENGTH :: nat where "BIG_TOKEN_NAME_LENGTH \<equiv> 4096"

abbreviation PSWD_MAX_LENGTH :: nat where "PSWD_MAX_LENGTH \<equiv> 31"

abbreviation DSPLY_NAME_LENGTH :: nat where "DSPLY_NAME_LENGTH \<equiv> 21"

abbreviation UUID_LEN :: nat where "UUID_LEN \<equiv> 37"

abbreviation CLNT_IP_ADDR_LENGTH :: nat where "CLNT_IP_ADDR_LENGTH \<equiv> 16"

abbreviation DEFAULT_LIST_SIZE :: nat where "DEFAULT_LIST_SIZE \<equiv> 64"

abbreviation TIMESTAMP_SIZE :: nat where "TIMESTAMP_SIZE \<equiv> 32"

abbreviation MAX_MESSAGE_SIZE :: nat where "MAX_MESSAGE_SIZE \<equiv> 974"

abbreviation MAX_MSG_HISTORY_RES :: nat where "MAX_MSG_HISTORY_RES \<equiv> 8192"

section \<open>The structures\<close>

record user_login =
  ul_login_token :: bytes
  ul_password :: bytes
  ul_uuid :: bytes

record user_account =
  ua_user_id :: bytes
  ua_display_name :: bytes
  ua_ip_addr :: bytes
  ua_online_status :: bool
  ua_privilege_level :: "32 word"

record channel_info =
  ch_channel_id :: bytes
  ch_creator :: bytes
  ch_user_list :: "bytes list"
  ch_admin_list :: "bytes list"
  ch_banned_list :: "bytes list"
  ch_channel_name :: bytes
  ch_publicity :: bool

record message_info =
  mi_message_id :: bytes
  mi_user_id :: bytes
  mi_channel_id :: bytes
  mi_message_content :: bytes
  mi_time_stamp :: bytes

definition sizeof_user_login :: nat where
  "sizeof_user_login = 89"

definition sizeof_user_account :: nat where
  "sizeof_user_account = 80"

definition sizeof_channel_info :: nat where
  "sizeof_channel_info = 4112"

definition sizeof_message_info :: nat where
  "sizeof_message_info = 1117"

definition wf_user_login :: "user_login \<Rightarrow> bool" where
  "wf_user_login u \<longleftrightarrow> length (ul_login_token u) = TOKEN_NAME_LENGTH \<and>
     length (ul_password u) = PSWD_MAX_LENGTH \<and> length (ul_uuid u) = UUID_LEN"

definition wf_user_account :: "user_account \<Rightarrow> bool" where
  "wf_user_account u \<longleftrightarrow> length (ua_user_id u) = UUID_LEN \<and>
     length (ua_display_name u) = TOKEN_NAME_LENGTH \<and> length (ua_ip_addr u) = CLNT_IP_ADDR_LENGTH"

definition wf_names :: "bytes list \<Rightarrow> bool" where
  "wf_names xs \<longleftrightarrow> length xs = DEFAULT_LIST_SIZE \<and> list_all (\<lambda>x. length x = TOKEN_NAME_LENGTH) xs"

definition wf_channel_info :: "channel_info \<Rightarrow> bool" where
  "wf_channel_info c \<longleftrightarrow> length (ch_channel_id c) = UUID_LEN \<and>
     length (ch_creator c) = TOKEN_NAME_LENGTH \<and> wf_names (ch_user_list c) \<and>
     wf_names (ch_admin_list c) \<and> wf_names (ch_banned_list c) \<and>
     length (ch_channel_name c) = TOKEN_NAME_LENGTH"

definition wf_message_info :: "message_info \<Rightarrow> bool" where
  "wf_message_info m \<longleftrightarrow> length (mi_message_id m) = UUID_LEN \<and> length (mi_user_id m) = UUID_LEN \<and>
     length (mi_channel_id m) = UUID_LEN \<and> length (mi_message_content m) = MAX_MESSAGE_SIZE \<and>
     length (mi_time_stamp m) = TIMESTAMP_SIZE"

section \<open>Memory layout\<close>

definition bool_byte :: "bool \<Rightarrow> char" where
  "bool_byte b = (if b then CHR 0x01 else NUL)"

definition encode_user_login :: "user_login \<Rightarrow> bytes" where
  "encode_user_login u = ul_login_token u @ ul_password u @ ul_uuid u"

definition decode_user_login :: "bytes \<Rightarrow> user_login result" where
  "decode_user_login v =
     bindR (memcpy_prefix v sizeof_user_login) (\<lambda>v. Inr
       \<lparr>ul_login_token = take 21 v, ul_password = take 31 (drop 21 v), ul_uuid = take 37 (drop 52 v)\<rparr>)"

definition encode_user_account :: "bool \<Rightarrow> user_account \<Rightarrow> bytes" where
  "encode_user_account le u =
     ua_user_id u @ ua_display_name u @ ua_ip_addr u @ [bool_byte (ua_online_status u), NUL] @
     mem32 le (ua_privilege_level u)"

definition decode_user_account :: "bool \<Rightarrow> bytes \<Rightarrow> user_account result" where
  "decode_user_account le v =
     bindR (memcpy_prefix v sizeof_user_account) (\<lambda>v. Inr
       \<lparr>ua_user_id = take 37 v, ua_display_name = take 21 (drop 37 v), ua_ip_addr = take 16 (drop 58 v),
        ua_online_status = (v ! 74 \<noteq> NUL), ua_privilege_level = of_mem32 le (take 4 (drop 76 v))\<rparr>)"

fun chunks :: "nat \<Rightarrow> nat \<Rightarrow> bytes \<Rightarrow> bytes list" where
  "chunks k 0 bs = []"
| "chunks k (Suc n) bs = take k bs # chunks k n (drop k bs)"

definition encode_channel_info :: "channel_info \<Rightarrow> bytes" where
  "encode_channel_info c =
     ch_channel_id c @ ch_creator c @ concat (ch_user_list c) @ concat (ch_admin_list c) @
     concat (ch_banned_list c) @ ch_channel_name c @ [bool_byte (ch_publicity c)]"

definition decode_channel_info :: "bytes \<Rightarrow> channel_info result" where
  "decode_channel_info v =
     bindR (memcpy_prefix v sizeof_channel_info) (\<lambda>v. Inr
       \<lparr>ch_channel_id = take 37 v, ch_creator = take 21 (drop 37 v),
        ch_user_list = chunks 21 64 (drop 58 v), ch_admin_list = chunks 21 64 (drop 1402 v),
        ch_banned_list = chunks 21 64 (drop 2746 v), ch_channel_name = take 21 (drop 4090 v),
        ch_publicity = (v ! 4111 \<noteq> NUL)\<rparr>)"

definition encode_message_info :: "message_info \<Rightarrow> bytes" where
  "encode_message_info m =
     mi_message_id m @ mi_user_id m @ mi_channel_id m @ mi_message_content m @ mi_time_stamp m"

definition decode_message_info :: "bytes \<Rightarrow> message_info result" where
  "decode_message_info v =
     bindR (memcpy_prefix v sizeof_message_info) (\<lambda>v. Inr
       \<lparr>mi_message_id = take 37 v, mi_user_id = take 37 (drop 37 v), mi_channel_id = take 37 (drop 74 v),
        mi_message_content = take 974 (drop 111 v), mi_time_stamp = take 32 (drop 1085 v)\<rparr>)"

section \<open>Lemmas\<close>

lemma bool_byte_NUL [simp]: "bool_byte b = NUL \<longleftrightarrow> \<not> b"
  by (simp add: bool_byte_def)

lemma length_encode_user_login [simp]:
  "wf_user_login u \<Longrightarrow> length (encode_user_login u) = sizeof_user_login"
  by (simp add: wf_user_login_def encode_user_login_def sizeof_user_login_def)

lemma length_encode_user_account [simp]:
  "wf_user_account u \<Longrightarrow> length (encode_user_account le u) = sizeof_user_account"
  by (simp add: wf_user_account_def encode_user_account_def sizeof_user_account_def)

lemma length_concat_all: "list_all (\<lambda>x. length x = k) xs \<Longrightarrow> length (concat xs) = length xs * k"
  by (induction xs) auto

lemma length_concat_names: "wf_names xs \<Longrightarrow> length (concat xs) = 1344"
  using length_concat_all [of 21 xs] by (simp add: wf_names_def)

lemma length_encode_channel_info [simp]:
  "wf_channel_info c \<Longrightarrow> length (encode_channel_info c) = sizeof_channel_info"
  by (simp add: wf_channel_info_def encode_channel_info_def sizeof_channel_info_def length_concat_names)

lemma length_encode_message_info [simp]:
  "wf_message_info m \<Longrightarrow> length (encode_message_info m) = sizeof_message_info"
  by (simp add: wf_message_info_def encode_message_info_def sizeof_message_info_def)

lemma decode_encode_user_login [simp]:
  "wf_user_login u \<Longrightarrow> decode_user_login (encode_user_login u) = Inr u"
  by (simp add: decode_user_login_def memcpy_prefix_def)
    (simp add: wf_user_login_def encode_user_login_def sizeof_user_login_def)

lemma decode_encode_user_account [simp]:
  "wf_user_account u \<Longrightarrow> decode_user_account le (encode_user_account le u) = Inr u"
  by (simp add: decode_user_account_def memcpy_prefix_def)
    (simp add: wf_user_account_def encode_user_account_def sizeof_user_account_def nth_append)

lemma chunks_concat:
  "list_all (\<lambda>x. length x = k) xs \<Longrightarrow> chunks k (length xs) (concat xs @ r) = xs"
  by (induction xs) auto

lemma chunks_names: "wf_names xs \<Longrightarrow> chunks 21 64 (concat xs @ r) = xs"
  using chunks_concat [of 21 xs r] by (simp add: wf_names_def)

lemma decode_encode_channel_info [simp]:
  assumes "wf_channel_info c"
  shows "decode_channel_info (encode_channel_info c) = Inr c"
  using assms length_encode_channel_info [OF assms]
  by (simp add: decode_channel_info_def memcpy_prefix_def)
    (simp add: wf_channel_info_def encode_channel_info_def sizeof_channel_info_def
      length_concat_names chunks_names nth_append)

lemma decode_encode_message_info [simp]:
  "wf_message_info m \<Longrightarrow> decode_message_info (encode_message_info m) = Inr m"
  by (simp add: decode_message_info_def memcpy_prefix_def)
    (simp add: wf_message_info_def encode_message_info_def sizeof_message_info_def)

lemma decode_user_login_wf: "decode_user_login v = Inr u \<Longrightarrow> wf_user_login u"
  by (auto simp: decode_user_login_def bindR_eq_Inr wf_user_login_def sizeof_user_login_def)

lemma decode_user_account_wf: "decode_user_account le v = Inr u \<Longrightarrow> wf_user_account u"
  by (auto simp: decode_user_account_def bindR_eq_Inr wf_user_account_def sizeof_user_account_def)

lemma chunks_wf: "k * n \<le> length bs \<Longrightarrow> length (chunks k n bs) = n \<and> list_all (\<lambda>x. length x = k) (chunks k n bs)"
  by (induction n arbitrary: bs) auto

lemma decode_channel_info_wf: "decode_channel_info v = Inr c \<Longrightarrow> wf_channel_info c"
  by (auto simp: decode_channel_info_def bindR_eq_Inr wf_channel_info_def sizeof_channel_info_def
      wf_names_def chunks_wf)

lemma decode_message_info_wf: "decode_message_info v = Inr m \<Longrightarrow> wf_message_info m"
  by (auto simp: decode_message_info_def bindR_eq_Inr wf_message_info_def sizeof_message_info_def)

section \<open>Properties\<close>


text \<open>Sample structures, used by the witnesses.\<close>

definition sample_names :: "bytes list" where
  "sample_names = replicate DEFAULT_LIST_SIZE (zeros TOKEN_NAME_LENGTH)"

definition sample_login :: user_login where
  "sample_login =
     \<lparr>ul_login_token = nul_pad 21 ''bennychao'', ul_password = nul_pad 31 ''monkey123'', ul_uuid = zeros 37\<rparr>"

definition sample_account :: user_account where
  "sample_account =
     \<lparr>ua_user_id = zeros 37, ua_display_name = nul_pad 21 ''benny'', ua_ip_addr = nul_pad 16 ''0'',
      ua_online_status = False, ua_privilege_level = 0\<rparr>"

definition sample_channel :: channel_info where
  "sample_channel =
     \<lparr>ch_channel_id = zeros 37, ch_creator = nul_pad 21 ''benny'', ch_user_list = sample_names[0 := nul_pad 21 ''benny''],
      ch_admin_list = sample_names[0 := nul_pad 21 ''benny''], ch_banned_list = sample_names,
      ch_channel_name = nul_pad 21 ''global'', ch_publicity = True\<rparr>"

definition sample_message :: message_info where
  "sample_message =
     \<lparr>mi_message_id = zeros 37, mi_user_id = zeros 37, mi_channel_id = zeros 37,
      mi_message_content = nul_pad 974 ''hello'', mi_time_stamp = zeros 32\<rparr>"

lemma wf_names_update: "wf_names xs \<Longrightarrow> length x = TOKEN_NAME_LENGTH \<Longrightarrow> wf_names (xs[i := x])"
  unfolding wf_names_def list_all_iff by (auto dest: set_update_subset_insert [THEN subsetD])

lemma wf_samples [simp]:
  "wf_names sample_names" "wf_user_login sample_login" "wf_user_account sample_account"
  "wf_channel_info sample_channel" "wf_message_info sample_message"
proof -
  show n: "wf_names sample_names"
    by (simp add: wf_names_def sample_names_def list_all_iff)
  show "wf_channel_info sample_channel"
    by (simp add: wf_channel_info_def sample_channel_def n wf_names_update)
qed (simp_all add: wf_user_login_def sample_login_def wf_user_account_def sample_account_def
    wf_message_info_def sample_message_def)


end
