(* ===== verification/Env.thy ===== *)
theory Env
  imports Records
begin

text \<open>
  The code the server calls and does not contain: the ndbm library, libuuid, the allocator, the clock
  and the network. They are the fields of a record \<open>env\<close> over an abstract type \<open>'w\<close>, the state of the
  world outside the program, and every operation of the model that uses them takes the record as its
  first argument.

  \<open>ndbm_contract\<close> is what the server relies on: its laws are the documented behaviour of ndbm
  (a fetch sees the last store under its key, a delete fails on a missing key, a traversal visits each
  key once, an open without \<^verbatim>\<open>O_CREAT\<close> fails on a missing file), of libuuid (a text of 36 characters)
  and of an allocator that does not run out. They are stated through two observations of the world:
  the tables \<open>tab\<close> on disk and the handles \<open>opn\<close> that are open.

  A handle is the name of the database it was opened on: each function of \<^verbatim>\<open>my_ndbm.c\<close> opens a database,
  works on it and closes it.
\<close>

datatype db_name =
  DB_LOGIN_INFO | DB_DISPLAY_NAMES | DB_USER_ACCOUNT | DB_CHANNEL_INFO | DB_MESSAGE_INFO

datatype oflag = O_RDONLY | O_RDWR | O_CREAT | O_SYNC | O_APPEND

record 'w env =
  dbm_open :: "'w \<Rightarrow> db_name \<Rightarrow> oflag list \<Rightarrow> bool \<times> 'w"
  dbm_close :: "'w \<Rightarrow> db_name \<Rightarrow> 'w"
  dbm_fetch :: "'w \<Rightarrow> db_name \<Rightarrow> bytes \<Rightarrow> bytes option"
  dbm_store :: "'w \<Rightarrow> db_name \<Rightarrow> bytes \<Rightarrow> bytes \<Rightarrow> int \<times> 'w"
  dbm_delete :: "'w \<Rightarrow> db_name \<Rightarrow> bytes \<Rightarrow> int \<times> 'w"
  dbm_traverse :: "'w \<Rightarrow> db_name \<Rightarrow> bytes list"
  uuid_random :: "'w \<Rightarrow> string \<times> 'w"
  malloc_ok :: "'w \<Rightarrow> nat \<Rightarrow> bool"
  heap_junk :: "'w \<Rightarrow> nat \<Rightarrow> bytes"
  heap_slack :: nat
  clock :: "'w \<Rightarrow> int"
  write_ok :: "'w \<Rightarrow> int \<Rightarrow> bytes \<Rightarrow> bool"
  host_le :: bool

text \<open>\<open>dbm_traverse\<close> lists the keys that the loop \<^verbatim>\<open>dbm_firstkey\<close>, \<^verbatim>\<open>dbm_nextkey\<close> visits; \<open>heap_junk w n\<close> is
  the content of a fresh block of \<open>n\<close> bytes; \<open>heap_slack\<close> is the number of bytes behind a block that an
  access may touch without harm.\<close>

type_synonym 'w tables = "'w \<Rightarrow> db_name \<Rightarrow> (bytes \<rightharpoonup> bytes) option"

type_synonym 'w handles = "'w \<Rightarrow> db_name list"

section \<open>The contract\<close>

definition open_law :: "'w env \<Rightarrow> 'w tables \<Rightarrow> 'w handles \<Rightarrow> bool" where
  "open_law E tab opn \<longleftrightarrow>
     (\<forall>w d fl. opn w = [] \<longrightarrow>
       fst (dbm_open E w d fl) = (tab w d \<noteq> None \<or> O_CREAT \<in> set fl) \<and>
       opn (snd (dbm_open E w d fl)) = (if fst (dbm_open E w d fl) then [d] else []) \<and>
       tab (snd (dbm_open E w d fl)) =
         (if fst (dbm_open E w d fl) \<and> tab w d = None then (tab w)(d \<mapsto> Map.empty) else tab w))"

definition close_law :: "'w env \<Rightarrow> 'w tables \<Rightarrow> 'w handles \<Rightarrow> bool" where
  "close_law E tab opn \<longleftrightarrow>
     (\<forall>w d. d \<in> set (opn w) \<longrightarrow>
       opn (dbm_close E w d) = remove1 d (opn w) \<and> tab (dbm_close E w d) = tab w)"

definition fetch_law :: "'w env \<Rightarrow> 'w tables \<Rightarrow> 'w handles \<Rightarrow> bool" where
  "fetch_law E tab opn \<longleftrightarrow>
     (\<forall>w d m k. d \<in> set (opn w) \<longrightarrow> tab w d = Some m \<longrightarrow> dbm_fetch E w d k = m k)"

definition store_law :: "'w env \<Rightarrow> 'w tables \<Rightarrow> 'w handles \<Rightarrow> bool" where
  "store_law E tab opn \<longleftrightarrow>
     (\<forall>w d m k v. d \<in> set (opn w) \<longrightarrow> tab w d = Some m \<longrightarrow>
       fst (dbm_store E w d k v) = 0 \<and> opn (snd (dbm_store E w d k v)) = opn w \<and>
       tab (snd (dbm_store E w d k v)) = (tab w)(d \<mapsto> m(k \<mapsto> v)))"

definition delete_law :: "'w env \<Rightarrow> 'w tables \<Rightarrow> 'w handles \<Rightarrow> bool" where
  "delete_law E tab opn \<longleftrightarrow>
     (\<forall>w d m k. d \<in> set (opn w) \<longrightarrow> tab w d = Some m \<longrightarrow>
       (fst (dbm_delete E w d k) = 0 \<longleftrightarrow> m k \<noteq> None) \<and> opn (snd (dbm_delete E w d k)) = opn w \<and>
       tab (snd (dbm_delete E w d k)) = (tab w)(d \<mapsto> m(k := None)))"

definition traverse_law :: "'w env \<Rightarrow> 'w tables \<Rightarrow> 'w handles \<Rightarrow> bool" where
  "traverse_law E tab opn \<longleftrightarrow>
     (\<forall>w d m. d \<in> set (opn w) \<longrightarrow> tab w d = Some m \<longrightarrow>
       distinct (dbm_traverse E w d) \<and> set (dbm_traverse E w d) = dom m)"

definition uuid_law :: "'w env \<Rightarrow> 'w tables \<Rightarrow> 'w handles \<Rightarrow> bool" where
  "uuid_law E tab opn \<longleftrightarrow>
     (\<forall>w. length (fst (uuid_random E w)) = 36 \<and> NUL \<notin> set (fst (uuid_random E w)) \<and>
       tab (snd (uuid_random E w)) = tab w \<and> opn (snd (uuid_random E w)) = opn w)"

definition heap_law :: "'w env \<Rightarrow> bool" where
  "heap_law E \<longleftrightarrow> (\<forall>w n. malloc_ok E w n \<and> length (heap_junk E w n) = n)"

definition ndbm_contract :: "'w env \<Rightarrow> 'w tables \<Rightarrow> 'w handles \<Rightarrow> bool" where
  "ndbm_contract E tab opn \<longleftrightarrow>
     open_law E tab opn \<and> close_law E tab opn \<and> fetch_law E tab opn \<and> store_law E tab opn \<and>
     delete_law E tab opn \<and> traverse_law E tab opn \<and> uuid_law E tab opn \<and> heap_law E"

text \<open>Some ndbm implementations refuse to open a database that the process already holds open for
  writing. \<open>reopen_law\<close> says that this one does not; only the two functions that read a channel while
  they hold its database open depend on it.\<close>

definition reopen_law :: "'w env \<Rightarrow> 'w tables \<Rightarrow> 'w handles \<Rightarrow> bool" where
  "reopen_law E tab opn \<longleftrightarrow>
     (\<forall>w d fl. opn w = [d] \<longrightarrow> tab w d \<noteq> None \<longrightarrow> O_RDONLY \<in> set fl \<longrightarrow>
       fst (dbm_open E w d fl) \<and> opn (snd (dbm_open E w d fl)) = [d, d] \<and>
       tab (snd (dbm_open E w d fl)) = tab w)"

section \<open>An instance\<close>

text \<open>An environment that keeps its tables as association lists in memory. It shows that the contract
  can be met, and the witnesses run on it.\<close>

record mem_world =
  mw_tables :: "db_name \<Rightarrow> (bytes \<times> bytes) list option"
  mw_open :: "db_name list"
  mw_uuid :: nat

definition alist_put :: "bytes \<Rightarrow> bytes \<Rightarrow> (bytes \<times> bytes) list \<Rightarrow> (bytes \<times> bytes) list" where
  "alist_put k v al = (k, v) # filter (\<lambda>p. fst p \<noteq> k) al"

definition alist_del :: "bytes \<Rightarrow> (bytes \<times> bytes) list \<Rightarrow> (bytes \<times> bytes) list" where
  "alist_del k al = filter (\<lambda>p. fst p \<noteq> k) al"

definition mem_env :: "mem_world env" where
  "mem_env =
     \<lparr>dbm_open = (\<lambda>w d fl.
        case mw_tables w d of
          Some al \<Rightarrow> (True, w\<lparr>mw_open := d # mw_open w\<rparr>)
        | None \<Rightarrow> if O_CREAT \<in> set fl
            then (True, w\<lparr>mw_open := d # mw_open w, mw_tables := (mw_tables w)(d \<mapsto> [])\<rparr>) else (False, w)),
      dbm_close = (\<lambda>w d. w\<lparr>mw_open := remove1 d (mw_open w)\<rparr>),
      dbm_fetch = (\<lambda>w d k. case mw_tables w d of None \<Rightarrow> None | Some al \<Rightarrow> map_of al k),
      dbm_store = (\<lambda>w d k v. case mw_tables w d of
          None \<Rightarrow> (-1, w)
        | Some al \<Rightarrow> (0, w\<lparr>mw_tables := (mw_tables w)(d \<mapsto> alist_put k v al)\<rparr>)),
      dbm_delete = (\<lambda>w d k. case mw_tables w d of
          None \<Rightarrow> (-1, w)
        | Some al \<Rightarrow> (if map_of al k = None then -1 else 0,
            w\<lparr>mw_tables := (mw_tables w)(d \<mapsto> alist_del k al)\<rparr>)),
      dbm_traverse = (\<lambda>w d. case mw_tables w d of None \<Rightarrow> [] | Some al \<Rightarrow> remdups (map fst al)),
      uuid_random = (\<lambda>w. (replicate 36 (digit_chr (mw_uuid w mod 10)), w\<lparr>mw_uuid := Suc (mw_uuid w)\<rparr>)),
      malloc_ok = (\<lambda>w n. True),
      heap_junk = (\<lambda>w n. zeros n),
      heap_slack = 16,
      clock = (\<lambda>w. 0),
      write_ok = (\<lambda>w fd b. True),
      host_le = True\<rparr>"

definition mem_tab :: "mem_world tables" where
  "mem_tab w d = map_option map_of (mw_tables w d)"

definition mem_empty :: mem_world where
  "mem_empty = \<lparr>mw_tables = (\<lambda>d. None), mw_open = [], mw_uuid = 0\<rparr>"

section \<open>Lemmas\<close>

lemma map_of_alist_put [simp]: "map_of (alist_put k v al) = (map_of al)(k \<mapsto> v)"
proof
  fix x
  show "map_of (alist_put k v al) x = ((map_of al)(k \<mapsto> v)) x"
    by (induction al) (auto simp: alist_put_def)
qed

lemma map_of_alist_del [simp]: "map_of (alist_del k al) = (map_of al)(k := None)"
proof
  fix x
  show "map_of (alist_del k al) x = ((map_of al)(k := None)) x"
    by (induction al) (auto simp: alist_del_def)
qed

lemma digit_chr_not_NUL: "d < 10 \<Longrightarrow> digit_chr d \<noteq> NUL"
  using isdigit_digit_chr [of d] isdigit_not_sign by auto

lemma mem_env_contract: "ndbm_contract mem_env mem_tab mw_open"
proof -
  have "open_law mem_env mem_tab mw_open"
    by (auto simp: open_law_def mem_env_def mem_tab_def fun_eq_iff split: option.splits)
  moreover have "close_law mem_env mem_tab mw_open"
    by (auto simp: close_law_def mem_env_def mem_tab_def)
  moreover have "fetch_law mem_env mem_tab mw_open"
    by (auto simp: fetch_law_def mem_env_def mem_tab_def split: option.splits)
  moreover have "store_law mem_env mem_tab mw_open"
    by (auto simp: store_law_def mem_env_def mem_tab_def fun_eq_iff split: option.splits)
  moreover have "delete_law mem_env mem_tab mw_open"
    by (auto simp: delete_law_def mem_env_def mem_tab_def fun_eq_iff split: option.splits)
  moreover have "traverse_law mem_env mem_tab mw_open"
    by (auto simp: traverse_law_def mem_env_def mem_tab_def dom_map_of_conv_image_fst split: option.splits)
  moreover have "uuid_law mem_env mem_tab mw_open"
    by (auto simp: uuid_law_def mem_env_def mem_tab_def digit_chr_not_NUL [symmetric] fun_eq_iff)
  moreover have "heap_law mem_env"
    by (simp add: heap_law_def mem_env_def)
  ultimately show ?thesis by (simp add: ndbm_contract_def)
qed

lemma mem_env_reopen: "reopen_law mem_env mem_tab mw_open"
  by (auto simp: reopen_law_def mem_env_def mem_tab_def split: option.splits)

text \<open>The laws as rewrite rules, for a component that holds the contract.\<close>

lemma contract_open:
  assumes "ndbm_contract E tab opn" "opn w = []" "dbm_open E w d fl = (ok, w')"
  shows "ok = (tab w d \<noteq> None \<or> O_CREAT \<in> set fl)"
    "opn w' = (if ok then [d] else [])"
    "tab w' = (if ok \<and> tab w d = None then (tab w)(d \<mapsto> Map.empty) else tab w)"
  using assms unfolding ndbm_contract_def open_law_def by (metis fst_conv snd_conv)+

lemma contract_close:
  assumes "ndbm_contract E tab opn" "d \<in> set (opn w)"
  shows "opn (dbm_close E w d) = remove1 d (opn w)" "tab (dbm_close E w d) = tab w"
  using assms unfolding ndbm_contract_def close_law_def by blast+

lemma contract_fetch:
  assumes "ndbm_contract E tab opn" "d \<in> set (opn w)" "tab w d = Some m"
  shows "dbm_fetch E w d k = m k"
  using assms unfolding ndbm_contract_def fetch_law_def by blast

lemma contract_store:
  assumes "ndbm_contract E tab opn" "d \<in> set (opn w)" "tab w d = Some m"
  shows "\<exists>w'. dbm_store E w d k v = (0, w') \<and> opn w' = opn w \<and> tab w' = (tab w)(d \<mapsto> m(k \<mapsto> v))"
  using assms unfolding ndbm_contract_def store_law_def by (metis prod.collapse)

lemma contract_delete:
  assumes "ndbm_contract E tab opn" "d \<in> set (opn w)" "tab w d = Some m"
  shows "\<exists>r w'. dbm_delete E w d k = (r, w') \<and> (r = 0 \<longleftrightarrow> m k \<noteq> None) \<and> opn w' = opn w \<and>
    tab w' = (tab w)(d \<mapsto> m(k := None))"
  using assms unfolding ndbm_contract_def delete_law_def by (metis prod.collapse)

lemma contract_traverse:
  assumes "ndbm_contract E tab opn" "d \<in> set (opn w)" "tab w d = Some m"
  shows "distinct (dbm_traverse E w d)" "set (dbm_traverse E w d) = dom m"
  using assms unfolding ndbm_contract_def traverse_law_def by blast+

lemma contract_uuid:
  assumes "ndbm_contract E tab opn" "uuid_random E w = (u, w')"
  shows "length u = 36" "NUL \<notin> set u" "tab w' = tab w" "opn w' = opn w"
  using assms unfolding ndbm_contract_def uuid_law_def by (metis fst_conv snd_conv)+

lemma contract_heap:
  assumes "ndbm_contract E tab opn"
  shows "malloc_ok E w n" "length (heap_junk E w n) = n"
  using assms unfolding ndbm_contract_def heap_law_def by blast+

end
