(* ===== verification/Ndbm.thy ===== *)
theory Ndbm
  imports Env
begin

text \<open>
  \<^verbatim>\<open>src/my_ndbm.c\<close>: the database layer. Each function opens a database, works on it and closes it; a
  datum is the bytes of the structure the C code points at. \<open>None\<close> is a NULL result. The functions
  thread the state \<open>w\<close> of the outside world, because even a read opens and closes a handle.

  The interface the handlers rely on for the three tables that are accessed by key is the locale
  \<open>keyed_table\<close> of the theory \<open>Tables\<close>. The channel table is searched by name; \<open>find_channel\<close> is the
  specification of the search.
\<close>

section \<open>Operations\<close>

definition open_db_or_null :: "'w env \<Rightarrow> 'w \<Rightarrow> db_name \<Rightarrow> oflag list \<Rightarrow> bool \<times> 'w" where
  "open_db_or_null E w db_name flag = dbm_open E w db_name flag"

abbreviation datum :: "bytes \<Rightarrow> nat \<Rightarrow> bytes result" where
  "datum p n \<equiv> memcpy_prefix p n"

abbreviation READ_FLAGS :: "oflag list" where "READ_FLAGS \<equiv> [O_RDONLY, O_SYNC]"

abbreviation WRITE_FLAGS :: "oflag list" where "WRITE_FLAGS \<equiv> [O_CREAT, O_RDWR, O_SYNC, O_APPEND]"

definition char_at :: "bytes \<Rightarrow> nat \<Rightarrow> char result" where
  "char_at a i = (if i < length a then Inr (a ! i) else Inl Overread)"

subsection \<open>Get functions\<close>

definition get_login_info_malloc_or_null ::
  "'w env \<Rightarrow> 'w \<Rightarrow> bytes \<Rightarrow> (user_login option \<times> 'w) result"
where
  "get_login_info_malloc_or_null E w login_token =
     (let (ok, w) = open_db_or_null E w DB_LOGIN_INFO READ_FLAGS
      in if \<not> ok then Inr (None, w)
         else bindR (datum login_token TOKEN_NAME_LENGTH) (\<lambda>key.
           case dbm_fetch E w DB_LOGIN_INFO key of
             None \<Rightarrow> Inr (None, dbm_close E w DB_LOGIN_INFO)
           | Some v \<Rightarrow>
               if \<not> malloc_ok E w sizeof_user_login then Inr (None, dbm_close E w DB_LOGIN_INFO)
               else bindR (decode_user_login v) (\<lambda>info. Inr (Some info, dbm_close E w DB_LOGIN_INFO))))"

text \<open>The copy in \<^verbatim>\<open>get_user_account_malloc_or_null\<close> has the size of a login record, nine bytes more than
  the account it reads and the block it fills; it is harmless only if nine bytes behind both blocks
  may be touched.\<close>

definition memcpy_account :: "'w env \<Rightarrow> bytes \<Rightarrow> user_account result" where
  "memcpy_account E v =
     (if sizeof_user_account + heap_slack E < sizeof_user_login then Inl BufferOverflow
      else if length v + heap_slack E < sizeof_user_login then Inl Overread
      else decode_user_account (host_le E) v)"

definition get_user_account_malloc_or_null ::
  "'w env \<Rightarrow> 'w \<Rightarrow> bytes \<Rightarrow> (user_account option \<times> 'w) result"
where
  "get_user_account_malloc_or_null E w user_uuid =
     (let (ok, w) = open_db_or_null E w DB_USER_ACCOUNT [O_RDWR]
      in if \<not> ok then Inr (None, w)
         else bindR (datum user_uuid UUID_LEN) (\<lambda>key.
           case dbm_fetch E w DB_USER_ACCOUNT key of
             None \<Rightarrow> Inr (None, dbm_close E w DB_USER_ACCOUNT)
           | Some v \<Rightarrow>
               if \<not> malloc_ok E w sizeof_user_account then Inr (None, dbm_close E w DB_USER_ACCOUNT)
               else bindR (memcpy_account E v) (\<lambda>acc. Inr (Some acc, dbm_close E w DB_USER_ACCOUNT))))"

definition get_uuid_with_display_name_or_null ::
  "'w env \<Rightarrow> 'w \<Rightarrow> bytes \<Rightarrow> (bytes option \<times> 'w) result"
where
  "get_uuid_with_display_name_or_null E w display_name =
     (let (ok, w) = open_db_or_null E w DB_DISPLAY_NAMES [O_RDWR]
      in if \<not> ok then Inr (None, w)
         else bindR (datum display_name TOKEN_NAME_LENGTH) (\<lambda>key.
           case dbm_fetch E w DB_DISPLAY_NAMES key of
             None \<Rightarrow> Inr (None, dbm_close E w DB_DISPLAY_NAMES)
           | Some v \<Rightarrow>
               if \<not> malloc_ok E w UUID_LEN then Inl NullDeref
               else bindR (strncpy (heap_junk E w UUID_LEN) v UUID_LEN) (\<lambda>ret_uuid.
                 Inr (Some ret_uuid, dbm_close E w DB_DISPLAY_NAMES))))"

definition get_message_malloc_or_null ::
  "'w env \<Rightarrow> 'w \<Rightarrow> bytes \<Rightarrow> (message_info option \<times> 'w) result"
where
  "get_message_malloc_or_null E w user_token =
     (let (ok, w) = open_db_or_null E w DB_MESSAGE_INFO READ_FLAGS
      in if \<not> ok then Inr (None, w)
         else bindR (datum user_token TOKEN_NAME_LENGTH) (\<lambda>key.
           case dbm_fetch E w DB_MESSAGE_INFO key of
             None \<Rightarrow> Inr (None, dbm_close E w DB_MESSAGE_INFO)
           | Some v \<Rightarrow>
               if \<not> malloc_ok E w sizeof_message_info then Inr (None, dbm_close E w DB_MESSAGE_INFO)
               else bindR (decode_message_info v) (\<lambda>m. Inr (Some m, dbm_close E w DB_MESSAGE_INFO))))"

fun find_channel_loop :: "'w env \<Rightarrow> 'w \<Rightarrow> bytes \<Rightarrow> bytes list \<Rightarrow> channel_info option result" where
  "find_channel_loop E w channel_name [] = Inr None"
| "find_channel_loop E w channel_name (key # keys) =
     (case dbm_fetch E w DB_CHANNEL_INFO key of
        None \<Rightarrow> Inr None
      | Some v \<Rightarrow> bindR (decode_channel_info v) (\<lambda>k_channel.
          bindR (strcmp_eq (ch_channel_name k_channel) channel_name) (\<lambda>eq.
            if eq then (if malloc_ok E w sizeof_channel_info then Inr (Some k_channel) else Inl NullDeref)
            else find_channel_loop E w channel_name keys)))"

definition get_channel_info_malloc_or_null ::
  "'w env \<Rightarrow> 'w \<Rightarrow> bytes \<Rightarrow> (channel_info option \<times> 'w) result"
where
  "get_channel_info_malloc_or_null E w channel_name =
     (let (ok, w) = open_db_or_null E w DB_CHANNEL_INFO READ_FLAGS
      in if \<not> ok then Inr (None, w)
         else bindR (find_channel_loop E w channel_name (dbm_traverse E w DB_CHANNEL_INFO)) (\<lambda>r.
           Inr (r, dbm_close E w DB_CHANNEL_INFO)))"

fun all_channels_loop :: "'w env \<Rightarrow> 'w \<Rightarrow> bytes list \<Rightarrow> channel_info list \<Rightarrow> channel_info list option result" where
  "all_channels_loop E w [] acc = Inr (Some acc)"
| "all_channels_loop E w (key # keys) acc =
     (case dbm_fetch E w DB_CHANNEL_INFO key of
        None \<Rightarrow> Inr None
      | Some v \<Rightarrow>
          if \<not> malloc_ok E w (8 * Suc (length acc)) then Inr None
          else if \<not> malloc_ok E w sizeof_channel_info then Inl NullDeref
          else bindR (decode_channel_info v) (\<lambda>c. all_channels_loop E w keys (acc @ [c])))"

definition get_all_channels :: "'w env \<Rightarrow> 'w \<Rightarrow> (channel_info list option \<times> 'w) result" where
  "get_all_channels E w =
     (let (ok, w) = open_db_or_null E w DB_CHANNEL_INFO READ_FLAGS
      in if \<not> ok then Inr (None, w)
         else if \<not> malloc_ok E w 16 then Inr (None, dbm_close E w DB_CHANNEL_INFO)
         else bindR (all_channels_loop E w (dbm_traverse E w DB_CHANNEL_INFO) []) (\<lambda>r.
           Inr (r, dbm_close E w DB_CHANNEL_INFO)))"

fun all_messages_loop :: "'w env \<Rightarrow> 'w \<Rightarrow> bytes list \<Rightarrow> message_info list \<Rightarrow> message_info list option result" where
  "all_messages_loop E w [] acc = Inr (Some acc)"
| "all_messages_loop E w (key # keys) acc =
     (case dbm_fetch E w DB_MESSAGE_INFO key of
        None \<Rightarrow> Inr None
      | Some v \<Rightarrow>
          if \<not> malloc_ok E w sizeof_message_info then Inl NullDeref
          else bindR (decode_message_info v) (\<lambda>m.
            if \<not> malloc_ok E w (8 * Suc (length acc)) then Inr None
            else all_messages_loop E w keys (acc @ [m])))"

definition get_all_messages :: "'w env \<Rightarrow> 'w \<Rightarrow> (message_info list option \<times> 'w) result" where
  "get_all_messages E w =
     (let (ok, w) = open_db_or_null E w DB_MESSAGE_INFO READ_FLAGS
      in if \<not> ok then Inr (None, w)
         else if \<not> malloc_ok E w 16 then Inr (None, dbm_close E w DB_MESSAGE_INFO)
         else bindR (all_messages_loop E w (dbm_traverse E w DB_MESSAGE_INFO) []) (\<lambda>r.
           Inr (r, dbm_close E w DB_MESSAGE_INFO)))"

subsection \<open>Check functions\<close>

definition check_duplicate_display_name :: "'w env \<Rightarrow> 'w \<Rightarrow> bytes \<Rightarrow> (bool \<times> 'w) result" where
  "check_duplicate_display_name E w display_name =
     (let (ok, w) = open_db_or_null E w DB_DISPLAY_NAMES READ_FLAGS
      in if \<not> ok then Inr (False, w)
         else bindR (datum display_name TOKEN_NAME_LENGTH) (\<lambda>key.
           Inr (dbm_fetch E w DB_DISPLAY_NAMES key \<noteq> None, dbm_close E w DB_DISPLAY_NAMES)))"

fun dup_channel_loop :: "'w env \<Rightarrow> 'w \<Rightarrow> bytes \<Rightarrow> bytes list \<Rightarrow> bool result" where
  "dup_channel_loop E w channel_name [] = Inr False"
| "dup_channel_loop E w channel_name (key # keys) =
     (case dbm_fetch E w DB_CHANNEL_INFO key of
        None \<Rightarrow> Inr False
      | Some v \<Rightarrow> bindR (decode_channel_info v) (\<lambda>k_channel.
          bindR (strcmp_eq (ch_channel_name k_channel) channel_name) (\<lambda>eq.
            if eq then Inr True else dup_channel_loop E w channel_name keys)))"

definition check_duplicate_channel_name :: "'w env \<Rightarrow> 'w \<Rightarrow> bytes \<Rightarrow> (bool \<times> 'w) result" where
  "check_duplicate_channel_name E w channel_name =
     (let (ok, w) = open_db_or_null E w DB_CHANNEL_INFO READ_FLAGS
      in if \<not> ok then Inr (False, w)
         else bindR (dup_channel_loop E w channel_name (dbm_traverse E w DB_CHANNEL_INFO)) (\<lambda>r.
           Inr (r, dbm_close E w DB_CHANNEL_INFO)))"

fun in_user_list :: "bytes \<Rightarrow> bytes list \<Rightarrow> bool result" where
  "in_user_list display_name [] = Inr False"
| "in_user_list display_name (u # us) =
     bindR (char_at u 0) (\<lambda>c.
       if c \<noteq> NUL
       then bindR (strcmp_eq display_name u) (\<lambda>eq. if eq then Inr True else in_user_list display_name us)
       else in_user_list display_name us)"

definition check_if_user_in_channel :: "bytes \<Rightarrow> channel_info option \<Rightarrow> bool result" where
  "check_if_user_in_channel display_name channel =
     bindR (deref channel) (\<lambda>c. in_user_list display_name (ch_user_list c))"

subsection \<open>Insert and remove functions\<close>

text \<open>The body the five insert functions share, and that of the three remove functions.\<close>

definition db_insert :: "'w env \<Rightarrow> 'w \<Rightarrow> db_name \<Rightarrow> bytes \<Rightarrow> nat \<Rightarrow> bytes \<Rightarrow> (int \<times> 'w) result" where
  "db_insert E w db key_ptr key_size value =
     (let (ok, w) = open_db_or_null E w db WRITE_FLAGS
      in if \<not> ok then Inr (-1, w)
         else bindR (datum key_ptr key_size) (\<lambda>key.
           let (r, w) = dbm_store E w db key value
           in if r \<noteq> 0 then Inr (-1, dbm_close E w db) else Inr (0, dbm_close E w db)))"

definition db_remove :: "'w env \<Rightarrow> 'w \<Rightarrow> db_name \<Rightarrow> bytes \<Rightarrow> nat \<Rightarrow> (int \<times> 'w) result" where
  "db_remove E w db key_ptr key_size =
     (let (ok, w) = open_db_or_null E w db WRITE_FLAGS
      in if \<not> ok then Inr (-1, w)
         else bindR (datum key_ptr key_size) (\<lambda>key.
           let (r, w) = dbm_delete E w db key
           in if r \<noteq> 0 then Inr (-1, dbm_close E w db) else Inr (0, dbm_close E w db)))"

definition insert_user_account :: "'w env \<Rightarrow> 'w \<Rightarrow> user_account \<Rightarrow> (int \<times> 'w) result" where
  "insert_user_account E w user_account =
     db_insert E w DB_USER_ACCOUNT (ua_user_id user_account) UUID_LEN
       (encode_user_account (host_le E) user_account)"

definition insert_display_name :: "'w env \<Rightarrow> 'w \<Rightarrow> bytes \<Rightarrow> bytes \<Rightarrow> (int \<times> 'w) result" where
  "insert_display_name E w display_name uuid =
     bindR (datum uuid UUID_LEN) (\<lambda>value.
       db_insert E w DB_DISPLAY_NAMES display_name TOKEN_NAME_LENGTH value)"

definition insert_user_login :: "'w env \<Rightarrow> 'w \<Rightarrow> user_login \<Rightarrow> (int \<times> 'w) result" where
  "insert_user_login E w user_login =
     db_insert E w DB_LOGIN_INFO (ul_login_token user_login) TOKEN_NAME_LENGTH
       (encode_user_login user_login)"

definition insert_channel_info :: "'w env \<Rightarrow> 'w \<Rightarrow> channel_info \<Rightarrow> (int \<times> 'w) result" where
  "insert_channel_info E w channel_info =
     db_insert E w DB_CHANNEL_INFO (ch_channel_id channel_info) UUID_LEN
       (encode_channel_info channel_info)"

definition insert_message :: "'w env \<Rightarrow> 'w \<Rightarrow> message_info option \<Rightarrow> (int \<times> 'w) result" where
  "insert_message E w message =
     bindR (deref message) (\<lambda>m.
       db_insert E w DB_MESSAGE_INFO (mi_message_id m) UUID_LEN (encode_message_info m))"

definition remove_user_account :: "'w env \<Rightarrow> 'w \<Rightarrow> bytes \<Rightarrow> (int \<times> 'w) result" where
  "remove_user_account E w user_id = db_remove E w DB_USER_ACCOUNT user_id UUID_LEN"

definition remove_display_name :: "'w env \<Rightarrow> 'w \<Rightarrow> bytes \<Rightarrow> (int \<times> 'w) result" where
  "remove_display_name E w display_name = db_remove E w DB_DISPLAY_NAMES display_name TOKEN_NAME_LENGTH"

definition remove_user_login :: "'w env \<Rightarrow> 'w \<Rightarrow> bytes \<Rightarrow> (int \<times> 'w) result" where
  "remove_user_login E w login_token = db_remove E w DB_LOGIN_INFO login_token TOKEN_NAME_LENGTH"

subsection \<open>Update functions\<close>

definition update_channel_name_and_publicity ::
  "'w env \<Rightarrow> 'w \<Rightarrow> bytes \<Rightarrow> bytes \<Rightarrow> bool \<Rightarrow> (int \<times> 'w) result"
where
  "update_channel_name_and_publicity E w channel_name new_channel_name new_publicity =
     (let (ok, w) = open_db_or_null E w DB_CHANNEL_INFO [O_RDWR, O_SYNC]
      in if \<not> ok then Inr (-1, w)
         else bindR (get_channel_info_malloc_or_null E w channel_name) (\<lambda>(fetched, w). case fetched of
             None \<Rightarrow> Inr (-1, dbm_close E w DB_CHANNEL_INFO)
           | Some c \<Rightarrow>
               bindR (strncpy (ch_channel_name c) new_channel_name TOKEN_NAME_LENGTH) (\<lambda>nm.
               bindR (datum (ch_channel_id c) UUID_LEN) (\<lambda>key.
                 let (r, w) = dbm_store E w DB_CHANNEL_INFO key
                       (encode_channel_info (c\<lparr>ch_channel_name := nm, ch_publicity := new_publicity\<rparr>))
                 in if r \<noteq> 0 then Inr (-1, dbm_close E w DB_CHANNEL_INFO)
                    else Inr (0, dbm_close E w DB_CHANNEL_INFO)))))"

text \<open>The loops of \<^verbatim>\<open>add_users_on_channel\<close>: \<open>blank_member\<close> is the inner loop for one member of the channel
  (it stops at the first empty name and empties each name equal to the member), \<open>blank_members\<close> the
  outer one, which also counts the members, and \<open>append_users\<close> the loop that copies the names.\<close>

fun blank_member :: "bytes \<Rightarrow> bytes list \<Rightarrow> bytes list result" where
  "blank_member member [] = Inr []"
| "blank_member member (u # us) =
     bindR (char_at u 0) (\<lambda>c.
       if c = NUL then Inr (u # us)
       else bindR (strcmp_eq member u) (\<lambda>eq.
         bindR (blank_member member us) (\<lambda>us'. Inr ((if eq then u[0 := NUL] else u) # us'))))"

fun blank_members :: "bytes list \<Rightarrow> bytes list \<Rightarrow> nat \<Rightarrow> (nat \<times> bytes list) result" where
  "blank_members [] users_to_add j = Inr (j, users_to_add)"
| "blank_members (member # members) users_to_add j =
     bindR (char_at member 0) (\<lambda>c.
       if c = NUL then Inr (j, users_to_add)
       else bindR (blank_member member users_to_add) (\<lambda>us. blank_members members us (Suc j)))"

fun append_users :: "nat \<Rightarrow> bytes list \<Rightarrow> bytes list \<Rightarrow> bytes list result" where
  "append_users j [] user_list = Inr user_list"
| "append_users j (u # us) user_list =
     (if j < DEFAULT_LIST_SIZE \<and> j < length user_list
      then bindR (char_at u 0) (\<lambda>c.
        if c = NUL then Inr user_list
        else bindR (strncpy (user_list ! j) u TOKEN_NAME_LENGTH) (\<lambda>x.
          append_users (Suc j) us (user_list[j := x])))
      else Inr user_list)"

definition add_users_on_channel :: "'w env \<Rightarrow> 'w \<Rightarrow> bytes \<Rightarrow> bytes list \<Rightarrow> (int \<times> 'w) result" where
  "add_users_on_channel E w channel_name users_to_add =
     (let (ok, w) = open_db_or_null E w DB_CHANNEL_INFO [O_RDWR, O_SYNC]
      in if \<not> ok then Inr (-1, w)
         else bindR (get_channel_info_malloc_or_null E w channel_name) (\<lambda>(fetched, w). case fetched of
             None \<Rightarrow> Inr (-1, w)
           | Some c \<Rightarrow>
               bindR (blank_members (ch_user_list c) users_to_add 0) (\<lambda>(j, us).
               bindR (append_users j us (ch_user_list c)) (\<lambda>ul.
               bindR (datum (ch_channel_id c) UUID_LEN) (\<lambda>key.
                 let (r, w) = dbm_store E w DB_CHANNEL_INFO key (encode_channel_info (c\<lparr>ch_user_list := ul\<rparr>))
                 in if r \<noteq> 0 then Inr (-1, dbm_close E w DB_CHANNEL_INFO)
                    else Inr (0, dbm_close E w DB_CHANNEL_INFO))))))"

section \<open>Specifications of the operations\<close>

text \<open>Tables as the operations see them: a lookup, a store (which creates a missing table) and a
  deletion. Each operation below is described by its effect on these.\<close>

type_synonym table_state = "db_name \<Rightarrow> (bytes \<rightharpoonup> bytes) option"

definition look :: "table_state \<Rightarrow> db_name \<Rightarrow> bytes \<Rightarrow> bytes option" where
  "look t d k = (case t d of None \<Rightarrow> None | Some m \<Rightarrow> m k)"

definition content :: "table_state \<Rightarrow> db_name \<Rightarrow> (bytes \<rightharpoonup> bytes)" where
  "content t d = (case t d of None \<Rightarrow> Map.empty | Some m \<Rightarrow> m)"

definition tput :: "table_state \<Rightarrow> db_name \<Rightarrow> bytes \<Rightarrow> bytes \<Rightarrow> table_state" where
  "tput t d k v = t(d \<mapsto> (content t d)(k \<mapsto> v))"

definition tdel :: "table_state \<Rightarrow> db_name \<Rightarrow> bytes \<Rightarrow> table_state" where
  "tdel t d k = t(d \<mapsto> (content t d)(k := None))"

lemma look_content: "look t d k = content t d k"
  by (simp add: look_def content_def split: option.splits)

lemma look_tput [simp]: "look (tput t d k v) d' k' = (if d = d' \<and> k = k' then Some v else look t d' k')"
  by (auto simp: look_content tput_def content_def)

lemma look_tdel [simp]: "look (tdel t d k) d' k' = (if d = d' \<and> k = k' then None else look t d' k')"
  by (auto simp: look_content tdel_def content_def)

lemma content_tput [simp]:
  "content (tput t d k v) d' = (if d = d' then (content t d)(k \<mapsto> v) else content t d')"
  by (auto simp: tput_def content_def)

lemma content_tdel [simp]:
  "content (tdel t d k) d' = (if d = d' then (content t d)(k := None) else content t d')"
  by (auto simp: tdel_def content_def)

lemma tput_exists [simp]: "tput t d k v d' = None \<longleftrightarrow> d \<noteq> d' \<and> t d' = None"
  by (auto simp: tput_def)

lemma datum_ok [simp]: "length p = n \<Longrightarrow> memcpy_prefix p n = Inr p"
  by (simp add: memcpy_prefix_def)

lemma open_read_cases:
  assumes C: "ndbm_contract E tab opn" and R: "opn w = []" and F: "O_CREAT \<notin> set fl"
  obtains (missing) w1 where "dbm_open E w d fl = (False, w1)" "tab w d = None" "opn w1 = []" "tab w1 = tab w"
  | (found) w1 m where "dbm_open E w d fl = (True, w1)" "tab w d = Some m" "opn w1 = [d]" "tab w1 = tab w"
      "\<And>k. dbm_fetch E w1 d k = m k" "opn (dbm_close E w1 d) = []" "tab (dbm_close E w1 d) = tab w"
      "distinct (dbm_traverse E w1 d)" "set (dbm_traverse E w1 d) = dom m"
proof -
  obtain ok w1 where o: "dbm_open E w d fl = (ok, w1)" by fastforce
  note law = contract_open [OF C R o]
  show thesis
  proof (cases "tab w d")
    case None
    with law F o show ?thesis by (intro missing [of w1]) auto
  next
    case (Some m)
    with law have w1: "opn w1 = [d]" "tab w1 = tab w" "ok" by auto
    with Some have d: "d \<in> set (opn w1)" "tab w1 d = Some m" by simp_all
    show ?thesis
      using found [of w1 m] o w1 Some contract_fetch [OF C d] contract_close [OF C d(1)]
        contract_traverse [OF C d] by simp
  qed
qed

lemma open_write:
  assumes C: "ndbm_contract E tab opn" and R: "opn w = []" and F: "O_CREAT \<in> set fl"
  obtains w1 where "dbm_open E w d fl = (True, w1)" "opn w1 = [d]" "tab w1 d = Some (content (tab w) d)"
    "(tab w1)(d \<mapsto> m) = (tab w)(d \<mapsto> m)"
proof -
  obtain ok w1 where o: "dbm_open E w d fl = (ok, w1)" by fastforce
  from contract_open [OF C R o] F o show thesis
    by (intro that [of w1]) (auto simp: content_def split: option.splits)
qed

lemma db_insert_spec:
  assumes C: "ndbm_contract E tab opn" and R: "opn w = []" and L: "length k = n"
  shows "\<exists>w'. db_insert E w d k n v = Inr (0, w') \<and> opn w' = [] \<and> tab w' = tput (tab w) d k v"
proof -
  obtain w1 where w1: "dbm_open E w d WRITE_FLAGS = (True, w1)" "opn w1 = [d]"
    "tab w1 d = Some (content (tab w) d)"
    "(tab w1)(d \<mapsto> (content (tab w) d)(k \<mapsto> v)) = (tab w)(d \<mapsto> (content (tab w) d)(k \<mapsto> v))"
    by (rule open_write [OF C R]) auto
  then obtain w2 where w2: "dbm_store E w1 d k v = (0, w2)" "opn w2 = [d]"
    "tab w2 = (tab w1)(d \<mapsto> (content (tab w) d)(k \<mapsto> v))"
    using contract_store [OF C, of d w1 "content (tab w) d" k v] by auto
  then have "opn (dbm_close E w2 d) = []" "tab (dbm_close E w2 d) = tput (tab w) d k v"
    using contract_close [OF C, of d w2] w1 by (simp_all add: tput_def)
  with w1 w2 L show ?thesis by (simp add: db_insert_def open_db_or_null_def)
qed

lemma db_remove_spec:
  assumes C: "ndbm_contract E tab opn" and R: "opn w = []" and L: "length k = n"
  shows "\<exists>w'. db_remove E w d k n = Inr (if look (tab w) d k = None then -1 else 0, w') \<and>
    opn w' = [] \<and> tab w' = tdel (tab w) d k"
proof -
  obtain w1 where w1: "dbm_open E w d WRITE_FLAGS = (True, w1)" "opn w1 = [d]"
    "tab w1 d = Some (content (tab w) d)"
    "(tab w1)(d \<mapsto> (content (tab w) d)(k := None)) = (tab w)(d \<mapsto> (content (tab w) d)(k := None))"
    by (rule open_write [OF C R]) auto
  then obtain r w2 where w2: "dbm_delete E w1 d k = (r, w2)" "opn w2 = [d]"
    "r = 0 \<longleftrightarrow> look (tab w) d k \<noteq> None" "tab w2 = (tab w1)(d \<mapsto> (content (tab w) d)(k := None))"
    using contract_delete [OF C, of d w1 "content (tab w) d" k] by (auto simp: look_content)
  then have "opn (dbm_close E w2 d) = []" "tab (dbm_close E w2 d) = tdel (tab w) d k"
    using contract_close [OF C, of d w2] w1 by (simp_all add: tdel_def)
  with w1 w2 L show ?thesis by (auto simp: db_remove_def open_db_or_null_def)
qed

lemma get_login_info_spec:
  assumes C: "ndbm_contract E tab opn" and R: "opn w = []" and L: "length k = TOKEN_NAME_LENGTH"
  shows "\<exists>w'. opn w' = [] \<and> tab w' = tab w \<and>
    get_login_info_malloc_or_null E w k = (case look (tab w) DB_LOGIN_INFO k of
        None \<Rightarrow> Inr (None, w')
      | Some v \<Rightarrow> bindR (decode_user_login v) (\<lambda>u. Inr (Some u, w')))"
  by (rule open_read_cases [OF C R, of READ_FLAGS DB_LOGIN_INFO])
    (use L contract_heap(1) [OF C] in \<open>auto simp: get_login_info_malloc_or_null_def
        open_db_or_null_def look_def split: option.splits\<close>)

lemma get_user_account_spec:
  assumes C: "ndbm_contract E tab opn" and R: "opn w = []" and L: "length k = UUID_LEN"
  shows "\<exists>w'. opn w' = [] \<and> tab w' = tab w \<and>
    get_user_account_malloc_or_null E w k = (case look (tab w) DB_USER_ACCOUNT k of
        None \<Rightarrow> Inr (None, w')
      | Some v \<Rightarrow> bindR (memcpy_account E v) (\<lambda>u. Inr (Some u, w')))"
  by (rule open_read_cases [OF C R, of "[O_RDWR]" DB_USER_ACCOUNT])
    (use L contract_heap(1) [OF C] in \<open>auto simp: get_user_account_malloc_or_null_def
        open_db_or_null_def look_def split: option.splits\<close>)

lemma get_uuid_spec:
  assumes C: "ndbm_contract E tab opn" and R: "opn w = []" and L: "length k = TOKEN_NAME_LENGTH"
  shows "\<exists>w' junk. opn w' = [] \<and> tab w' = tab w \<and> length junk = UUID_LEN \<and>
    get_uuid_with_display_name_or_null E w k = (case look (tab w) DB_DISPLAY_NAMES k of
        None \<Rightarrow> Inr (None, w')
      | Some v \<Rightarrow> bindR (strncpy junk v UUID_LEN) (\<lambda>u. Inr (Some u, w')))"
proof (rule open_read_cases [OF C R, of "[O_RDWR]" DB_DISPLAY_NAMES])
  fix w1
  assume "dbm_open E w DB_DISPLAY_NAMES [O_RDWR] = (False, w1)" "tab w DB_DISPLAY_NAMES = None"
    "opn w1 = []" "tab w1 = tab w"
  with L show ?thesis
    by (intro exI [of _ w1] exI [of _ "zeros UUID_LEN"])
      (simp add: get_uuid_with_display_name_or_null_def open_db_or_null_def look_def)
next
  fix w1 m
  assume "dbm_open E w DB_DISPLAY_NAMES [O_RDWR] = (True, w1)" "tab w DB_DISPLAY_NAMES = Some m"
    "\<And>k. dbm_fetch E w1 DB_DISPLAY_NAMES k = m k" "opn (dbm_close E w1 DB_DISPLAY_NAMES) = []"
    "tab (dbm_close E w1 DB_DISPLAY_NAMES) = tab w"
  with L contract_heap [OF C] show ?thesis
    by (intro exI [of _ "dbm_close E w1 DB_DISPLAY_NAMES"] exI [of _ "heap_junk E w1 UUID_LEN"])
      (simp add: get_uuid_with_display_name_or_null_def open_db_or_null_def look_def split: option.splits)
qed simp

lemma check_duplicate_display_name_spec:
  assumes C: "ndbm_contract E tab opn" and R: "opn w = []" and L: "length k = TOKEN_NAME_LENGTH"
  shows "\<exists>w'. check_duplicate_display_name E w k = Inr (look (tab w) DB_DISPLAY_NAMES k \<noteq> None, w') \<and>
    opn w' = [] \<and> tab w' = tab w"
  by (rule open_read_cases [OF C R, of READ_FLAGS DB_DISPLAY_NAMES])
    (use L in \<open>auto simp: check_duplicate_display_name_def open_db_or_null_def look_def\<close>)

subsection \<open>The channel and message tables\<close>

text \<open>The records of a table in the order of a traversal.\<close>

definition chan_list :: "(bytes \<rightharpoonup> bytes) \<Rightarrow> bytes list \<Rightarrow> channel_info list" where
  "chan_list m keys = map (\<lambda>k. projr (decode_channel_info (the (m k)))) keys"

definition msg_list :: "(bytes \<rightharpoonup> bytes) \<Rightarrow> bytes list \<Rightarrow> message_info list" where
  "msg_list m keys = map (\<lambda>k. projr (decode_message_info (the (m k)))) keys"

definition chan_named :: "bytes \<Rightarrow> channel_info \<Rightarrow> bool" where
  "chan_named nm c \<longleftrightarrow> cstr (ch_channel_name c) = cstr nm"

definition find_channel :: "bytes \<Rightarrow> channel_info list \<Rightarrow> channel_info option" where
  "find_channel nm cs = find (chan_named nm) cs"

text \<open>A channel table holds well formed channels under their own ids, with terminated names.\<close>

definition chan_table :: "(bytes \<rightharpoonup> bytes) \<Rightarrow> bool" where
  "chan_table m \<longleftrightarrow> (\<forall>k v. m k = Some v \<longrightarrow>
     (\<exists>c. v = encode_channel_info c \<and> wf_channel_info c \<and> ch_channel_id c = k \<and> terminated (ch_channel_name c)))"

definition msg_table :: "(bytes \<rightharpoonup> bytes) \<Rightarrow> bool" where
  "msg_table m \<longleftrightarrow> (\<forall>k v. m k = Some v \<longrightarrow>
     (\<exists>x. v = encode_message_info x \<and> wf_message_info x \<and> mi_message_id x = k))"

lemma chan_tableD:
  assumes "chan_table m" "m k = Some v"
  obtains c where "v = encode_channel_info c" "wf_channel_info c" "ch_channel_id c = k"
    "terminated (ch_channel_name c)" "projr (decode_channel_info (the (m k))) = c"
  using assms unfolding chan_table_def by force

lemma msg_tableD:
  assumes "msg_table m" "m k = Some v"
  obtains x where "v = encode_message_info x" "wf_message_info x" "mi_message_id x = k"
    "projr (decode_message_info (the (m k))) = x"
  using assms unfolding msg_table_def by force

lemma chan_list_simps [simp]:
  "chan_list m [] = []"
  "chan_list m (k # ks) = projr (decode_channel_info (the (m k))) # chan_list m ks"
  by (simp_all add: chan_list_def)

lemma msg_list_simps [simp]:
  "msg_list m [] = []"
  "msg_list m (k # ks) = projr (decode_message_info (the (m k))) # msg_list m ks"
  by (simp_all add: msg_list_def)

lemma find_channel_loop_spec:
  assumes "chan_table m" "\<And>k. dbm_fetch E w DB_CHANNEL_INFO k = m k" "\<And>n. malloc_ok E w n"
    "terminated nm" "set keys \<subseteq> dom m"
  shows "find_channel_loop E w nm keys = Inr (find_channel nm (chan_list m keys))"
  using assms(5)
proof (induction keys)
  case (Cons k keys)
  then obtain v where v: "m k = Some v" by auto
  from chan_tableD [OF assms(1) v] obtain c where c: "v = encode_channel_info c" "wf_channel_info c"
    "terminated (ch_channel_name c)" "projr (decode_channel_info (the (m k))) = c" by blast
  with Cons v assms show ?case
    by (simp add: clib chan_named_def find_channel_def)
qed (simp add: find_channel_def)

lemma dup_channel_loop_spec:
  assumes "chan_table m" "\<And>k. dbm_fetch E w DB_CHANNEL_INFO k = m k"
    "terminated nm" "set keys \<subseteq> dom m"
  shows "dup_channel_loop E w nm keys = Inr (find_channel nm (chan_list m keys) \<noteq> None)"
  using assms(4)
proof (induction keys)
  case (Cons k keys)
  then obtain v where v: "m k = Some v" by auto
  from chan_tableD [OF assms(1) v] obtain c where c: "v = encode_channel_info c" "wf_channel_info c"
    "terminated (ch_channel_name c)" "projr (decode_channel_info (the (m k))) = c" by blast
  with Cons v assms show ?case
    by (simp add: clib chan_named_def find_channel_def)
qed (simp add: find_channel_def)

lemma all_channels_loop_spec:
  assumes "chan_table m" "\<And>k. dbm_fetch E w DB_CHANNEL_INFO k = m k" "\<And>n. malloc_ok E w n"
    "set keys \<subseteq> dom m"
  shows "all_channels_loop E w keys acc = Inr (Some (acc @ chan_list m keys))"
  using assms(4)
proof (induction keys arbitrary: acc)
  case (Cons k keys)
  then obtain v where v: "m k = Some v" by auto
  from chan_tableD [OF assms(1) v] obtain c where c: "v = encode_channel_info c" "wf_channel_info c"
    "projr (decode_channel_info (the (m k))) = c" by blast
  with Cons v assms show ?case by simp
qed simp

lemma all_messages_loop_spec:
  assumes "msg_table m" "\<And>k. dbm_fetch E w DB_MESSAGE_INFO k = m k" "\<And>n. malloc_ok E w n"
    "set keys \<subseteq> dom m"
  shows "all_messages_loop E w keys acc = Inr (Some (acc @ msg_list m keys))"
  using assms(4)
proof (induction keys arbitrary: acc)
  case (Cons k keys)
  then obtain v where v: "m k = Some v" by auto
  from msg_tableD [OF assms(1) v] obtain x where x: "v = encode_message_info x" "wf_message_info x"
    "projr (decode_message_info (the (m k))) = x" by blast
  with Cons v assms show ?case by simp
qed simp

lemma open_traverse:
  assumes C: "ndbm_contract E tab opn" and R: "opn w = []" and F: "O_CREAT \<notin> set fl"
  obtains ok w1 keys where "dbm_open E w d fl = (ok, w1)" "ok \<longleftrightarrow> tab w d \<noteq> None"
    "distinct keys" "set keys = dom (content (tab w) d)" "\<not> ok \<Longrightarrow> keys = []" "ok \<Longrightarrow> dbm_traverse E w1 d = keys"
    "\<And>k. ok \<Longrightarrow> dbm_fetch E w1 d k = content (tab w) d k"
    "opn (if ok then dbm_close E w1 d else w1) = []" "tab (if ok then dbm_close E w1 d else w1) = tab w"
proof (rule open_read_cases [OF C R F, of d])
  fix w1
  assume "dbm_open E w d fl = (False, w1)" "tab w d = None" "opn w1 = []" "tab w1 = tab w"
  then show thesis by (intro that [of False w1 "[]"]) (simp_all add: content_def)
next
  fix w1 m
  assume o: "dbm_open E w d fl = (True, w1)" "tab w d = Some m" "\<And>k. dbm_fetch E w1 d k = m k"
    "opn (dbm_close E w1 d) = []" "tab (dbm_close E w1 d) = tab w" "distinct (dbm_traverse E w1 d)"
    "set (dbm_traverse E w1 d) = dom m"
  then show thesis by (intro that [of True w1 "dbm_traverse E w1 d"]) (simp_all add: content_def)
qed

lemma get_channel_info_spec:
  assumes C: "ndbm_contract E tab opn" and R: "opn w = []"
    and T: "chan_table (content (tab w) DB_CHANNEL_INFO)" and N: "terminated nm"
  shows "\<exists>w' keys. opn w' = [] \<and> tab w' = tab w \<and> distinct keys \<and>
    set keys = dom (content (tab w) DB_CHANNEL_INFO) \<and>
    get_channel_info_malloc_or_null E w nm =
      Inr (find_channel nm (chan_list (content (tab w) DB_CHANNEL_INFO) keys), w')"
proof (rule open_traverse [OF C R, of READ_FLAGS DB_CHANNEL_INFO])
  fix ok w1 keys
  assume o: "dbm_open E w DB_CHANNEL_INFO READ_FLAGS = (ok, w1)" "distinct keys"
    "set keys = dom (content (tab w) DB_CHANNEL_INFO)" "\<not> ok \<Longrightarrow> keys = []"
    "ok \<Longrightarrow> dbm_traverse E w1 DB_CHANNEL_INFO = keys"
    "\<And>k. ok \<Longrightarrow> dbm_fetch E w1 DB_CHANNEL_INFO k = content (tab w) DB_CHANNEL_INFO k"
    "opn (if ok then dbm_close E w1 DB_CHANNEL_INFO else w1) = []"
    "tab (if ok then dbm_close E w1 DB_CHANNEL_INFO else w1) = tab w"
  then show ?thesis
    using find_channel_loop_spec [OF T, of E w1 nm keys] contract_heap(1) [OF C] N
    by (intro exI [of _ "if ok then dbm_close E w1 DB_CHANNEL_INFO else w1"] exI [of _ keys])
      (auto simp: get_channel_info_malloc_or_null_def open_db_or_null_def find_channel_def)
qed simp

lemma check_duplicate_channel_name_spec:
  assumes C: "ndbm_contract E tab opn" and R: "opn w = []"
    and T: "chan_table (content (tab w) DB_CHANNEL_INFO)" and N: "terminated nm"
  shows "\<exists>w' keys. opn w' = [] \<and> tab w' = tab w \<and> distinct keys \<and>
    set keys = dom (content (tab w) DB_CHANNEL_INFO) \<and>
    check_duplicate_channel_name E w nm =
      Inr (find_channel nm (chan_list (content (tab w) DB_CHANNEL_INFO) keys) \<noteq> None, w')"
proof (rule open_traverse [OF C R, of READ_FLAGS DB_CHANNEL_INFO])
  fix ok w1 keys
  assume o: "dbm_open E w DB_CHANNEL_INFO READ_FLAGS = (ok, w1)" "distinct keys"
    "set keys = dom (content (tab w) DB_CHANNEL_INFO)" "\<not> ok \<Longrightarrow> keys = []"
    "ok \<Longrightarrow> dbm_traverse E w1 DB_CHANNEL_INFO = keys"
    "\<And>k. ok \<Longrightarrow> dbm_fetch E w1 DB_CHANNEL_INFO k = content (tab w) DB_CHANNEL_INFO k"
    "opn (if ok then dbm_close E w1 DB_CHANNEL_INFO else w1) = []"
    "tab (if ok then dbm_close E w1 DB_CHANNEL_INFO else w1) = tab w"
  then show ?thesis
    using dup_channel_loop_spec [OF T, of E w1 nm keys] N
    by (intro exI [of _ "if ok then dbm_close E w1 DB_CHANNEL_INFO else w1"] exI [of _ keys])
      (auto simp: check_duplicate_channel_name_def open_db_or_null_def find_channel_def)
qed simp

lemma get_all_channels_spec:
  assumes C: "ndbm_contract E tab opn" and R: "opn w = []"
    and T: "chan_table (content (tab w) DB_CHANNEL_INFO)"
  shows "\<exists>w' keys. opn w' = [] \<and> tab w' = tab w \<and> distinct keys \<and>
    set keys = dom (content (tab w) DB_CHANNEL_INFO) \<and>
    get_all_channels E w = Inr (if tab w DB_CHANNEL_INFO = None then None
      else Some (chan_list (content (tab w) DB_CHANNEL_INFO) keys), w')"
proof (rule open_traverse [OF C R, of READ_FLAGS DB_CHANNEL_INFO])
  fix ok w1 keys
  assume o: "dbm_open E w DB_CHANNEL_INFO READ_FLAGS = (ok, w1)" "ok \<longleftrightarrow> tab w DB_CHANNEL_INFO \<noteq> None"
    "distinct keys" "set keys = dom (content (tab w) DB_CHANNEL_INFO)"
    "ok \<Longrightarrow> dbm_traverse E w1 DB_CHANNEL_INFO = keys"
    "\<And>k. ok \<Longrightarrow> dbm_fetch E w1 DB_CHANNEL_INFO k = content (tab w) DB_CHANNEL_INFO k"
    "opn (if ok then dbm_close E w1 DB_CHANNEL_INFO else w1) = []"
    "tab (if ok then dbm_close E w1 DB_CHANNEL_INFO else w1) = tab w"
  then show ?thesis
    using all_channels_loop_spec [OF T, of E w1 keys "[]"] contract_heap(1) [OF C]
    by (intro exI [of _ "if ok then dbm_close E w1 DB_CHANNEL_INFO else w1"] exI [of _ keys])
      (auto simp: get_all_channels_def open_db_or_null_def)
qed simp

lemma get_all_messages_spec:
  assumes C: "ndbm_contract E tab opn" and R: "opn w = []"
    and T: "msg_table (content (tab w) DB_MESSAGE_INFO)"
  shows "\<exists>w' keys. opn w' = [] \<and> tab w' = tab w \<and> distinct keys \<and>
    set keys = dom (content (tab w) DB_MESSAGE_INFO) \<and>
    get_all_messages E w = Inr (if tab w DB_MESSAGE_INFO = None then None
      else Some (msg_list (content (tab w) DB_MESSAGE_INFO) keys), w')"
proof (rule open_traverse [OF C R, of READ_FLAGS DB_MESSAGE_INFO])
  fix ok w1 keys
  assume o: "dbm_open E w DB_MESSAGE_INFO READ_FLAGS = (ok, w1)" "ok \<longleftrightarrow> tab w DB_MESSAGE_INFO \<noteq> None"
    "distinct keys" "set keys = dom (content (tab w) DB_MESSAGE_INFO)"
    "ok \<Longrightarrow> dbm_traverse E w1 DB_MESSAGE_INFO = keys"
    "\<And>k. ok \<Longrightarrow> dbm_fetch E w1 DB_MESSAGE_INFO k = content (tab w) DB_MESSAGE_INFO k"
    "opn (if ok then dbm_close E w1 DB_MESSAGE_INFO else w1) = []"
    "tab (if ok then dbm_close E w1 DB_MESSAGE_INFO else w1) = tab w"
  then show ?thesis
    using all_messages_loop_spec [OF T, of E w1 keys "[]"] contract_heap(1) [OF C]
    by (intro exI [of _ "if ok then dbm_close E w1 DB_MESSAGE_INFO else w1"] exI [of _ keys])
      (auto simp: get_all_messages_def open_db_or_null_def)
qed simp

end
