(* ===== verification/Tables.thy ===== *)
theory Tables
  imports Ndbm
begin

text \<open>
  The interface between the handlers and the database layer for the tables that are accessed by key.
  The locale \<open>keyed_table\<close> states what a table with operations \<open>get\<close>, \<open>put\<close> and \<open>del\<close> promises about an
  abstract map \<open>view\<close>; its lemmas follow from the promises alone. It is interpreted on the functions of
  \<^verbatim>\<open>my_ndbm.c\<close> for logins, accounts and display names, for every environment that meets the contract of
  ndbm. The refinement theorems say that any sequence of inserts and removals acts on each table as it
  acts on a map.
\<close>

section \<open>The interface\<close>

text \<open>A sequence of operations on a table: \<open>Some v\<close> stores under the key, \<open>None\<close> deletes.\<close>

type_synonym 'v table_ops = "(bytes \<times> 'v option) list"

fun run_table ::
  "('w \<Rightarrow> bytes \<Rightarrow> 'v \<Rightarrow> (int \<times> 'w) result) \<Rightarrow> ('w \<Rightarrow> bytes \<Rightarrow> (int \<times> 'w) result) \<Rightarrow> 'w \<Rightarrow> 'v table_ops \<Rightarrow> 'w result"
where
  "run_table put del w [] = Inr w"
| "run_table put del w ((k, Some v) # ops) = bindR (put w k v) (\<lambda>(r, w). run_table put del w ops)"
| "run_table put del w ((k, None) # ops) = bindR (del w k) (\<lambda>(r, w). run_table put del w ops)"

definition run_map :: "'v table_ops \<Rightarrow> (bytes \<rightharpoonup> 'v) \<Rightarrow> (bytes \<rightharpoonup> 'v)" where
  "run_map ops m = fold (\<lambda>(k, o') m. m(k := o')) ops m"

lemma run_map_simps [simp]:
  "run_map [] m = m" "run_map ((k, x) # ops) m = run_map ops (m(k := x))"
  by (simp_all add: run_map_def)

locale keyed_table =
  fixes ready :: "'w \<Rightarrow> bool"
    and view :: "'w \<Rightarrow> bytes \<Rightarrow> 'v option"
    and klen :: nat
    and rec_ok :: "bytes \<Rightarrow> 'v \<Rightarrow> bool"
    and get :: "'w \<Rightarrow> bytes \<Rightarrow> ('v option \<times> 'w) result"
    and put :: "'w \<Rightarrow> bytes \<Rightarrow> 'v \<Rightarrow> (int \<times> 'w) result"
    and del :: "'w \<Rightarrow> bytes \<Rightarrow> (int \<times> 'w) result"
  assumes get_law: "ready w \<Longrightarrow> length k = klen \<Longrightarrow>
      \<exists>w'. get w k = Inr (view w k, w') \<and> ready w' \<and> view w' = view w"
    and put_law: "ready w \<Longrightarrow> rec_ok k v \<Longrightarrow>
      \<exists>w'. put w k v = Inr (0, w') \<and> ready w' \<and> view w' = (view w)(k \<mapsto> v)"
    and del_law: "ready w \<Longrightarrow> length k = klen \<Longrightarrow>
      \<exists>w'. del w k = Inr (if view w k = None then -1 else 0, w') \<and> ready w' \<and> view w' = (view w)(k := None)"
    and rec_klen: "rec_ok k v \<Longrightarrow> length k = klen"
begin

lemma get_after_put:
  assumes "ready w" "rec_ok k v" "length k' = klen"
  shows "\<exists>w1 w2. put w k v = Inr (0, w1) \<and> get w1 k' = Inr (if k' = k then Some v else view w k', w2)"
proof -
  obtain w1 where w1: "put w k v = Inr (0, w1)" "ready w1" "view w1 = (view w)(k \<mapsto> v)"
    using put_law [OF assms(1,2)] by blast
  obtain w2 where "get w1 k' = Inr (view w1 k', w2)"
    using get_law [OF w1(2) assms(3)] by blast
  with w1 show ?thesis by auto
qed

lemma run_refines:
  assumes "ready w" "list_all (\<lambda>(k, x). length k = klen \<and> (case x of None \<Rightarrow> True | Some v \<Rightarrow> rec_ok k v)) ops"
  shows "\<exists>w'. run_table put del w ops = Inr w' \<and> ready w' \<and> view w' = run_map ops (view w)"
  using assms
proof (induction ops arbitrary: w)
  case Nil
  then show ?case by simp
next
  case (Cons a ops)
  obtain k x where a: "a = (k, x)" by fastforce
  show ?case
  proof (cases x)
    case None
    with Cons.prems a obtain w1 where w1: "del w k = Inr (if view w k = None then -1 else 0, w1)"
      "ready w1" "view w1 = (view w)(k := None)"
      using del_law [of w k] by auto
    from Cons.IH [OF w1(2)] Cons.prems(2) a obtain w' where
      "run_table put del w1 ops = Inr w'" "ready w'" "view w' = run_map ops (view w1)" by auto
    with w1(1,3) a None show ?thesis by (intro exI [of _ w']) simp
  next
    case (Some v)
    with Cons.prems a obtain w1 where w1: "put w k v = Inr (0, w1)" "ready w1" "view w1 = (view w)(k \<mapsto> v)"
      using put_law [of w k v] by auto
    from Cons.IH [OF w1(2)] Cons.prems(2) a obtain w' where
      "run_table put del w1 ops = Inr w'" "ready w'" "view w' = run_map ops (view w1)" by auto
    with w1(1,3) a Some show ?thesis by (intro exI [of _ w']) simp
  qed
qed

lemma run_then_get:
  assumes "ready w" "list_all (\<lambda>(k, x). length k = klen \<and> (case x of None \<Rightarrow> True | Some v \<Rightarrow> rec_ok k v)) ops"
    "length k = klen"
  shows "\<exists>w1 w2. run_table put del w ops = Inr w1 \<and> get w1 k = Inr (run_map ops (view w) k, w2)"
proof -
  obtain w1 where w1: "run_table put del w ops = Inr w1" "ready w1" "view w1 = run_map ops (view w)"
    using run_refines [OF assms(1,2)] by blast
  then show ?thesis using get_law [OF w1(2) assms(3)] by auto
qed

end

section \<open>The three tables\<close>

definition login_table :: "(bytes \<rightharpoonup> bytes) \<Rightarrow> bool" where
  "login_table m \<longleftrightarrow> (\<forall>k v. m k = Some v \<longrightarrow>
     (\<exists>u. v = encode_user_login u \<and> wf_user_login u \<and> ul_login_token u = k))"

definition account_table :: "bool \<Rightarrow> (bytes \<rightharpoonup> bytes) \<Rightarrow> bool" where
  "account_table le m \<longleftrightarrow> (\<forall>k v. m k = Some v \<longrightarrow>
     (\<exists>u. v = encode_user_account le u \<and> wf_user_account u \<and> ua_user_id u = k))"

text \<open>An id in the table of display names is a text of at most 36 characters, padded with NUL.\<close>

definition uuid_text :: "bytes \<Rightarrow> bool" where
  "uuid_text v \<longleftrightarrow> length v = UUID_LEN \<and> terminated v \<and> v = nul_pad UUID_LEN (cstr v)"

definition name_table :: "(bytes \<rightharpoonup> bytes) \<Rightarrow> bool" where
  "name_table m \<longleftrightarrow> (\<forall>k v. m k = Some v \<longrightarrow> length k = TOKEN_NAME_LENGTH \<and> uuid_text v)"

definition login_view :: "table_state \<Rightarrow> bytes \<Rightarrow> user_login option" where
  "login_view t k = map_option (\<lambda>v. projr (decode_user_login v)) (content t DB_LOGIN_INFO k)"

definition account_view :: "bool \<Rightarrow> table_state \<Rightarrow> bytes \<Rightarrow> user_account option" where
  "account_view le t k = map_option (\<lambda>v. projr (decode_user_account le v)) (content t DB_USER_ACCOUNT k)"

definition name_view :: "table_state \<Rightarrow> bytes \<Rightarrow> bytes option" where
  "name_view t k = content t DB_DISPLAY_NAMES k"

definition login_ready :: "'w env \<Rightarrow> 'w tables \<Rightarrow> 'w handles \<Rightarrow> 'w \<Rightarrow> bool" where
  "login_ready E tab opn w \<longleftrightarrow>
     ndbm_contract E tab opn \<and> opn w = [] \<and> login_table (content (tab w) DB_LOGIN_INFO)"

definition account_ready :: "'w env \<Rightarrow> 'w tables \<Rightarrow> 'w handles \<Rightarrow> 'w \<Rightarrow> bool" where
  "account_ready E tab opn w \<longleftrightarrow>
     ndbm_contract E tab opn \<and> 9 \<le> heap_slack E \<and> opn w = [] \<and>
     account_table (host_le E) (content (tab w) DB_USER_ACCOUNT)"

definition name_ready :: "'w env \<Rightarrow> 'w tables \<Rightarrow> 'w handles \<Rightarrow> 'w \<Rightarrow> bool" where
  "name_ready E tab opn w \<longleftrightarrow>
     ndbm_contract E tab opn \<and> opn w = [] \<and> name_table (content (tab w) DB_DISPLAY_NAMES)"

lemma memcpy_account_ok:
  "9 \<le> heap_slack E \<Longrightarrow> wf_user_account u \<Longrightarrow> memcpy_account E (encode_user_account (host_le E) u) = Inr u"
  by (simp add: memcpy_account_def sizeof_user_account_def sizeof_user_login_def)

lemma login_tableD:
  assumes "login_table m" "m k = Some v"
  shows "\<exists>u. v = encode_user_login u \<and> wf_user_login u \<and> ul_login_token u = k"
  using assms by (simp add: login_table_def)

lemma account_tableD:
  assumes "account_table le m" "m k = Some v"
  shows "\<exists>u. v = encode_user_account le u \<and> wf_user_account u \<and> ua_user_id u = k"
  using assms by (simp add: account_table_def)

lemma name_tableD:
  assumes "name_table m" "m k = Some v"
  shows "length k = TOKEN_NAME_LENGTH" "uuid_text v"
  using assms by (auto simp: name_table_def)

lemma login_table_tput:
  "login_table m \<Longrightarrow> wf_user_login u \<Longrightarrow> login_table (m(ul_login_token u \<mapsto> encode_user_login u))"
  by (auto simp: login_table_def)

lemma account_table_tput:
  "account_table le m \<Longrightarrow> wf_user_account u \<Longrightarrow> account_table le (m(ua_user_id u \<mapsto> encode_user_account le u))"
  by (auto simp: account_table_def)

lemma name_table_tput:
  "name_table m \<Longrightarrow> length k = TOKEN_NAME_LENGTH \<Longrightarrow> uuid_text v \<Longrightarrow> name_table (m(k \<mapsto> v))"
  by (auto simp: name_table_def)

lemma tables_tdel:
  "login_table m \<Longrightarrow> login_table (m(k := None))"
  "account_table le m \<Longrightarrow> account_table le (m(k := None))"
  "name_table m \<Longrightarrow> name_table (m(k := None))"
  by (auto simp: login_table_def account_table_def name_table_def)

lemma login_view_tput [simp]:
  "wf_user_login u \<Longrightarrow> login_view (tput t DB_LOGIN_INFO k (encode_user_login u)) = (login_view t)(k \<mapsto> u)"
  by (simp add: login_view_def fun_eq_iff)

lemma account_view_tput [simp]:
  "wf_user_account u \<Longrightarrow>
     account_view le (tput t DB_USER_ACCOUNT k (encode_user_account le u)) = (account_view le t)(k \<mapsto> u)"
  by (simp add: account_view_def fun_eq_iff)

lemma name_view_tput [simp]: "name_view (tput t DB_DISPLAY_NAMES k v) = (name_view t)(k \<mapsto> v)"
  by (simp add: name_view_def fun_eq_iff)

lemma views_tdel [simp]:
  "login_view (tdel t DB_LOGIN_INFO k) = (login_view t)(k := None)"
  "account_view le (tdel t DB_USER_ACCOUNT k) = (account_view le t)(k := None)"
  "name_view (tdel t DB_DISPLAY_NAMES k) = (name_view t)(k := None)"
  by (simp_all add: login_view_def account_view_def name_view_def fun_eq_iff)

lemma views_frame [simp]:
  "d \<noteq> DB_LOGIN_INFO \<Longrightarrow> login_view (tput t d k v) = login_view t"
  "d \<noteq> DB_LOGIN_INFO \<Longrightarrow> login_view (tdel t d k) = login_view t"
  "d \<noteq> DB_USER_ACCOUNT \<Longrightarrow> account_view le (tput t d k v) = account_view le t"
  "d \<noteq> DB_USER_ACCOUNT \<Longrightarrow> account_view le (tdel t d k) = account_view le t"
  "d \<noteq> DB_DISPLAY_NAMES \<Longrightarrow> name_view (tput t d k v) = name_view t"
  "d \<noteq> DB_DISPLAY_NAMES \<Longrightarrow> name_view (tdel t d k) = name_view t"
  by (simp_all add: login_view_def account_view_def name_view_def fun_eq_iff)

lemma strncpy_uuid_text: "uuid_text v \<Longrightarrow> length junk = UUID_LEN \<Longrightarrow> strncpy junk v UUID_LEN = Inr v"
  by (auto simp: uuid_text_def clib)

interpretation logins: keyed_table "login_ready E tab opn" "\<lambda>w. login_view (tab w)" TOKEN_NAME_LENGTH
  "\<lambda>k u. wf_user_login u \<and> ul_login_token u = k" "get_login_info_malloc_or_null E"
  "\<lambda>w k u. insert_user_login E w u" "remove_user_login E"
  for E :: "'w env" and tab :: "'w tables" and opn :: "'w handles"
proof
  fix w :: 'w and k :: bytes
  assume r: "login_ready E tab opn w" and k: "length k = TOKEN_NAME_LENGTH"
  then obtain w' where w': "opn w' = []" "tab w' = tab w"
    "get_login_info_malloc_or_null E w k = (case look (tab w) DB_LOGIN_INFO k of
        None \<Rightarrow> Inr (None, w') | Some v \<Rightarrow> bindR (decode_user_login v) (\<lambda>u. Inr (Some u, w')))"
    using get_login_info_spec [of E tab opn w k] by (auto simp: login_ready_def)
  then have "get_login_info_malloc_or_null E w k = Inr (login_view (tab w) k, w')"
    using r login_tableD [of "content (tab w) DB_LOGIN_INFO" k]
    by (auto simp: login_ready_def look_content login_view_def split: option.splits)
  with w'(1,2) r show "\<exists>w'. get_login_info_malloc_or_null E w k = Inr (login_view (tab w) k, w') \<and>
      login_ready E tab opn w' \<and> login_view (tab w') = login_view (tab w)"
    by (auto simp: login_ready_def)
next
  fix w :: 'w and k v
  assume r: "login_ready E tab opn w" and v: "wf_user_login v \<and> ul_login_token v = k"
  then obtain w' where w': "insert_user_login E w v = Inr (0, w')" "opn w' = []"
    "tab w' = tput (tab w) DB_LOGIN_INFO k (encode_user_login v)"
    using db_insert_spec [of E tab opn w k TOKEN_NAME_LENGTH DB_LOGIN_INFO "encode_user_login v"]
    by (auto simp: login_ready_def insert_user_login_def wf_user_login_def)
  with r v show "\<exists>w'. insert_user_login E w v = Inr (0, w') \<and> login_ready E tab opn w' \<and>
      login_view (tab w') = (login_view (tab w))(k \<mapsto> v)"
    by (auto simp: login_ready_def login_table_tput)
next
  fix w :: 'w and k :: bytes
  assume r: "login_ready E tab opn w" and k: "length k = TOKEN_NAME_LENGTH"
  then obtain w' where w': "remove_user_login E w k = Inr (if look (tab w) DB_LOGIN_INFO k = None then -1 else 0, w')"
    "opn w' = []" "tab w' = tdel (tab w) DB_LOGIN_INFO k"
    using db_remove_spec [of E tab opn w k TOKEN_NAME_LENGTH DB_LOGIN_INFO]
    by (auto simp: login_ready_def remove_user_login_def)
  moreover have "look (tab w) DB_LOGIN_INFO k = None \<longleftrightarrow> login_view (tab w) k = None"
    by (simp add: look_content login_view_def account_view_def name_view_def)
  ultimately show "\<exists>w'. remove_user_login E w k = Inr (if login_view (tab w) k = None then -1 else 0, w') \<and>
      login_ready E tab opn w' \<and> login_view (tab w') = (login_view (tab w))(k := None)"
    using r by (auto simp: login_ready_def tables_tdel)
next
  fix k :: bytes and v :: user_login
  assume "wf_user_login v \<and> ul_login_token v = k"
  then show "length k = TOKEN_NAME_LENGTH" by (auto simp: wf_user_login_def)
qed

interpretation accounts: keyed_table "account_ready E tab opn" "\<lambda>w. account_view (host_le E) (tab w)" UUID_LEN
  "\<lambda>k u. wf_user_account u \<and> ua_user_id u = k" "get_user_account_malloc_or_null E"
  "\<lambda>w k u. insert_user_account E w u" "remove_user_account E"
  for E :: "'w env" and tab :: "'w tables" and opn :: "'w handles"
proof
  fix w :: 'w and k :: bytes
  assume r: "account_ready E tab opn w" and k: "length k = UUID_LEN"
  then obtain w' where w': "opn w' = []" "tab w' = tab w"
    "get_user_account_malloc_or_null E w k = (case look (tab w) DB_USER_ACCOUNT k of
        None \<Rightarrow> Inr (None, w') | Some v \<Rightarrow> bindR (memcpy_account E v) (\<lambda>u. Inr (Some u, w')))"
    using get_user_account_spec [of E tab opn w k] by (auto simp: account_ready_def)
  then have "get_user_account_malloc_or_null E w k = Inr (account_view (host_le E) (tab w) k, w')"
    using r account_tableD [of "host_le E" "content (tab w) DB_USER_ACCOUNT" k]
    by (auto simp: account_ready_def look_content account_view_def memcpy_account_ok split: option.splits)
  with w'(1,2) r show "\<exists>w'. get_user_account_malloc_or_null E w k = Inr (account_view (host_le E) (tab w) k, w') \<and>
      account_ready E tab opn w' \<and> account_view (host_le E) (tab w') = account_view (host_le E) (tab w)"
    by (auto simp: account_ready_def)
next
  fix w :: 'w and k v
  assume r: "account_ready E tab opn w" and v: "wf_user_account v \<and> ua_user_id v = k"
  then obtain w' where w': "insert_user_account E w v = Inr (0, w')" "opn w' = []"
    "tab w' = tput (tab w) DB_USER_ACCOUNT k (encode_user_account (host_le E) v)"
    using db_insert_spec [of E tab opn w k UUID_LEN DB_USER_ACCOUNT "encode_user_account (host_le E) v"]
    by (auto simp: account_ready_def insert_user_account_def wf_user_account_def)
  with r v show "\<exists>w'. insert_user_account E w v = Inr (0, w') \<and> account_ready E tab opn w' \<and>
      account_view (host_le E) (tab w') = (account_view (host_le E) (tab w))(k \<mapsto> v)"
    by (auto simp: account_ready_def account_table_tput)
next
  fix w :: 'w and k :: bytes
  assume r: "account_ready E tab opn w" and k: "length k = UUID_LEN"
  then obtain w' where w': "remove_user_account E w k = Inr (if look (tab w) DB_USER_ACCOUNT k = None then -1 else 0, w')"
    "opn w' = []" "tab w' = tdel (tab w) DB_USER_ACCOUNT k"
    using db_remove_spec [of E tab opn w k UUID_LEN DB_USER_ACCOUNT]
    by (auto simp: account_ready_def remove_user_account_def)
  moreover have "look (tab w) DB_USER_ACCOUNT k = None \<longleftrightarrow> account_view (host_le E) (tab w) k = None"
    by (simp add: look_content login_view_def account_view_def name_view_def)
  ultimately show "\<exists>w'. remove_user_account E w k =
        Inr (if account_view (host_le E) (tab w) k = None then -1 else 0, w') \<and>
      account_ready E tab opn w' \<and> account_view (host_le E) (tab w') = (account_view (host_le E) (tab w))(k := None)"
    using r by (auto simp: account_ready_def tables_tdel)
next
  fix k :: bytes and v :: user_account
  assume "wf_user_account v \<and> ua_user_id v = k"
  then show "length k = UUID_LEN" by (auto simp: wf_user_account_def)
qed

interpretation names: keyed_table "name_ready E tab opn" "\<lambda>w. name_view (tab w)" TOKEN_NAME_LENGTH
  "\<lambda>k v. length k = TOKEN_NAME_LENGTH \<and> uuid_text v" "get_uuid_with_display_name_or_null E"
  "insert_display_name E" "remove_display_name E"
  for E :: "'w env" and tab :: "'w tables" and opn :: "'w handles"
proof
  fix w :: 'w and k :: bytes
  assume r: "name_ready E tab opn w" and k: "length k = TOKEN_NAME_LENGTH"
  then obtain w' junk where w': "opn w' = []" "tab w' = tab w" "length junk = UUID_LEN"
    "get_uuid_with_display_name_or_null E w k = (case look (tab w) DB_DISPLAY_NAMES k of
        None \<Rightarrow> Inr (None, w') | Some v \<Rightarrow> bindR (strncpy junk v UUID_LEN) (\<lambda>u. Inr (Some u, w')))"
    using get_uuid_spec [of E tab opn w k] by (auto simp: name_ready_def)
  then have "get_uuid_with_display_name_or_null E w k = Inr (name_view (tab w) k, w')"
    using r name_tableD [of "content (tab w) DB_DISPLAY_NAMES" k]
    by (auto simp: name_ready_def look_content name_view_def strncpy_uuid_text split: option.splits)
  with w'(1,2) r show "\<exists>w'. get_uuid_with_display_name_or_null E w k = Inr (name_view (tab w) k, w') \<and>
      name_ready E tab opn w' \<and> name_view (tab w') = name_view (tab w)"
    by (auto simp: name_ready_def)
next
  fix w :: 'w and k v :: bytes
  assume r: "name_ready E tab opn w" and v: "length k = TOKEN_NAME_LENGTH \<and> uuid_text v"
  then obtain w' where w': "insert_display_name E w k v = Inr (0, w')" "opn w' = []"
    "tab w' = tput (tab w) DB_DISPLAY_NAMES k v"
    using db_insert_spec [of E tab opn w k TOKEN_NAME_LENGTH DB_DISPLAY_NAMES v]
    by (auto simp: name_ready_def insert_display_name_def uuid_text_def)
  with r v show "\<exists>w'. insert_display_name E w k v = Inr (0, w') \<and> name_ready E tab opn w' \<and>
      name_view (tab w') = (name_view (tab w))(k \<mapsto> v)"
    by (auto simp: name_ready_def name_table_tput)
next
  fix w :: 'w and k :: bytes
  assume r: "name_ready E tab opn w" and k: "length k = TOKEN_NAME_LENGTH"
  then obtain w' where w': "remove_display_name E w k = Inr (if look (tab w) DB_DISPLAY_NAMES k = None then -1 else 0, w')"
    "opn w' = []" "tab w' = tdel (tab w) DB_DISPLAY_NAMES k"
    using db_remove_spec [of E tab opn w k TOKEN_NAME_LENGTH DB_DISPLAY_NAMES]
    by (auto simp: name_ready_def remove_display_name_def)
  moreover have "look (tab w) DB_DISPLAY_NAMES k = None \<longleftrightarrow> name_view (tab w) k = None"
    by (simp add: look_content login_view_def account_view_def name_view_def)
  ultimately show "\<exists>w'. remove_display_name E w k = Inr (if name_view (tab w) k = None then -1 else 0, w') \<and>
      name_ready E tab opn w' \<and> name_view (tab w') = (name_view (tab w))(k := None)"
    using r by (auto simp: name_ready_def tables_tdel)
qed simp

section \<open>Properties\<close>

lemma mem_empty_ready:
  "login_ready mem_env mem_tab mw_open mem_empty" "account_ready mem_env mem_tab mw_open mem_empty"
  "name_ready mem_env mem_tab mw_open mem_empty"
  by (simp_all add: login_ready_def account_ready_def name_ready_def mem_env_contract mem_empty_def
      mem_tab_def content_def login_table_def account_table_def name_table_def)
    (simp add: mem_env_def)

text \<open>The login table refines a map. After any sequence of \<^verbatim>\<open>insert_user_login\<close> and
  \<^verbatim>\<open>remove_user_login\<close> calls, \<^verbatim>\<open>get_login_info_malloc_or_null\<close> returns, for every token, exactly the record
  that a map updated in the same way holds, and NULL where the map has none.\<close>

lemma login_table_refines_map:
  assumes "login_ready E tab opn w"
    and "list_all (\<lambda>(k, x). length k = TOKEN_NAME_LENGTH \<and>
      (case x of None \<Rightarrow> True | Some u \<Rightarrow> wf_user_login u \<and> ul_login_token u = k)) ops"
    and "length k = TOKEN_NAME_LENGTH"
  shows "\<exists>w1 w2. run_table (\<lambda>w k u. insert_user_login E w u) (remove_user_login E) w ops = Inr w1 \<and>
    get_login_info_malloc_or_null E w1 k = Inr (run_map ops (login_view (tab w)) k, w2)"
  using assms by (rule logins.run_then_get)

lemma login_table_refines_map_witness:
  "\<exists>w1 w2. run_table (\<lambda>w k u. insert_user_login mem_env w u) (remove_user_login mem_env) mem_empty
      [(ul_login_token sample_login, Some sample_login), (zeros 21, None)] = Inr w1 \<and>
    get_login_info_malloc_or_null mem_env w1 (ul_login_token sample_login) = Inr (Some sample_login, w2)"
proof -
  have "cstr (ul_login_token sample_login) \<noteq> cstr (zeros 21)"
    by (simp add: sample_login_def)
  then have "ul_login_token sample_login \<noteq> zeros 21" by metis
  then show ?thesis
    using login_table_refines_map [OF mem_empty_ready(1),
        of "[(ul_login_token sample_login, Some sample_login), (zeros 21, None)]" "ul_login_token sample_login"]
    by (simp add: sample_login_def wf_user_login_def)
qed



text \<open>The copy in \<^verbatim>\<open>get_user_account_malloc_or_null\<close> is \<^verbatim>\<open>sizeof(user_login_t)\<close> bytes into a block of
  \<^verbatim>\<open>sizeof(user_account_t)\<close> bytes: with fewer than nine bytes of slack behind the block, every lookup of
  an existing account writes out of bounds.\<close>

lemma get_user_account_overrun:
  assumes "ndbm_contract E tab opn" "opn w = []" "length k = UUID_LEN"
    and "look (tab w) DB_USER_ACCOUNT k = Some v" "heap_slack E < 9"
  shows "get_user_account_malloc_or_null E w k = Inl BufferOverflow"
proof -
  have "memcpy_account E v = Inl BufferOverflow"
    using assms(5) by (simp add: memcpy_account_def sizeof_user_account_def sizeof_user_login_def)
  with get_user_account_spec [OF assms(1-3)] assms(4) show ?thesis by auto
qed

definition tight_env :: "mem_world env" where
  "tight_env = mem_env\<lparr>heap_slack := 8\<rparr>"

lemma tight_env_contract: "ndbm_contract tight_env mem_tab mw_open"
  using mem_env_contract
  by (simp add: ndbm_contract_def open_law_def close_law_def fetch_law_def store_law_def delete_law_def
      traverse_law_def uuid_law_def heap_law_def tight_env_def)

lemma get_user_account_overrun_witness:
  "get_user_account_malloc_or_null tight_env
     (mem_empty\<lparr>mw_tables := (\<lambda>d. if d = DB_USER_ACCOUNT then Some [(zeros 37, zeros 80)] else None)\<rparr>) (zeros 37) =
   Inl BufferOverflow"
proof -
  let ?w = "mem_empty\<lparr>mw_tables := (\<lambda>d. if d = DB_USER_ACCOUNT then Some [(zeros 37, zeros 80)] else None)\<rparr>"
  have "mw_open ?w = []" "look (mem_tab ?w) DB_USER_ACCOUNT (zeros 37) = Some (zeros 80)" "heap_slack tight_env < 9"
    by (simp_all add: mem_empty_def look_def mem_tab_def tight_env_def)
  then show ?thesis
    using get_user_account_overrun [OF tight_env_contract, of ?w "zeros 37" "zeros 80"] by simp
qed

text \<open>The table of display names refines a map from names to user ids.\<close>

lemma name_table_refines_map:
  assumes "name_ready E tab opn w"
    and "list_all (\<lambda>(k, x). length k = TOKEN_NAME_LENGTH \<and>
      (case x of None \<Rightarrow> True | Some v \<Rightarrow> length k = TOKEN_NAME_LENGTH \<and> uuid_text v)) ops"
    and "length k = TOKEN_NAME_LENGTH"
  shows "\<exists>w1 w2. run_table (insert_display_name E) (remove_display_name E) w ops = Inr w1 \<and>
    get_uuid_with_display_name_or_null E w1 k = Inr (run_map ops (name_view (tab w)) k, w2)"
  using assms by (rule names.run_then_get)

lemma name_table_refines_map_witness:
  "\<exists>w1 w2. run_table (insert_display_name mem_env) (remove_display_name mem_env) mem_empty
      [(zeros 21, Some (zeros 37)), (zeros 21, None)] = Inr w1 \<and>
    get_uuid_with_display_name_or_null mem_env w1 (zeros 21) = Inr (None, w2)"
  using name_table_refines_map [OF mem_empty_ready(3), of "[(zeros 21, Some (zeros 37)), (zeros 21, None)]" "zeros 21"]
  by (simp add: uuid_text_def)

end
