(* ===== verification/Cache.thy ===== *)
theory Cache
  imports Env
begin

text \<open>
  The cache of connected users: the array \<^verbatim>\<open>active_users\<close> of \<^verbatim>\<open>MAX_CLIENTS\<close> entries and the functions of
  \<^verbatim>\<open>src/server.c\<close> that work on it. An entry is in use when its display name is not empty, and the entries
  in use are meant to be a prefix of the array. \<open>users\<close> is that prefix; the locale \<open>registry\<close> states the
  interface as operations on the list \<open>users\<close>, and it is interpreted on the functions of the source.
\<close>

abbreviation MAX_CLIENTS :: nat where "MAX_CLIENTS \<equiv> 255"

record connected_user =
  cu_fd :: int
  cu_dsply_name :: bytes
  cu_ip_address :: bytes
  cu_login_token :: bytes
  cu_uuid :: bytes
  cu_privilege_level :: "32 word"
  cu_access_time :: int

section \<open>Operations\<close>

definition name_empty :: "connected_user \<Rightarrow> bool result" where
  "name_empty u = (case cu_dsply_name u of [] \<Rightarrow> Inl Overread | c # _ \<Rightarrow> Inr (c = NUL))"

fun num_loop :: "connected_user list \<Rightarrow> nat \<Rightarrow> nat result" where
  "num_loop [] n = Inr n"
| "num_loop (u # us) n =
     bindR (name_empty u) (\<lambda>e.
       if n \<le> MAX_CLIENTS \<and> e then Inr n
       else if \<not> e then num_loop us (n + 1)
       else num_loop us n)"

definition get_num_connected_users :: "connected_user list \<Rightarrow> nat result" where
  "get_num_connected_users cache = num_loop cache 0"

definition zero_user :: connected_user where
  "zero_user = \<lparr>cu_fd = 0, cu_dsply_name = zeros DSPLY_NAME_LENGTH, cu_ip_address = zeros CLNT_IP_ADDR_LENGTH,
     cu_login_token = zeros TOKEN_NAME_LENGTH, cu_uuid = zeros UUID_LEN, cu_privilege_level = 0, cu_access_time = 0\<rparr>"

definition insert_user_in_cache ::
  "'w env \<Rightarrow> 'w \<Rightarrow> int \<Rightarrow> connected_user list \<Rightarrow> user_account \<Rightarrow> user_login \<Rightarrow> nat \<Rightarrow> connected_user list result"
where
  "insert_user_in_cache E w fd cache connecting_user login_info num_active_users =
     bindR (strcpy (zeros DSPLY_NAME_LENGTH) (ua_display_name connecting_user)) (\<lambda>dsply_name.
     bindR (strcpy (zeros CLNT_IP_ADDR_LENGTH) (ua_ip_addr connecting_user)) (\<lambda>ip_address.
     bindR (strcpy (zeros UUID_LEN) (ua_user_id connecting_user)) (\<lambda>uuid.
     bindR (strcpy (zeros TOKEN_NAME_LENGTH) (ul_login_token login_info)) (\<lambda>login_token.
       if num_active_users < length cache
       then Inr (cache[num_active_users :=
         \<lparr>cu_fd = fd, cu_dsply_name = dsply_name, cu_ip_address = ip_address, cu_login_token = login_token,
          cu_uuid = uuid, cu_privilege_level = ua_privilege_level connecting_user, cu_access_time = clock E w\<rparr>])
       else Inl BufferOverflow))))"

fun shift_left :: "connected_user list \<Rightarrow> nat \<Rightarrow> nat \<Rightarrow> connected_user list" where
  "shift_left cache j 0 = cache"
| "shift_left cache j (Suc k) = shift_left (cache[j := cache ! Suc j]) (Suc j) k"

text \<open>\<open>shift_left cache j k\<close> makes the \<open>k\<close> assignments \<^verbatim>\<open>cache[j] = cache[j + 1]\<close> from \<open>j\<close> on; \<open>remove_loop\<close> is
  the search, with \<open>k\<close> entries left from index \<open>i\<close> on.\<close>

definition blank_name :: "connected_user \<Rightarrow> connected_user" where
  "blank_name u = u\<lparr>cu_dsply_name := (cu_dsply_name u)[0 := NUL]\<rparr>"

fun remove_loop :: "connected_user list \<Rightarrow> bytes \<Rightarrow> nat \<Rightarrow> nat \<Rightarrow> connected_user list result" where
  "remove_loop cache display_name i 0 = Inr cache"
| "remove_loop cache display_name i (Suc k) =
     (if length cache \<le> i + k then Inl Overread
      else bindR (strcmp_eq (cu_dsply_name (cache ! i)) display_name) (\<lambda>eq.
        if eq then (let c = shift_left cache i k in Inr (c[i + k := blank_name (c ! (i + k))]))
        else remove_loop cache display_name (Suc i) k))"

definition remove_user_in_cache :: "connected_user list \<Rightarrow> user_account \<Rightarrow> nat \<Rightarrow> connected_user list result" where
  "remove_user_in_cache cache connecting_user num_active_users =
     remove_loop cache (ua_display_name connecting_user) 0 num_active_users"

text \<open>A search through the first entries for one that passes a test, which may itself over-read.\<close>

fun find_loop :: "(connected_user \<Rightarrow> bool result) \<Rightarrow> connected_user list \<Rightarrow> connected_user option result" where
  "find_loop test [] = Inr None"
| "find_loop test (u # us) = bindR (test u) (\<lambda>b. if b then Inr (Some u) else find_loop test us)"

definition get_connected_user_by_display_name ::
  "connected_user list \<Rightarrow> bytes \<Rightarrow> connected_user option result"
where
  "get_connected_user_by_display_name cache display_name =
     bindR (get_num_connected_users cache) (\<lambda>n.
       find_loop (\<lambda>u. strcmp_eq (cu_dsply_name u) display_name) (take n cache))"

definition get_connected_user_by_fd :: "connected_user list \<Rightarrow> int \<Rightarrow> connected_user option result" where
  "get_connected_user_by_fd cache fd =
     bindR (get_num_connected_users cache) (\<lambda>n. find_loop (\<lambda>u. Inr (cu_fd u = fd)) (take n cache))"

text \<open>The conjunctions of \<^verbatim>\<open>strcmp\<close> results are evaluated from left to right and stop at the first failure.\<close>

definition andR :: "bool result \<Rightarrow> bool result \<Rightarrow> bool result" where
  "andR a b = bindR a (\<lambda>x. if x then b else Inr False)"

definition find_connected_user_with_same_cred ::
  "user_account \<Rightarrow> connected_user list \<Rightarrow> nat \<Rightarrow> int \<Rightarrow> bool result"
where
  "find_connected_user_with_same_cred user_account conn_users num_users fd =
     (if num_users = 0 then Inr False
      else bindR (find_loop (\<lambda>u.
          andR (strcmp_eq (ua_ip_addr user_account) (cu_ip_address u))
            (andR (strcmp_eq (ua_display_name user_account) (cu_dsply_name u)) (Inr (fd = cu_fd u))))
          (take num_users conn_users)) (\<lambda>r. Inr (r \<noteq> None)))"

definition get_display_name_in_cache_malloc_or_null ::
  "'w env \<Rightarrow> 'w \<Rightarrow> connected_user list \<Rightarrow> bytes \<Rightarrow> bytes \<Rightarrow> bytes option result"
where
  "get_display_name_in_cache_malloc_or_null E w active_users ip_addr display_name =
     bindR (get_num_connected_users active_users) (\<lambda>n.
     bindR (find_loop (\<lambda>u. andR (strcmp_eq (cu_ip_address u) ip_addr) (strcmp_eq (cu_dsply_name u) display_name))
         (take n active_users)) (\<lambda>r. case r of
         None \<Rightarrow> Inr None
       | Some u \<Rightarrow>
           if \<not> malloc_ok E w TOKEN_NAME_LENGTH then Inl NullDeref
           else bindR (strncpy (zeros TOKEN_NAME_LENGTH) (cu_dsply_name u) TOKEN_NAME_LENGTH)
             (\<lambda>dis_name. Inr (Some dis_name))))"

text \<open>\<^verbatim>\<open>find_duplicate_user\<close>: the smallest descriptor below 4 among the pairs of entries with the same name
  and different addresses, 4 if there are such pairs but no smaller descriptor, and -1 if there is none.\<close>

fun dup_inner :: "connected_user \<Rightarrow> connected_user list \<Rightarrow> int \<times> bool \<Rightarrow> (int \<times> bool) result" where
  "dup_inner u [] acc = Inr acc"
| "dup_inner u (v # vs) (min_fd, found) =
     bindR (strcmp_eq (cu_dsply_name u) (cu_dsply_name v)) (\<lambda>same.
     bindR (if same then bindR (strcmp_eq (cu_ip_address u) (cu_ip_address v)) (\<lambda>e. Inr (\<not> e)) else Inr False) (\<lambda>dup.
       dup_inner u vs (if dup then (min min_fd (min (cu_fd u) (cu_fd v)), True) else (min_fd, found))))"

fun dup_outer :: "connected_user list \<Rightarrow> int \<times> bool \<Rightarrow> (int \<times> bool) result" where
  "dup_outer [] acc = Inr acc"
| "dup_outer (u # us) acc = bindR (dup_inner u us acc) (\<lambda>acc. dup_outer us acc)"

definition find_duplicate_user :: "connected_user list \<Rightarrow> nat \<Rightarrow> int result" where
  "find_duplicate_user cache active_users_count =
     bindR (dup_outer (take active_users_count cache) (4, False)) (\<lambda>(min_fd, found).
       Inr (if found then min_fd else -1))"

section \<open>Well-formed caches\<close>

definition wf_user :: "connected_user \<Rightarrow> bool" where
  "wf_user u \<longleftrightarrow> length (cu_dsply_name u) = DSPLY_NAME_LENGTH \<and> terminated (cu_dsply_name u) \<and>
     length (cu_ip_address u) = CLNT_IP_ADDR_LENGTH \<and> terminated (cu_ip_address u) \<and>
     length (cu_login_token u) = TOKEN_NAME_LENGTH \<and> terminated (cu_login_token u) \<and>
     length (cu_uuid u) = UUID_LEN \<and> terminated (cu_uuid u)"

definition used :: "connected_user \<Rightarrow> bool" where
  "used u \<longleftrightarrow> cstr (cu_dsply_name u) \<noteq> []"

definition users :: "connected_user list \<Rightarrow> connected_user list" where
  "users cache = takeWhile used cache"

definition wf_cache :: "connected_user list \<Rightarrow> bool" where
  "wf_cache cache \<longleftrightarrow> length cache = MAX_CLIENTS \<and> list_all wf_user cache \<and>
     list_all (\<lambda>u. \<not> used u) (dropWhile used cache)"

section \<open>Lemmas\<close>

lemma wf_user_zero [simp]: "wf_user zero_user" "\<not> used zero_user"
  by (simp_all add: wf_user_def used_def zero_user_def)

lemma name_empty_spec [simp]: "wf_user u \<Longrightarrow> name_empty u = Inr (\<not> used u)"
  by (cases "cu_dsply_name u") (auto simp: name_empty_def used_def wf_user_def)

lemma num_loop_spec:
  "list_all wf_user us \<Longrightarrow> n + length us \<le> MAX_CLIENTS \<Longrightarrow>
     num_loop us n = Inr (n + length (takeWhile used us))"
proof (induction us arbitrary: n)
  case (Cons u us)
  then have "wf_user u" "list_all wf_user us" "Suc n + length us \<le> MAX_CLIENTS" "n \<le> MAX_CLIENTS" by simp_all
  then show ?case using Cons.IH [of "Suc n"] by (cases "used u") simp_all
qed simp

lemma get_num_spec [simp]: "wf_cache cache \<Longrightarrow> get_num_connected_users cache = Inr (length (users cache))"
  by (simp add: get_num_connected_users_def wf_cache_def num_loop_spec users_def)

lemma take_users [simp]: "take (length (users cache)) cache = users cache"
  unfolding users_def by (metis append_eq_conv_conj takeWhile_dropWhile_id)

lemma length_users_le: "wf_cache cache \<Longrightarrow> length (users cache) \<le> MAX_CLIENTS"
  using length_takeWhile_le [of used cache] by (simp add: users_def wf_cache_def)

lemma cache_split: "cache = users cache @ dropWhile used cache"
  by (simp add: users_def)

lemma wf_users: "wf_cache cache \<Longrightarrow> u \<in> set (users cache) \<Longrightarrow> wf_user u \<and> used u"
  by (auto simp: wf_cache_def users_def list_all_iff dest: set_takeWhileD)

lemma wf_cacheI:
  assumes "length us + length zs = MAX_CLIENTS" "list_all wf_user (us @ zs)"
    "list_all used us" "list_all (\<lambda>u. \<not> used u) zs"
  shows "wf_cache (us @ zs)" "users (us @ zs) = us"
proof -
  have *: "takeWhile used (us @ zs) = us \<and> dropWhile used (us @ zs) = zs"
    using assms(3,4) by (induction us) (cases zs, auto)
  with assms show "wf_cache (us @ zs)" "users (us @ zs) = us"
    by (simp_all add: wf_cache_def users_def)
qed

lemma find_loop_spec:
  "(\<And>u. u \<in> set us \<Longrightarrow> test u = Inr (p u)) \<Longrightarrow> find_loop test us = Inr (find p us)"
  by (induction us) auto

lemma strcpy_field:
  assumes "length src = n" "terminated src"
  shows "strcpy (zeros n) src = Inr (nul_pad n (cstr src))" "length (nul_pad n (cstr src)) = n"
    "terminated (nul_pad n (cstr src))"
  using assms length_cstr_less [OF assms(2)] by (simp_all add: strcpy_zeros)

lemma andR_simps [simp]: "andR (Inr a) (Inr b) = Inr (a \<and> b)" "andR (Inl e) m = Inl e" "andR (Inr False) m = Inr False"
  by (auto simp: andR_def)

lemma wf_user_strcmp [simp]:
  "wf_user u \<Longrightarrow> terminated nm \<Longrightarrow> strcmp_eq (cu_dsply_name u) nm = Inr (cstr (cu_dsply_name u) = cstr nm)"
  "wf_user u \<Longrightarrow> terminated nm \<Longrightarrow> strcmp_eq nm (cu_dsply_name u) = Inr (cstr nm = cstr (cu_dsply_name u))"
  "wf_user u \<Longrightarrow> terminated nm \<Longrightarrow> strcmp_eq (cu_ip_address u) nm = Inr (cstr (cu_ip_address u) = cstr nm)"
  "wf_user u \<Longrightarrow> terminated nm \<Longrightarrow> strcmp_eq nm (cu_ip_address u) = Inr (cstr nm = cstr (cu_ip_address u))"
  by (simp_all add: wf_user_def clib)

lemma get_by_name_spec:
  "wf_cache cache \<Longrightarrow> terminated nm \<Longrightarrow>
     get_connected_user_by_display_name cache nm =
       Inr (find (\<lambda>u. cstr (cu_dsply_name u) = cstr nm) (users cache))"
  by (simp add: get_connected_user_by_display_name_def find_loop_spec wf_users)

lemma get_by_fd_spec:
  "wf_cache cache \<Longrightarrow> get_connected_user_by_fd cache fd = Inr (find (\<lambda>u. cu_fd u = fd) (users cache))"
  by (simp add: get_connected_user_by_fd_def find_loop_spec)

lemma shift_left_spec:
  "length xs = i \<Longrightarrow> shift_left (xs @ y # ys @ zs) i (length ys) = xs @ ys @ last (y # ys) # zs"
proof (induction ys arbitrary: xs y i)
  case (Cons a ys)
  have "shift_left (xs @ y # (a # ys) @ zs) i (length (a # ys)) =
      shift_left ((xs @ [a]) @ a # ys @ zs) (Suc i) (length ys)"
    using Cons.prems by (simp add: nth_append list_update_append)
  also have "\<dots> = (xs @ [a]) @ ys @ last (a # ys) # zs"
    by (rule Cons.IH) (use Cons.prems in simp)
  finally show ?case by simp
qed simp

text \<open>The specification of a removal drops the first entry with the name.\<close>

fun remove_first :: "('a \<Rightarrow> bool) \<Rightarrow> 'a list \<Rightarrow> 'a list" where
  "remove_first p [] = []"
| "remove_first p (x # xs) = (if p x then xs else x # remove_first p xs)"

lemma set_remove_first: "set (remove_first p xs) \<subseteq> set xs"
  by (induction xs) auto

lemma length_remove_first: "length (remove_first p xs) \<le> length xs"
  by (induction xs) auto

lemma remove_first_id: "find p xs = None \<Longrightarrow> remove_first p xs = xs"
  by (induction xs) (auto split: if_splits)

lemma find_remove_first:
  "distinct (map f xs) \<Longrightarrow> find (\<lambda>x. f x = a) (remove_first (\<lambda>x. f x = a) xs) = None"
  by (induction xs) (auto simp: find_None_iff image_iff)

lemma find_remove_first_other:
  "a \<noteq> b \<Longrightarrow> find (\<lambda>x. f x = a) (remove_first (\<lambda>x. f x = b) xs) = find (\<lambda>x. f x = a) xs"
  by (induction xs) auto

lemma find_append: "find p (xs @ ys) = (case find p xs of None \<Rightarrow> find p ys | Some x \<Rightarrow> Some x)"
  by (induction xs) auto

lemma wf_blank_name: "wf_user u \<Longrightarrow> wf_user (blank_name u) \<and> \<not> used (blank_name u)"
  by (cases "cu_dsply_name u") (auto simp: wf_user_def used_def blank_name_def)

lemma remove_loop_spec:
  assumes "length xs = i" "list_all wf_user us" "terminated nm"
  shows "\<exists>zs'. remove_loop (xs @ us @ zs) nm i (length us) =
      Inr (xs @ remove_first (\<lambda>u. cstr (cu_dsply_name u) = cstr nm) us @ zs') \<and>
    (zs' = zs \<or> (\<exists>u. wf_user u \<and> \<not> used u \<and> zs' = u # zs)) \<and>
    length (remove_first (\<lambda>u. cstr (cu_dsply_name u) = cstr nm) us @ zs') = length (us @ zs)"
  using assms(1,2)
proof (induction us arbitrary: xs i)
  case (Cons u us)
  have wf: "wf_user u" "wf_user (last (u # us))"
    using Cons.prems last_in_set [of "u # us"] by (auto simp: list_all_iff)
  have idx: "i + length us < length (xs @ (u # us) @ zs)" "(xs @ (u # us) @ zs) ! i = u"
    using Cons.prems by (auto simp: nth_append)
  show ?case
  proof (cases "cstr (cu_dsply_name u) = cstr nm")
    case True
    let ?b = "blank_name (last (u # us))"
    have "(xs @ us @ last (u # us) # zs)[i + length us := ?b] = xs @ us @ ?b # zs"
      "(xs @ us @ last (u # us) # zs) ! (i + length us) = last (u # us)"
      using Cons.prems by (simp_all add: list_update_append nth_append)
    then have "remove_loop (xs @ (u # us) @ zs) nm i (length (u # us)) = Inr (xs @ us @ ?b # zs)"
      using idx wf True assms(3) shift_left_spec [of xs i u us zs] Cons.prems by (simp add: Let_def)
    with True wf_blank_name [OF wf(2)] show ?thesis
      by (intro exI [of _ "?b # zs"]) auto
  next
    case False
    from Cons.IH [of "xs @ [u]" "Suc i"] Cons.prems
    obtain zs' where "remove_loop ((xs @ [u]) @ us @ zs) nm (Suc i) (length us) =
        Inr ((xs @ [u]) @ remove_first (\<lambda>u. cstr (cu_dsply_name u) = cstr nm) us @ zs')"
      "zs' = zs \<or> (\<exists>u. wf_user u \<and> \<not> used u \<and> zs' = u # zs)"
      "length (remove_first (\<lambda>u. cstr (cu_dsply_name u) = cstr nm) us @ zs') = length (us @ zs)"
      by auto
    with idx wf False assms(3) show ?thesis by (intro exI [of _ zs']) simp
  qed
qed simp

lemma wf_cacheE:
  assumes "wf_cache cache"
  obtains zs where "cache = users cache @ zs" "length (users cache) + length zs = MAX_CLIENTS"
    "list_all wf_user (users cache)" "list_all used (users cache)" "list_all wf_user zs"
    "list_all (\<lambda>u. \<not> used u) zs"
proof (rule that [of "dropWhile used cache"])
  have l: "list_all wf_user (users cache @ dropWhile used cache)" "length (users cache @ dropWhile used cache) = MAX_CLIENTS"
    using assms cache_split [of cache] by (simp_all add: wf_cache_def users_def)
  then show "list_all wf_user (users cache)" "list_all wf_user (dropWhile used cache)"
    "length (users cache) + length (dropWhile used cache) = MAX_CLIENTS" by simp_all
  show "list_all used (users cache)"
    by (auto simp: users_def list_all_iff dest: set_takeWhileD)
qed (use assms cache_split [of cache] in \<open>simp_all add: wf_cache_def\<close>)

lemma remove_user_spec:
  assumes W: "wf_cache cache" and T: "terminated (ua_display_name a)"
  shows "\<exists>c'. remove_user_in_cache cache a (length (users cache)) = Inr c' \<and> wf_cache c' \<and>
    users c' = remove_first (\<lambda>u. cstr (cu_dsply_name u) = cstr (ua_display_name a)) (users cache)"
    (is "\<exists>c'. _ \<and> _ \<and> _ = ?us")
proof -
  obtain zs where zs: "cache = users cache @ zs" "length (users cache) + length zs = MAX_CLIENTS"
    "list_all wf_user (users cache)" "list_all used (users cache)" "list_all wf_user zs"
    "list_all (\<lambda>u. \<not> used u) zs" by (rule wf_cacheE [OF W])
  obtain zs' where zs': "remove_loop ([] @ users cache @ zs) (ua_display_name a) 0 (length (users cache)) =
      Inr ([] @ ?us @ zs')" "zs' = zs \<or> (\<exists>u. wf_user u \<and> \<not> used u \<and> zs' = u # zs)"
    "length (?us @ zs') = length (users cache @ zs)"
    using remove_loop_spec [of "[]" 0 "users cache" "ua_display_name a" zs] zs T by auto
  have "list_all wf_user ?us" "list_all used ?us"
    using zs set_remove_first [of "\<lambda>u. cstr (cu_dsply_name u) = cstr (ua_display_name a)" "users cache"]
    by (auto simp: list_all_iff)
  moreover have "list_all wf_user zs'" "list_all (\<lambda>u. \<not> used u) zs'" using zs zs'(2) by auto
  ultimately have "wf_cache (?us @ zs')" "users (?us @ zs') = ?us"
    using zs'(3) zs(2) by (auto intro!: wf_cacheI)
  moreover have "remove_user_in_cache cache a (length (users cache)) = Inr (?us @ zs')"
    using zs'(1) by (simp add: remove_user_in_cache_def flip: zs(1))
  ultimately show ?thesis by blast
qed

lemma list_all_update: "list_all p xs \<Longrightarrow> p x \<Longrightarrow> list_all p (xs[i := x])"
  unfolding list_all_iff by (auto dest: set_update_subset_insert [THEN subsetD])

text \<open>The entry an insertion makes, and the accounts it accepts.\<close>

definition cache_entry :: "'w env \<Rightarrow> 'w \<Rightarrow> int \<times> user_account \<times> user_login \<Rightarrow> connected_user" where
  "cache_entry E w = (\<lambda>(fd, a, l).
     \<lparr>cu_fd = fd, cu_dsply_name = nul_pad DSPLY_NAME_LENGTH (cstr (ua_display_name a)),
      cu_ip_address = nul_pad CLNT_IP_ADDR_LENGTH (cstr (ua_ip_addr a)),
      cu_login_token = nul_pad TOKEN_NAME_LENGTH (cstr (ul_login_token l)),
      cu_uuid = nul_pad UUID_LEN (cstr (ua_user_id a)), cu_privilege_level = ua_privilege_level a,
      cu_access_time = clock E w\<rparr>)"

definition entry_ok :: "int \<times> user_account \<times> user_login \<Rightarrow> bool" where
  "entry_ok = (\<lambda>(fd, a, l). wf_user_account a \<and> wf_user_login l \<and> terminated (ua_display_name a) \<and>
     terminated (ua_ip_addr a) \<and> terminated (ua_user_id a) \<and> terminated (ul_login_token l) \<and>
     cstr (ua_display_name a) \<noteq> [])"

lemma cache_entry_wf:
  assumes "entry_ok x"
  shows "wf_user (cache_entry E w x)" "used (cache_entry E w x)"
  using assms length_cstr_less
  by (fastforce simp: entry_ok_def cache_entry_def wf_user_def used_def wf_user_account_def wf_user_login_def)+

lemma insert_user_fields:
  assumes "entry_ok (fd, a, l)"
  shows "insert_user_in_cache E w fd cache a l n =
    (if n < length cache then Inr (cache[n := cache_entry E w (fd, a, l)]) else Inl BufferOverflow)"
  using assms
  by (simp add: insert_user_in_cache_def entry_ok_def wf_user_account_def wf_user_login_def strcpy_field
      cache_entry_def)

lemma insert_user_spec:
  assumes W: "wf_cache cache" and R: "length (users cache) < MAX_CLIENTS" and X: "entry_ok (fd, a, l)"
  shows "\<exists>c'. insert_user_in_cache E w fd cache a l (length (users cache)) = Inr c' \<and> wf_cache c' \<and>
    users c' = users cache @ [cache_entry E w (fd, a, l)]"
proof -
  obtain zs where zs: "cache = users cache @ zs" "length (users cache) + length zs = MAX_CLIENTS"
    "list_all wf_user (users cache)" "list_all used (users cache)" "list_all wf_user zs"
    "list_all (\<lambda>u. \<not> used u) zs" by (rule wf_cacheE [OF W])
  then obtain z zs' where z: "zs = z # zs'" using R by (cases zs) auto
  let ?e = "cache_entry E w (fd, a, l)"
  have "cache[length (users cache) := ?e] = (users cache @ [?e]) @ zs'"
    using zs(1) z by (metis append.assoc append_Cons append_Nil list_update_length)
  moreover have "wf_cache ((users cache @ [?e]) @ zs')" "users ((users cache @ [?e]) @ zs') = users cache @ [?e]"
    using wf_cacheI [of "users cache @ [?e]" zs'] zs(2-6) z cache_entry_wf [OF X, of E w] by simp_all
  moreover have "length (users cache) < length cache" using R W by (simp add: wf_cache_def)
  ultimately show ?thesis
    using insert_user_fields [OF X, of E w cache "length (users cache)"] by (intro exI [of _ "(users cache @ [?e]) @ zs'"]) simp
qed

section \<open>The interface\<close>

text \<open>A registry of named entries: \<open>view\<close> lists them in the order of their insertion, \<open>add\<close> appends while
  there is room, \<open>del\<close> drops the first entry with the name of its argument and \<open>lookup\<close> finds an entry
  by name. A sequence of operations is a list of additions (\<open>Inl\<close>) and removals (\<open>Inr\<close>).\<close>

fun run_registry :: "('c \<Rightarrow> 'a \<Rightarrow> 'c result) \<Rightarrow> ('c \<Rightarrow> 'k \<Rightarrow> 'c result) \<Rightarrow> ('a + 'k) list \<Rightarrow> 'c \<Rightarrow> 'c result" where
  "run_registry add del [] c = Inr c"
| "run_registry add del (Inl x # ops) c = bindR (add c x) (run_registry add del ops)"
| "run_registry add del (Inr k # ops) c = bindR (del c k) (run_registry add del ops)"

fun run_users :: "('a \<Rightarrow> 'u) \<Rightarrow> ('u \<Rightarrow> string) \<Rightarrow> ('k \<Rightarrow> string) \<Rightarrow> ('a + 'k) list \<Rightarrow> 'u list \<Rightarrow> 'u list" where
  "run_users mk name_of key [] us = us"
| "run_users mk name_of key (Inl x # ops) us = run_users mk name_of key ops (us @ [mk x])"
| "run_users mk name_of key (Inr k # ops) us =
     run_users mk name_of key ops (remove_first (\<lambda>u. name_of u = key k) us)"

locale registry =
  fixes inv :: "'c \<Rightarrow> bool"
    and view :: "'c \<Rightarrow> 'u list"
    and name_of :: "'u \<Rightarrow> string"
    and room :: nat
    and ok :: "'a \<Rightarrow> bool"
    and mk :: "'a \<Rightarrow> 'u"
    and key_ok :: "'k \<Rightarrow> bool"
    and key :: "'k \<Rightarrow> string"
    and add :: "'c \<Rightarrow> 'a \<Rightarrow> 'c result"
    and del :: "'c \<Rightarrow> 'k \<Rightarrow> 'c result"
    and lookup :: "'c \<Rightarrow> bytes \<Rightarrow> 'u option result"
  assumes add_law: "inv c \<Longrightarrow> length (view c) < room \<Longrightarrow> ok x \<Longrightarrow>
      \<exists>c'. add c x = Inr c' \<and> inv c' \<and> view c' = view c @ [mk x]"
    and del_law: "inv c \<Longrightarrow> key_ok k \<Longrightarrow>
      \<exists>c'. del c k = Inr c' \<and> inv c' \<and> view c' = remove_first (\<lambda>u. name_of u = key k) (view c)"
    and lookup_law: "inv c \<Longrightarrow> terminated nm \<Longrightarrow> lookup c nm = Inr (find (\<lambda>u. name_of u = cstr nm) (view c))"
begin

lemma add_then_lookup:
  assumes "inv c" "length (view c) < room" "ok x" "find (\<lambda>u. name_of u = cstr nm) (view c) = None"
    "terminated nm" "name_of (mk x) = cstr nm"
  shows "\<exists>c'. add c x = Inr c' \<and> inv c' \<and> lookup c' nm = Inr (Some (mk x))"
  using add_law [OF assms(1-3)] lookup_law assms(4-6) by (force simp: find_append)

lemma del_then_lookup:
  assumes "inv c" "distinct (map name_of (view c))" "key_ok k" "terminated nm"
  shows "\<exists>c'. del c k = Inr c' \<and> inv c' \<and>
    lookup c' nm = (if cstr nm = key k then Inr None else lookup c nm)"
proof -
  obtain c' where c': "del c k = Inr c'" "inv c'" "view c' = remove_first (\<lambda>u. name_of u = key k) (view c)"
    using del_law [OF assms(1,3)] by blast
  then show ?thesis
    using lookup_law [OF c'(2) assms(4)] lookup_law [OF assms(1,4)] find_remove_first [OF assms(2), of "key k"]
    by (simp add: find_remove_first_other)
qed

lemma run_refines:
  assumes "inv c" "length (view c) + length (filter isl ops) \<le> room"
    "list_all (\<lambda>x. case x of Inl a \<Rightarrow> ok a | Inr k \<Rightarrow> key_ok k) ops"
  shows "\<exists>c'. run_registry add del ops c = Inr c' \<and> inv c' \<and> view c' = run_users mk name_of key ops (view c)"
  using assms
proof (induction ops arbitrary: c)
  case (Cons x ops)
  show ?case
  proof (cases x)
    case (Inl a)
    with Cons.prems obtain c1 where c1: "add c a = Inr c1" "inv c1" "view c1 = view c @ [mk a]"
      using add_law [of c a] by auto
    with Cons.IH [of c1] Cons.prems Inl show ?thesis by auto
  next
    case (Inr k)
    with Cons.prems obtain c1 where c1: "del c k = Inr c1" "inv c1"
      "view c1 = remove_first (\<lambda>u. name_of u = key k) (view c)"
      using del_law [of c k] by auto
    with Cons.IH [of c1] Cons.prems Inr length_remove_first [of "\<lambda>u. name_of u = key k" "view c"]
    show ?thesis by auto
  qed
qed simp

lemma run_then_lookup:
  assumes "inv c" "length (view c) + length (filter isl ops) \<le> room"
    "list_all (\<lambda>x. case x of Inl a \<Rightarrow> ok a | Inr k \<Rightarrow> key_ok k) ops" "terminated nm"
  shows "\<exists>c'. run_registry add del ops c = Inr c' \<and> inv c' \<and>
    lookup c' nm = Inr (find (\<lambda>u. name_of u = cstr nm) (run_users mk name_of key ops (view c)))"
  using run_refines [OF assms(1-3)] lookup_law [OF _ assms(4)] by auto

end

text \<open>The handlers pass the number of connected users to the insertion and the removal.\<close>

definition cache_add :: "'w env \<Rightarrow> 'w \<Rightarrow> connected_user list \<Rightarrow> int \<times> user_account \<times> user_login \<Rightarrow> connected_user list result" where
  "cache_add E w c = (\<lambda>(fd, a, l).
     bindR (get_num_connected_users c) (\<lambda>n. insert_user_in_cache E w fd c a l n))"

definition cache_del :: "connected_user list \<Rightarrow> user_account \<Rightarrow> connected_user list result" where
  "cache_del c a = bindR (get_num_connected_users c) (\<lambda>n. remove_user_in_cache c a n)"

abbreviation user_name :: "connected_user \<Rightarrow> string" where "user_name u \<equiv> cstr (cu_dsply_name u)"

interpretation active: registry wf_cache users user_name MAX_CLIENTS entry_ok "cache_entry E w"
  "\<lambda>a. terminated (ua_display_name a)" "\<lambda>a. cstr (ua_display_name a)" "cache_add E w" cache_del
  get_connected_user_by_display_name
  for E :: "'w env" and w :: 'w
proof
  fix c x
  assume "wf_cache c" "length (users c) < MAX_CLIENTS" "entry_ok x"
  then show "\<exists>c'. cache_add E w c x = Inr c' \<and> wf_cache c' \<and> users c' = users c @ [cache_entry E w x]"
    using insert_user_spec [of c "fst x" "fst (snd x)" "snd (snd x)" E w]
    by (simp add: cache_add_def split_beta)
qed (simp_all add: cache_del_def remove_user_spec get_by_name_spec)

section \<open>Properties\<close>

definition empty_cache :: "connected_user list" where
  "empty_cache = replicate MAX_CLIENTS zero_user"

lemma wf_empty_cache [simp]: "wf_cache empty_cache" "users empty_cache = []"
  using wf_cacheI [of "[]" empty_cache] by (simp_all add: empty_cache_def list_all_iff)

text \<open>A sample entry, used by the witnesses.\<close>

definition sample_entry :: "int \<times> user_account \<times> user_login" where
  "sample_entry = (5, sample_account, sample_login)"

lemma sample_entry_ok [simp]: "entry_ok sample_entry"
  by (simp add: sample_entry_def entry_ok_def) (simp add: sample_account_def sample_login_def)

text \<open>C9: starting from a well formed cache, any sequence of logins (\<^verbatim>\<open>insert_user_in_cache\<close> at index
  \<^verbatim>\<open>get_num_connected_users\<close>) and logouts (\<^verbatim>\<open>remove_user_in_cache\<close>) that never needs more than \<^verbatim>\<open>MAX_CLIENTS\<close>
  entries runs without a fault, keeps the cache well formed (255 terminated entries, the used ones a
  prefix), and a lookup by display name then finds exactly what it finds in the list of users that the
  sequence builds: appended on login, first match dropped on logout.\<close>

theorem cache_refines_user_list:
  assumes "wf_cache c"
    and "length (users c) + length (filter isl ops) \<le> MAX_CLIENTS"
    and "list_all (\<lambda>x. case x of Inl a \<Rightarrow> entry_ok a | Inr a \<Rightarrow> terminated (ua_display_name a)) ops"
    and "terminated nm"
  shows "\<exists>c'. run_registry (cache_add E w) cache_del ops c = Inr c' \<and> wf_cache c' \<and>
    get_connected_user_by_display_name c' nm =
      Inr (find (\<lambda>u. user_name u = cstr nm)
        (run_users (cache_entry E w) user_name (\<lambda>a. cstr (ua_display_name a)) ops (users c)))"
  using assms by (rule active.run_then_lookup)

theorem cache_refines_user_list_witness:
  "\<exists>c'. run_registry (cache_add mem_env mem_empty) cache_del
      [Inl sample_entry, Inl sample_entry, Inr sample_account] empty_cache = Inr c' \<and> wf_cache c' \<and>
    get_connected_user_by_display_name c' (lit ''benny'') = Inr (Some (cache_entry mem_env mem_empty sample_entry))"
proof -
  have n: "user_name (cache_entry mem_env mem_empty sample_entry) = ''benny''"
    "cstr (ua_display_name sample_account) = ''benny''" "terminated (ua_display_name sample_account)"
    by (simp_all add: cache_entry_def sample_entry_def) (simp_all add: sample_account_def)
  show ?thesis
    using cache_refines_user_list [of empty_cache "[Inl sample_entry, Inl sample_entry, Inr sample_account]"
        "lit ''benny''" mem_env mem_empty] n
    by simp
qed

text \<open>The insertion has no bound check: with all 255 entries in use the next login writes behind the
  end of the array \<^verbatim>\<open>active_users\<close>.\<close>

lemma cache_insert_overflow:
  assumes "wf_cache c" and "length (users c) = MAX_CLIENTS" and "entry_ok (fd, a, l)"
  shows "cache_add E w c (fd, a, l) = Inl BufferOverflow"
  using assms by (simp add: cache_add_def insert_user_fields wf_cache_def)

definition full_cache :: "connected_user list" where
  "full_cache = replicate MAX_CLIENTS (cache_entry mem_env mem_empty sample_entry)"

lemma cache_insert_overflow_witness:
  "cache_add mem_env mem_empty full_cache sample_entry = Inl BufferOverflow"
proof -
  have "wf_cache full_cache" "length (users full_cache) = MAX_CLIENTS"
    using wf_cacheI [of full_cache "[]"] cache_entry_wf [OF sample_entry_ok, of mem_env mem_empty]
    by (simp_all add: full_cache_def list_all_iff)
  then show ?thesis
    using cache_insert_overflow [of full_cache "fst sample_entry" "fst (snd sample_entry)" "snd (snd sample_entry)"
      mem_env mem_empty] by simp
qed

end
