(* ===== verification/Wire.thy ===== *)
theory Wire
  imports Cache
begin

unbundle bit_operations_syntax

text \<open>
  The protocol on the wire. \<open>server\<close> is the state the handlers of \<^verbatim>\<open>src/server.c\<close> work on: the outside world
  (databases, heap, clock), what arrives on each descriptor, what has been written, which descriptors
  are closed, and the cache of connected users. A message is a header of four bytes in network order
  and a body whose length the header gives; \<open>read_header\<close> and \<open>create_response_header\<close> are inverse to each
  other on hosts of either byte order. The locale \<open>responder\<close> states what the nine functions
  \<^verbatim>\<open>send_..._response\<close> have in common, and is interpreted on each of them.
\<close>

abbreviation DEFAULT_BUFFER :: nat where "DEFAULT_BUFFER \<equiv> 1024"

abbreviation TEMP_CHANNEL_INFO_LENGTH :: nat where "TEMP_CHANNEL_INFO_LENGTH \<equiv> 8192"

section \<open>The state and the system calls\<close>

text \<open>What arrives on a descriptor is a list of segments: one \<^verbatim>\<open>read\<close> returns bytes of one segment, so that
  the boundaries are the places where a read comes up short. An empty result stands for the end of the
  stream and for an error alike: every caller treats the two in the same way.\<close>

record 'w server =
  world :: 'w
  inq :: "int \<Rightarrow> bytes list"
  sent :: "(int \<times> bytes) list"
  closed :: "int list"
  cache :: "connected_user list"

definition sys_read :: "'w server \<Rightarrow> int \<Rightarrow> nat \<Rightarrow> bytes \<times> 'w server" where
  "sys_read s fd n =
     (if fd \<in> set (closed s) then ([], s)
      else case inq s fd of
        [] \<Rightarrow> ([], s)
      | seg # segs \<Rightarrow>
          if length seg \<le> n then (seg, s\<lparr>inq := (inq s)(fd := segs)\<rparr>)
          else (take n seg, s\<lparr>inq := (inq s)(fd := drop n seg # segs)\<rparr>))"

definition sys_write :: "'w env \<Rightarrow> 'w server \<Rightarrow> int \<Rightarrow> bytes \<Rightarrow> bool \<times> 'w server" where
  "sys_write E s fd b =
     (if fd \<in> set (closed s) \<or> \<not> write_ok E (world s) fd b then (False, s)
      else (True, s\<lparr>sent := sent s @ [(fd, b)]\<rparr>))"

definition sys_close :: "int \<Rightarrow> 'w server \<Rightarrow> 'w server" where
  "sys_close fd s = s\<lparr>closed := fd # closed s\<rparr>"

section \<open>Headers\<close>

record chat_header =
  h_version :: "4 word"
  h_type :: "4 word"
  h_object :: "8 word"
  h_body_size :: "16 word"

abbreviation CURRENT_VERSION :: "4 word" where "CURRENT_VERSION \<equiv> 1"

definition read_header :: "'w env \<Rightarrow> 'w server \<Rightarrow> int \<Rightarrow> ((int \<times> chat_header) \<times> 'w server) result" where
  "read_header E s fd =
     (let (bs, s) = sys_read s fd 1
      in bindR (assertR (length bs = 1)) (\<lambda>_.
        let val = ntohl (host_le E) (of_mem32 (host_le E) bs);
            (bs2, s) = sys_read s fd 3
        in bindR (assertR (length bs2 = 3)) (\<lambda>_.
          let header2 = ntohl (host_le E) (of_mem32 (host_le E) bs2)
          in Inr ((0, \<lparr>h_version = ucast (drop_bit 28 val AND 0x0F), h_type = ucast (drop_bit 24 val AND 0x0F),
              h_object = ucast (drop_bit 24 header2 AND 0xFF),
              h_body_size = ucast (drop_bit 8 header2 AND 0xFFFF)\<rparr>), s))))"

definition create_response_header :: "bool \<Rightarrow> chat_header \<Rightarrow> 32 word" where
  "create_response_header le header =
     htonl le (push_bit 28 (ucast (h_version header)) OR push_bit 24 (ucast (h_type header)) OR
       push_bit 16 (ucast (h_object header)) OR ucast (h_body_size header))"

section \<open>Request bodies\<close>

text \<open>\<open>read_buffer\<close> is the read into the zeroed array \<^verbatim>\<open>buffer[DEFAULT_BUFFER]\<close> with which each handler starts,
  and \<open>read_body\<close> that read with its check and with the log line that prints the array as a string:
  \<open>None\<close> is the branch for a short read.\<close>

definition read_buffer :: "'w server \<Rightarrow> int \<Rightarrow> 16 word \<Rightarrow> ((nat \<times> bytes) \<times> 'w server) result" where
  "read_buffer s fd n =
     (let (bs, s) = sys_read s fd (unat n)
      in if DEFAULT_BUFFER < length bs then Inl BufferOverflow
         else Inr ((length bs, nul_pad DEFAULT_BUFFER bs), s))"

definition read_body :: "'w server \<Rightarrow> int \<Rightarrow> 16 word \<Rightarrow> (string option \<times> 'w server) result" where
  "read_body s fd n =
     bindR (read_buffer s fd n) (\<lambda>((nread, buffer), s).
       if nread = 0 \<or> nread \<noteq> unat n then Inr (None, s)
       else bindR (c_string buffer) (\<lambda>body. Inr (Some body, s)))"

section \<open>Responses\<close>

text \<open>The part that ends each of the functions \<^verbatim>\<open>send_..._response\<close>.\<close>

definition send_frame :: "'w env \<Rightarrow> 'w server \<Rightarrow> int \<Rightarrow> chat_header \<Rightarrow> bytes \<Rightarrow> (int \<times> 'w server) result" where
  "send_frame E s fd header body =
     bindR (strlen body) (\<lambda>n.
       let size = word_of_nat n;
           header_int = create_response_header (host_le E) (header\<lparr>h_body_size := size\<rparr>);
           (ok, s) = sys_write E s fd (mem32 (host_le E) header_int)
       in if \<not> ok then Inr (-1, s)
          else bindR (memcpy_prefix body (unat size)) (\<lambda>b.
            let (ok, s) = sys_write E s fd b
            in if \<not> ok then Inr (-1, s) else Inr (0, s)))"

fun cat_all :: "bytes \<Rightarrow> bytes list \<Rightarrow> bytes result" where
  "cat_all body [] = Inr body"
| "cat_all body (x # xs) = bindR (strcat body x) (\<lambda>body. cat_all body xs)"

definition build :: "nat \<Rightarrow> string \<Rightarrow> bytes list \<Rightarrow> bytes option result" where
  "build n head parts =
     bindR (sprintf (zeros n) head) (\<lambda>body. bindR (cat_all body parts) (\<lambda>body. Inr (Some body)))"

text \<open>\<open>build n head parts\<close>: the \<^verbatim>\<open>strcpy\<close> or \<^verbatim>\<open>sprintf\<close> of \<open>head\<close> into \<^verbatim>\<open>body[n]\<close>, then a \<^verbatim>\<open>strcat\<close> for each part.
  \<open>msg s\<close> is the literal \<^verbatim>\<open>s\<close> followed by ETX.\<close>

definition msg :: "string \<Rightarrow> string" where
  "msg s = s @ [ETX]"

definition respond ::
  "'w env \<Rightarrow> 'w server \<Rightarrow> int \<Rightarrow> chat_header \<Rightarrow> bytes option result \<Rightarrow> (int \<times> 'w server) result"
where
  "respond E s fd header body =
     bindR body (\<lambda>b. case b of None \<Rightarrow> Inr (-1, s) | Some b \<Rightarrow> send_frame E s fd header b)"

definition send_create_user_response ::
  "'w env \<Rightarrow> 'w server \<Rightarrow> int \<Rightarrow> chat_header \<Rightarrow> int \<Rightarrow> bytes \<Rightarrow> (int \<times> 'w server) result"
where
  "send_create_user_response E s fd header result token =
     respond E s fd header
      (if result = 0 then build DEFAULT_BUFFER (msg ''201'') [token]
       else
         let head = msg ''409'' @ msg (show_int result)
         in if result = 1 then build DEFAULT_BUFFER head [lit ''Login Token was not unique'']
            else if result = 2 then build DEFAULT_BUFFER head [lit ''Display Name was not unique'']
            else if result = 3 then build DEFAULT_BUFFER head [lit ''Login Token and Display name both were not unique'']
            else Inl AssertFailed)"

definition send_destroy_user_response ::
  "'w env \<Rightarrow> 'w server \<Rightarrow> int \<Rightarrow> chat_header \<Rightarrow> int \<Rightarrow> bytes \<Rightarrow> (int \<times> 'w server) result"
where
  "send_destroy_user_response E s fd header result token =
     respond E s fd header
      (if result = 0 then build DEFAULT_BUFFER (msg ''204'') [token]
       else if result = 1 then build DEFAULT_BUFFER (msg ''400'') [lit ''Invalid request fields'', token]
       else if result = 2 then build DEFAULT_BUFFER (msg ''404'') [lit ''User does not exist'', token]
       else if result = 3 then build DEFAULT_BUFFER (msg ''403'') [lit ''Invalid credentials'', token]
       else Inl AssertFailed)"

definition send_login_user_response ::
  "'w env \<Rightarrow> 'w server \<Rightarrow> int \<Rightarrow> chat_header \<Rightarrow> int \<Rightarrow> bytes \<Rightarrow> (int \<times> 'w server) result"
where
  "send_login_user_response E s fd header result token =
     respond E s fd header
      (if result = 0 then build DEFAULT_BUFFER (msg ''200'') [token]
       else if result = 1 then build DEFAULT_BUFFER (msg ''403'') [lit ''Login Token and password does not match'', token]
       else if result = 2 then build DEFAULT_BUFFER (msg ''400'') [lit ''Invalid Login Token or password'', token]
       else Inl AssertFailed)"

definition send_logout_user_response ::
  "'w env \<Rightarrow> 'w server \<Rightarrow> int \<Rightarrow> chat_header \<Rightarrow> int \<Rightarrow> bytes \<Rightarrow> (int \<times> 'w server) result"
where
  "send_logout_user_response E s fd header result token =
     bindR (respond E s fd header
      (if result = 0 then build DEFAULT_BUFFER (msg ''200'') [token]
       else if result = 1 then build DEFAULT_BUFFER (msg ''400'') [lit ''Invalid fields provided'', token]
       else if result = 2 then
         build DEFAULT_BUFFER (msg ''403'') [lit ''Connection ip address does not match address in database'', token]
       else if result = 3 then build DEFAULT_BUFFER (msg ''404'') [lit ''User does not exist'', token]
       else if result = 4 then build DEFAULT_BUFFER (msg ''412'') [lit ''User is not currently online'', token]
       else if result = 9 then
         build DEFAULT_BUFFER (msg ''333'') [lit ''Account has been accessed on another device'', token]
       else if result = 500 then build DEFAULT_BUFFER (msg ''500'') [lit (msg ''Internal server error'')]
       else Inl AssertFailed))
     (\<lambda>(r, s). if r = 0 then Inr (0, sys_close fd s) else Inr (r, s))"

definition send_create_channel_response ::
  "'w env \<Rightarrow> 'w server \<Rightarrow> int \<Rightarrow> chat_header \<Rightarrow> int \<Rightarrow> bytes \<Rightarrow> (int \<times> 'w server) result"
where
  "send_create_channel_response E s fd header result token =
     respond E s fd header
      (if result = 0 then build DEFAULT_BUFFER (msg ''201'') [token]
       else
         let head = msg (show_int result)
         in if result = 400 then build DEFAULT_BUFFER head [lit (msg ''Invalid request'')]
            else if result = 404 then build DEFAULT_BUFFER head [lit (msg ''Display name NOT found'')]
            else if result = 409 then build DEFAULT_BUFFER head [lit (msg ''Channel name is not unique'')]
            else if result = 403 then build DEFAULT_BUFFER head [lit (msg ''Display name does not match'')]
            else if result = 500 then build DEFAULT_BUFFER head [lit (msg ''Internal server error'')]
            else bindR (build DEFAULT_BUFFER head []) (\<lambda>_. Inr None))"

definition send_create_message_response ::
  "'w env \<Rightarrow> 'w server \<Rightarrow> int \<Rightarrow> chat_header \<Rightarrow> int \<Rightarrow> bytes \<Rightarrow> (int \<times> 'w server) result"
where
  "send_create_message_response E s fd header result token =
     respond E s fd header
      (if result = 0 then build DEFAULT_BUFFER (msg ''201'') [token]
       else if result = 1 then build DEFAULT_BUFFER (msg ''400'') [lit ''Invalid request'', token]
       else if result = 2 then build DEFAULT_BUFFER (msg ''404'') [lit ''Channel does not exist'', token]
       else if result = 3 then
         build DEFAULT_BUFFER (msg ''404'') [lit ''Referenced display name does not exist'', token]
       else if result = 4 then
         build DEFAULT_BUFFER (msg ''403'') [lit ''Referenced display name does not exist'', token]
       else if result = 5 then build DEFAULT_BUFFER (msg ''200'') [token]
       else Inl AssertFailed)"

definition send_read_channel_response ::
  "'w env \<Rightarrow> 'w server \<Rightarrow> int \<Rightarrow> chat_header \<Rightarrow> int \<Rightarrow> bytes \<Rightarrow> (int \<times> 'w server) result"
where
  "send_read_channel_response E s fd header result channel_info_token =
     respond E s fd header
      (if result = 0 then build TEMP_CHANNEL_INFO_LENGTH (msg ''200'') [channel_info_token]
       else
         let head = msg (show_int result)
         in if result = 400 then build TEMP_CHANNEL_INFO_LENGTH head [lit (msg ''Invalid request'')]
            else if result = 404 then build TEMP_CHANNEL_INFO_LENGTH head [lit (msg ''Channel name NOT found'')]
            else if result = 500 then build TEMP_CHANNEL_INFO_LENGTH head [lit (msg ''Internal server error'')]
            else bindR (build TEMP_CHANNEL_INFO_LENGTH head []) (\<lambda>_. Inr None))"

definition send_update_channel_response ::
  "'w env \<Rightarrow> 'w server \<Rightarrow> int \<Rightarrow> chat_header \<Rightarrow> int \<Rightarrow> bytes \<Rightarrow> (int \<times> 'w server) result"
where
  "send_update_channel_response E s fd header result channel_info_token =
     respond E s fd header
      (if result = 0 then build TEMP_CHANNEL_INFO_LENGTH (msg ''200'') [channel_info_token]
       else
         let head = msg (show_int result)
         in if result = 400 then build TEMP_CHANNEL_INFO_LENGTH head [lit (msg ''Invalid request'')]
            else if result = 404 then
              build TEMP_CHANNEL_INFO_LENGTH head [lit (msg ''Channel name or user's display name NOT found'')]
            else if result = 500 then build TEMP_CHANNEL_INFO_LENGTH head [lit (msg ''Internal server error'')]
            else bindR (build TEMP_CHANNEL_INFO_LENGTH head []) (\<lambda>_. Inr None))"

definition send_read_message_response ::
  "'w env \<Rightarrow> 'w server \<Rightarrow> int \<Rightarrow> chat_header \<Rightarrow> int \<Rightarrow> bytes \<Rightarrow> (int \<times> 'w server) result"
where
  "send_read_message_response E s fd header result message_info_token =
     respond E s fd header
      (if result = 0 then build (MAX_MSG_HISTORY_RES + 200) (msg ''200'') [message_info_token]
       else
         let head = msg (show_int result)
         in if result = 206 then build (MAX_MSG_HISTORY_RES + 200) head [lit (msg ''Invalid request'')]
            else bindR (build (MAX_MSG_HISTORY_RES + 200) head []) (\<lambda>_. Inr None))"

section \<open>Lemmas\<close>

text \<open>The four bytes of a header.\<close>

definition header_bytes :: "chat_header \<Rightarrow> 8 word list" where
  "header_bytes h =
     [push_bit 4 (ucast (h_version h)) OR ucast (h_type h), h_object h, ucast (drop_bit 8 (h_body_size h)), ucast (h_body_size h)]"

definition wire_header :: "chat_header \<Rightarrow> bytes" where
  "wire_header h = map byte_chr (header_bytes h)"

lemma length_wire_header [simp]: "length (wire_header h) = 4"
  by (simp add: wire_header_def header_bytes_def)

lemma serialize_header:
  "push_bit 28 (ucast v) OR push_bit 24 (ucast t) OR push_bit 16 (ucast ob) OR ucast bs =
     of_be (push_bit 4 (ucast v) OR ucast t) ob (ucast (drop_bit 8 bs)) (ucast bs)"
  for v t :: "4 word" and ob :: "8 word" and bs :: "16 word"
proof (rule bit_word_eqI)
  fix n
  assume "n < LENGTH(32)"
  then consider "n < 8" | "8 \<le> n" "n < 16" | "16 \<le> n" "n < 24" | "24 \<le> n" "n < 28" | "28 \<le> n" "n < 32"
    by fastforce
  then show "bit (push_bit 28 (ucast v) OR push_bit 24 (ucast t) OR push_bit 16 (ucast ob) OR ucast bs :: 32 word) n =
      bit (of_be (push_bit 4 (ucast v) OR ucast t) ob (ucast (drop_bit 8 bs)) (ucast bs)) n"
    by cases (auto simp: of_be_def bit_simps dest: bit_imp_le_length)
qed

lemma mem32_response_header: "mem32 le (create_response_header le h) = wire_header h"
  by (simp add: create_response_header_def serialize_header mem32_htonl wire_header_def header_bytes_def)

lemma version_field: "ucast (drop_bit 28 (of_be (push_bit 4 (ucast v) OR ucast t) b c d) AND 0x0F) = v"
  for v t :: "4 word"
proof (rule bit_word_eqI)
  fix n
  assume n: "n < LENGTH(4)"
  have "bit (0x0F :: 32 word) n" using n by (auto simp: less_Suc_eq numeral_eq_Suc)
  then show "bit (ucast (drop_bit 28 (of_be (push_bit 4 (ucast v) OR ucast t) b c d) AND 0x0F) :: 4 word) n = bit v n"
    using n by (auto simp: of_be_def bit_simps byte_bit_high dest: bit_imp_le_length)
qed

lemma type_field: "ucast (drop_bit 24 (of_be (push_bit 4 (ucast v) OR ucast t) b c d) AND 0x0F) = t"
  for v t :: "4 word"
proof (rule bit_word_eqI)
  fix n
  assume n: "n < LENGTH(4)"
  have "bit (0x0F :: 32 word) n" using n by (auto simp: less_Suc_eq numeral_eq_Suc)
  then show "bit (ucast (drop_bit 24 (of_be (push_bit 4 (ucast v) OR ucast t) b c d) AND 0x0F) :: 4 word) n = bit t n"
    using n by (auto simp: of_be_def bit_simps byte_bit_high dest: bit_imp_le_length)
qed

lemma object_field: "ucast (drop_bit 24 (of_be a b c d) AND 0xFF) = a"
proof -
  have m: "(0xFF :: 32 word) = mask 8" by (simp add: mask_eq_exp_minus_1)
  show ?thesis unfolding m
    by (rule bit_word_eqI) (auto simp: of_be_def bit_simps byte_bit_high)
qed

lemma body_size_field:
  "ucast (drop_bit 8 (of_be a (ucast (drop_bit 8 bs)) (ucast bs) 0) AND 0xFFFF) = bs" for bs :: "16 word"
proof -
  have m: "(0xFFFF :: 32 word) = mask 16" by (simp add: mask_eq_exp_minus_1)
  show ?thesis unfolding m
  proof (rule bit_word_eqI)
    fix n
    assume "n < LENGTH(16)"
    then consider "n < 8" | "8 \<le> n" "n < 16" by fastforce
    then show "bit (ucast (drop_bit 8 (of_be a (ucast (drop_bit 8 bs)) (ucast bs) 0) AND mask 16) :: 16 word) n = bit bs n"
      by cases (auto simp: of_be_def bit_simps byte_bit_high)
  qed
qed

text \<open>What the next \<^verbatim>\<open>read\<close> on a descriptor can return, and the state after it.\<close>

definition pending :: "'w server \<Rightarrow> int \<Rightarrow> bytes" where
  "pending s fd = (if fd \<in> set (closed s) then [] else case inq s fd of [] \<Rightarrow> [] | seg # _ \<Rightarrow> seg)"

definition consume :: "'w server \<Rightarrow> int \<Rightarrow> nat \<Rightarrow> 'w server" where
  "consume s fd n = snd (sys_read s fd n)"

lemma sys_read_eq: "sys_read s fd n = (take n (pending s fd), consume s fd n)"
  by (simp add: consume_def) (simp add: sys_read_def pending_def split: list.splits)

lemma consume_simps [simp]:
  "world (consume s fd n) = world s" "sent (consume s fd n) = sent s" "closed (consume s fd n) = closed s"
  "cache (consume s fd n) = cache s"
  by (simp_all add: consume_def sys_read_def split: list.splits)

lemma pending_consume: "n < length (pending s fd) \<Longrightarrow> pending (consume s fd n) fd = drop n (pending s fd)"
  by (auto simp: pending_def consume_def sys_read_def split: list.splits if_splits)

lemma read_header_spec:
  assumes P: "pending s fd = wire_header h @ r"
  shows "read_header E s fd = Inr ((0, h), consume (consume s fd 1) fd 3)"
proof -
  obtain a b c d where h: "header_bytes h = [a, b, c, d]" by (simp add: header_bytes_def)
  have f: "a = push_bit 4 (ucast (h_version h)) OR ucast (h_type h)" "b = h_object h" "c = ucast (drop_bit 8 (h_body_size h))"
    "d = ucast (h_body_size h)" using h by (simp_all add: header_bytes_def)
  have w: "wire_header h = [byte_chr a, byte_chr b, byte_chr c, byte_chr d]"
    by (simp add: wire_header_def h)
  have v: "ntohl (host_le E) (of_mem32 (host_le E) [byte_chr a]) = of_be a 0 0 0"
    "ntohl (host_le E) (of_mem32 (host_le E) [byte_chr b, byte_chr c, byte_chr d]) = of_be b c d 0"
    by (simp_all add: ntohl_of_mem32 Let_def nul_pad_def zeros_def numeral_eq_Suc)
  have "pending (consume s fd 1) fd = [byte_chr b, byte_chr c, byte_chr d] @ r"
    using pending_consume [of 1 s fd] P w by simp
  then show ?thesis
    using P by (simp add: read_header_def sys_read_eq w Let_def v)
      (simp add: f version_field type_field object_field body_size_field)
qed

lemma read_header_disconnect:
  "pending s fd = [] \<Longrightarrow> read_header E s fd = Inl AssertFailed"
  by (simp add: read_header_def sys_read_eq)

lemma cstr_append_zeros: "cstr (b @ zeros k) = cstr b"
  by (induction b) simp_all

lemma terminated_append_zeros: "terminated (b @ zeros k) \<longleftrightarrow> NUL \<in> set b \<or> 0 < k"
  by (simp add: terminated_def zeros_def)

lemma read_body_spec:
  assumes "take (unat n) (pending s fd) = body" "length body \<le> DEFAULT_BUFFER"
  shows "read_body s fd n =
    (if body = [] \<or> length body \<noteq> unat n then Inr (None, consume s fd (unat n))
     else if length body = DEFAULT_BUFFER \<and> NUL \<notin> set body then Inl Overread
     else Inr (Some (cstr body), consume s fd (unat n)))"
proof -
  have "c_string (nul_pad DEFAULT_BUFFER body) =
      (if length body = DEFAULT_BUFFER \<and> NUL \<notin> set body then Inl Overread else Inr (cstr body))"
    unfolding c_string_def nul_pad_def cstr_append_zeros terminated_append_zeros
    using assms(2) by auto
  then show ?thesis
    using assms by (simp add: read_body_def read_buffer_def sys_read_eq)
qed

lemma cat_all_spec:
  "list_all terminated xs \<Longrightarrow> NUL \<notin> set t \<Longrightarrow> length t + length (concat (map cstr xs)) < n \<Longrightarrow>
     \<exists>pad'. cat_all (lit t @ pad) xs = Inr (lit (t @ concat (map cstr xs)) @ pad') \<and>
       length (lit (t @ concat (map cstr xs)) @ pad') = n"
  if "length (lit t @ pad) = n" for pad
  using that
proof (induction xs arbitrary: t pad)
  case (Cons x xs)
  let ?pad = "drop (Suc (length t + length (cstr x))) (lit t @ pad)"
  have "strcat (lit t @ pad) x = Inr (lit (t @ cstr x) @ ?pad)"
    using Cons.prems by (simp add: clib)
  moreover have "length (lit (t @ cstr x) @ ?pad) = n" using Cons.prems by simp
  moreover have "\<exists>pad'. cat_all (lit (t @ cstr x) @ ?pad) xs = Inr (lit ((t @ cstr x) @ concat (map cstr xs)) @ pad') \<and>
      length (lit ((t @ cstr x) @ concat (map cstr xs)) @ pad') = n"
    by (rule Cons.IH) (use Cons.prems in simp_all)
  ultimately show ?case by simp
qed simp

text \<open>A body built from a head and parts that fit is the concatenation of their strings.\<close>

lemma build_spec:
  assumes "list_all terminated parts" "NUL \<notin> set head" "length head + length (concat (map cstr parts)) < n"
  shows "\<exists>pad. build n head parts = Inr (Some (lit (head @ concat (map cstr parts)) @ pad))"
proof -
  have "sprintf (zeros n) head = Inr (lit head @ zeros (n - Suc (length head)))"
    using assms by (simp add: sprintf_def clib)
  moreover have "length (lit head @ zeros (n - Suc (length head))) = n" using assms by simp
  from cat_all_spec [OF this assms(1,2,3)]
  obtain pad where "cat_all (lit head @ zeros (n - Suc (length head))) parts =
      Inr (lit (head @ concat (map cstr parts)) @ pad)" by blast
  ultimately show ?thesis by (simp add: build_def)
qed

lemma msg_no_NUL [simp]: "NUL \<in> set (msg s) \<longleftrightarrow> NUL \<in> set s"
  by (simp add: msg_def)

lemma length_msg [simp]: "length (msg s) = Suc (length s)"
  by (simp add: msg_def)

definition can_write :: "'w env \<Rightarrow> 'w server \<Rightarrow> int \<Rightarrow> bool" where
  "can_write E s fd \<longleftrightarrow> fd \<notin> set (closed s) \<and> (\<forall>b. write_ok E (world s) fd b)"

definition framed :: "chat_header \<Rightarrow> int \<Rightarrow> string \<Rightarrow> (int \<times> bytes) list" where
  "framed h fd t = [(fd, wire_header (h\<lparr>h_body_size := word_of_nat (length t)\<rparr>)), (fd, t)]"

lemma send_frame_spec:
  assumes "can_write E s fd" "NUL \<notin> set t" "length t < 65536"
  shows "send_frame E s fd h (lit t @ pad) = Inr (0, s\<lparr>sent := sent s @ framed h fd t\<rparr>)"
proof -
  have "unat (word_of_nat (length t) :: 16 word) = length t"
    using assms(3) by (simp add: unat_of_nat)
  then show ?thesis
    using assms by (simp add: send_frame_def strlen_def c_string_def sys_write_def can_write_def
        mem32_response_header Let_def memcpy_prefix_def framed_def) (simp add: lit_def)
qed

lemma send_frame_total:
  assumes "NUL \<notin> set t" "length t < 65536"
  shows "\<exists>q s'. send_frame E s fd h (lit t @ pad) = Inr (q, s') \<and> world s' = world s \<and> cache s' = cache s"
proof -
  have "unat (word_of_nat (length t) :: 16 word) = length t"
    using assms(2) by (simp add: unat_of_nat)
  then show ?thesis
    using assms(1) by (simp add: send_frame_def strlen_def c_string_def sys_write_def Let_def memcpy_prefix_def)
qed

section \<open>The interface\<close>

text \<open>A responder turns the result code of a handler and its output token into a text and sends it as one
  frame; \<open>fin\<close> is what it does to the descriptor afterwards (only the logout closes it).\<close>

locale responder =
  fixes send :: "'w env \<Rightarrow> 'w server \<Rightarrow> int \<Rightarrow> chat_header \<Rightarrow> int \<Rightarrow> bytes \<Rightarrow> (int \<times> 'w server) result"
    and reply :: "int \<Rightarrow> string \<Rightarrow> string option"
    and cap :: nat
    and fin :: "int \<Rightarrow> 'w server \<Rightarrow> 'w server"
  assumes send_law: "terminated token \<Longrightarrow> reply r (cstr token) = Some t \<Longrightarrow> length t < cap \<Longrightarrow>
      \<exists>pad. send E s fd h r token =
        bindR (send_frame E s fd h (lit t @ pad)) (\<lambda>(q, s). Inr (q, if q = 0 then fin fd s else s))"
    and reply_clean: "NUL \<notin> set tok \<Longrightarrow> reply r tok = Some t \<Longrightarrow> NUL \<notin> set t"
    and cap_bound: "cap \<le> 65536"
    and fin_frame: "world (fin fd s) = world s" "cache (fin fd s) = cache s"
begin

text \<open>Whether the writes succeed or not, the server goes on with the same databases and the same cache.\<close>

lemma survives:
  assumes "terminated token" "reply r (cstr token) = Some t" "length t < cap"
  shows "\<exists>q s'. send E s fd h r token = Inr (q, s') \<and> world s' = world s \<and> cache s' = cache s"
proof -
  have "NUL \<notin> set t" "length t < 65536"
    using reply_clean [OF cstr_no_NUL assms(2)] assms(3) cap_bound by simp_all
  then have total: "\<exists>q s'. send_frame E s fd h (lit t @ pad) = Inr (q, s') \<and> world s' = world s \<and> cache s' = cache s" for pad
    by (rule send_frame_total)
  from send_law [OF assms, of E s fd h] obtain pad where
    pad: "send E s fd h r token = bindR (send_frame E s fd h (lit t @ pad)) (\<lambda>(q, s). Inr (q, if q = 0 then fin fd s else s))" by blast
  obtain q s' where "send_frame E s fd h (lit t @ pad) = Inr (q, s')" "world s' = world s" "cache s' = cache s"
    using total [of pad] by blast
  then show ?thesis unfolding pad by (simp add: fin_frame)
qed

text \<open>The client gets one frame: the header of its request with the length of the body, then the body.\<close>

lemma delivered:
  assumes "can_write E s fd" "terminated token" "reply r (cstr token) = Some t" "length t < cap"
  shows "send E s fd h r token = Inr (0, fin fd (s\<lparr>sent := sent s @ framed h fd t\<rparr>))"
proof -
  have "NUL \<notin> set t" "length t < 65536"
    using reply_clean [OF cstr_no_NUL assms(3)] assms(4) cap_bound by simp_all
  with send_law [OF assms(2-4), of E s fd h] send_frame_spec [OF assms(1)] show ?thesis by auto
qed

end

definition keep_open :: "int \<Rightarrow> 'w server \<Rightarrow> 'w server" where
  "keep_open fd s = s"

lemma show_int_codes:
  "show_int 1 = ''1''" "show_int 2 = ''2''" "show_int 3 = ''3''" "show_int 400 = ''400''" "show_int 403 = ''403''"
  "show_int 404 = ''404''" "show_int 409 = ''409''" "show_int 500 = ''500''" "show_int 206 = ''206''"
  by (simp_all add: show_int_def show_nat.simps digit_chr_def)

lemma respond_build:
  assumes "list_all terminated parts" "NUL \<notin> set head" "head @ concat (map cstr parts) = t" "length t < n"
  shows "\<exists>pad. respond E s fd h (build n head parts) =
      bindR (send_frame E s fd h (lit t @ pad)) (\<lambda>(q, s). Inr (q, if q = 0 then keep_open fd s else s))"
proof -
  obtain pad where "build n head parts = Inr (Some (lit t @ pad))"
    using build_spec [of parts head n] assms by auto
  moreover have "m = bindR m (\<lambda>(q, s). Inr (q, if q = 0 then keep_open fd s else s))" for m :: "(int \<times> 'a server) result"
    by (cases m) (auto simp: keep_open_def)
  ultimately show ?thesis by (intro exI [of _ pad]) (simp add: respond_def)
qed

definition create_user_reply :: "int \<Rightarrow> string \<Rightarrow> string option" where
  "create_user_reply r tok =
    (if r = 0 then Some (msg ''201'' @ tok)
     else if r = 1 then Some (msg ''409'' @ msg ''1'' @ ''Login Token was not unique'')
     else if r = 2 then Some (msg ''409'' @ msg ''2'' @ ''Display Name was not unique'')
     else if r = 3 then Some (msg ''409'' @ msg ''3'' @ ''Login Token and Display name both were not unique'')
     else None)"

definition destroy_user_reply :: "int \<Rightarrow> string \<Rightarrow> string option" where
  "destroy_user_reply r tok =
    (if r = 0 then Some (msg ''204'' @ tok)
     else if r = 1 then Some (msg ''400'' @ ''Invalid request fields'' @ tok)
     else if r = 2 then Some (msg ''404'' @ ''User does not exist'' @ tok)
     else if r = 3 then Some (msg ''403'' @ ''Invalid credentials'' @ tok)
     else None)"

definition login_user_reply :: "int \<Rightarrow> string \<Rightarrow> string option" where
  "login_user_reply r tok =
    (if r = 0 then Some (msg ''200'' @ tok)
     else if r = 1 then Some (msg ''403'' @ ''Login Token and password does not match'' @ tok)
     else if r = 2 then Some (msg ''400'' @ ''Invalid Login Token or password'' @ tok)
     else None)"

definition logout_user_reply :: "int \<Rightarrow> string \<Rightarrow> string option" where
  "logout_user_reply r tok =
    (if r = 0 then Some (msg ''200'' @ tok)
     else if r = 1 then Some (msg ''400'' @ ''Invalid fields provided'' @ tok)
     else if r = 2 then Some (msg ''403'' @ ''Connection ip address does not match address in database'' @ tok)
     else if r = 3 then Some (msg ''404'' @ ''User does not exist'' @ tok)
     else if r = 4 then Some (msg ''412'' @ ''User is not currently online'' @ tok)
     else if r = 9 then Some (msg ''333'' @ ''Account has been accessed on another device'' @ tok)
     else if r = 500 then Some (msg ''500'' @ msg ''Internal server error'')
     else None)"

definition create_channel_reply :: "int \<Rightarrow> string \<Rightarrow> string option" where
  "create_channel_reply r tok =
    (if r = 0 then Some (msg ''201'' @ tok)
     else if r = 400 then Some (msg ''400'' @ msg ''Invalid request'')
     else if r = 404 then Some (msg ''404'' @ msg ''Display name NOT found'')
     else if r = 409 then Some (msg ''409'' @ msg ''Channel name is not unique'')
     else if r = 403 then Some (msg ''403'' @ msg ''Display name does not match'')
     else if r = 500 then Some (msg ''500'' @ msg ''Internal server error'')
     else None)"

definition create_message_reply :: "int \<Rightarrow> string \<Rightarrow> string option" where
  "create_message_reply r tok =
    (if r = 0 then Some (msg ''201'' @ tok)
     else if r = 1 then Some (msg ''400'' @ ''Invalid request'' @ tok)
     else if r = 2 then Some (msg ''404'' @ ''Channel does not exist'' @ tok)
     else if r = 3 then Some (msg ''404'' @ ''Referenced display name does not exist'' @ tok)
     else if r = 4 then Some (msg ''403'' @ ''Referenced display name does not exist'' @ tok)
     else if r = 5 then Some (msg ''200'' @ tok)
     else None)"

definition read_channel_reply :: "int \<Rightarrow> string \<Rightarrow> string option" where
  "read_channel_reply r tok =
    (if r = 0 then Some (msg ''200'' @ tok)
     else if r = 400 then Some (msg ''400'' @ msg ''Invalid request'')
     else if r = 404 then Some (msg ''404'' @ msg ''Channel name NOT found'')
     else if r = 500 then Some (msg ''500'' @ msg ''Internal server error'')
     else None)"

definition update_channel_reply :: "int \<Rightarrow> string \<Rightarrow> string option" where
  "update_channel_reply r tok =
    (if r = 0 then Some (msg ''200'' @ tok)
     else if r = 400 then Some (msg ''400'' @ msg ''Invalid request'')
     else if r = 404 then Some (msg ''404'' @ msg ''Channel name or user's display name NOT found'')
     else if r = 500 then Some (msg ''500'' @ msg ''Internal server error'')
     else None)"

definition read_message_reply :: "int \<Rightarrow> string \<Rightarrow> string option" where
  "read_message_reply r tok =
    (if r = 0 then Some (msg ''200'' @ tok)
     else if r = 206 then Some (msg ''206'' @ msg ''Invalid request'')
     else None)"

interpretation r_create_user: responder send_create_user_response create_user_reply DEFAULT_BUFFER keep_open
proof
  show "\<exists>pad. send_create_user_response E s fd h r token =
      bindR (send_frame E s fd h (lit t @ pad)) (\<lambda>(q, s). Inr (q, if q = 0 then keep_open fd s else s))"
    if "terminated token" "create_user_reply r (cstr token) = Some t" "length t < DEFAULT_BUFFER"
    for token r t E s fd h
    using that unfolding send_create_user_response_def create_user_reply_def Let_def
    by (auto simp: show_int_codes split: if_splits intro!: respond_build)
qed (auto simp: create_user_reply_def keep_open_def split: if_splits)

interpretation r_destroy_user: responder send_destroy_user_response destroy_user_reply DEFAULT_BUFFER keep_open
proof
  show "\<exists>pad. send_destroy_user_response E s fd h r token =
      bindR (send_frame E s fd h (lit t @ pad)) (\<lambda>(q, s). Inr (q, if q = 0 then keep_open fd s else s))"
    if "terminated token" "destroy_user_reply r (cstr token) = Some t" "length t < DEFAULT_BUFFER"
    for token r t E s fd h
    using that unfolding send_destroy_user_response_def destroy_user_reply_def Let_def
    by (auto simp: show_int_codes split: if_splits intro!: respond_build)
qed (auto simp: destroy_user_reply_def keep_open_def split: if_splits)

interpretation r_login: responder send_login_user_response login_user_reply DEFAULT_BUFFER keep_open
proof
  show "\<exists>pad. send_login_user_response E s fd h r token =
      bindR (send_frame E s fd h (lit t @ pad)) (\<lambda>(q, s). Inr (q, if q = 0 then keep_open fd s else s))"
    if "terminated token" "login_user_reply r (cstr token) = Some t" "length t < DEFAULT_BUFFER"
    for token r t E s fd h
    using that unfolding send_login_user_response_def login_user_reply_def Let_def
    by (auto simp: show_int_codes split: if_splits intro!: respond_build)
qed (auto simp: login_user_reply_def keep_open_def split: if_splits)

interpretation r_create_channel: responder send_create_channel_response create_channel_reply DEFAULT_BUFFER keep_open
proof
  show "\<exists>pad. send_create_channel_response E s fd h r token =
      bindR (send_frame E s fd h (lit t @ pad)) (\<lambda>(q, s). Inr (q, if q = 0 then keep_open fd s else s))"
    if "terminated token" "create_channel_reply r (cstr token) = Some t" "length t < DEFAULT_BUFFER"
    for token r t E s fd h
    using that unfolding send_create_channel_response_def create_channel_reply_def Let_def
    by (auto simp: show_int_codes split: if_splits intro!: respond_build)
qed (auto simp: create_channel_reply_def keep_open_def split: if_splits)

interpretation r_create_message: responder send_create_message_response create_message_reply DEFAULT_BUFFER keep_open
proof
  show "\<exists>pad. send_create_message_response E s fd h r token =
      bindR (send_frame E s fd h (lit t @ pad)) (\<lambda>(q, s). Inr (q, if q = 0 then keep_open fd s else s))"
    if "terminated token" "create_message_reply r (cstr token) = Some t" "length t < DEFAULT_BUFFER"
    for token r t E s fd h
    using that unfolding send_create_message_response_def create_message_reply_def Let_def
    by (auto simp: show_int_codes split: if_splits intro!: respond_build)
qed (auto simp: create_message_reply_def keep_open_def split: if_splits)

interpretation r_read_channel: responder send_read_channel_response read_channel_reply TEMP_CHANNEL_INFO_LENGTH keep_open
proof
  show "\<exists>pad. send_read_channel_response E s fd h r token =
      bindR (send_frame E s fd h (lit t @ pad)) (\<lambda>(q, s). Inr (q, if q = 0 then keep_open fd s else s))"
    if "terminated token" "read_channel_reply r (cstr token) = Some t" "length t < TEMP_CHANNEL_INFO_LENGTH"
    for token r t E s fd h
    using that unfolding send_read_channel_response_def read_channel_reply_def Let_def
    by (auto simp: show_int_codes split: if_splits intro!: respond_build)
qed (auto simp: read_channel_reply_def keep_open_def split: if_splits)

interpretation r_update_channel: responder send_update_channel_response update_channel_reply TEMP_CHANNEL_INFO_LENGTH keep_open
proof
  show "\<exists>pad. send_update_channel_response E s fd h r token =
      bindR (send_frame E s fd h (lit t @ pad)) (\<lambda>(q, s). Inr (q, if q = 0 then keep_open fd s else s))"
    if "terminated token" "update_channel_reply r (cstr token) = Some t" "length t < TEMP_CHANNEL_INFO_LENGTH"
    for token r t E s fd h
    using that unfolding send_update_channel_response_def update_channel_reply_def Let_def
    by (auto simp: show_int_codes split: if_splits intro!: respond_build)
qed (auto simp: update_channel_reply_def keep_open_def split: if_splits)

interpretation r_read_message: responder send_read_message_response read_message_reply "MAX_MSG_HISTORY_RES + 200" keep_open
proof
  show "\<exists>pad. send_read_message_response E s fd h r token =
      bindR (send_frame E s fd h (lit t @ pad)) (\<lambda>(q, s). Inr (q, if q = 0 then keep_open fd s else s))"
    if "terminated token" "read_message_reply r (cstr token) = Some t" "length t < (MAX_MSG_HISTORY_RES + 200)"
    for token r t E s fd h
    using that unfolding send_read_message_response_def read_message_reply_def Let_def
    by (auto simp: show_int_codes split: if_splits intro!: respond_build)
qed (auto simp: read_message_reply_def keep_open_def split: if_splits)

lemma respond_close:
  assumes "list_all terminated parts" "NUL \<notin> set head" "head @ concat (map cstr parts) = t" "length t < n"
  shows "\<exists>pad. bindR (respond E s fd h (build n head parts)) (\<lambda>(r, s). if r = 0 then Inr (0, sys_close fd s) else Inr (r, s)) =
      bindR (send_frame E s fd h (lit t @ pad)) (\<lambda>(q, s). Inr (q, if q = 0 then sys_close fd s else s))"
proof -
  obtain pad where "build n head parts = Inr (Some (lit t @ pad))"
    using build_spec [of parts head n] assms by auto
  moreover have "bindR m (\<lambda>(r, s). if r = 0 then Inr (0, sys_close fd s) else Inr (r, s)) =
      bindR m (\<lambda>(q, s). Inr (q, if q = 0 then sys_close fd s else s))" for m :: "(int \<times> 'a server) result"
    by (cases m) auto
  ultimately show ?thesis by (intro exI [of _ pad]) (simp add: respond_def)
qed

interpretation r_logout: responder send_logout_user_response logout_user_reply DEFAULT_BUFFER sys_close
proof
  show "\<exists>pad. send_logout_user_response E s fd h r token =
      bindR (send_frame E s fd h (lit t @ pad)) (\<lambda>(q, s). Inr (q, if q = 0 then sys_close fd s else s))"
    if "terminated token" "logout_user_reply r (cstr token) = Some t" "length t < DEFAULT_BUFFER"
    for token r t E s fd h
    using that unfolding send_logout_user_response_def logout_user_reply_def
    by (auto split: if_splits intro!: respond_close)
qed (auto simp: logout_user_reply_def sys_close_def split: if_splits)

lemmas reply_defs = create_user_reply_def destroy_user_reply_def login_user_reply_def logout_user_reply_def
  create_channel_reply_def create_message_reply_def read_channel_reply_def update_channel_reply_def
  read_message_reply_def

lemma read_frame_spec:
  assumes P: "pending s fd = wire_header h @ t" and T: "t \<noteq> []"
  shows "\<exists>s'. read_header E s fd = Inr ((0, h), s') \<and> pending s' fd = t"
proof -
  have a: "pending (consume s fd 1) fd = drop 1 (wire_header h) @ t"
    using P pending_consume [of 1 s fd] by simp
  then have "pending (consume (consume s fd 1) fd 3) fd = t"
    using T pending_consume [of 3 "consume s fd 1" fd] by simp
  with read_header_spec [OF P] show ?thesis by blast
qed

section \<open>Properties\<close>

text \<open>C7: a header serialized by \<^verbatim>\<open>create_response_header\<close> and written to a socket is read back by
  \<^verbatim>\<open>read_header\<close> as the same header, although the reader takes it in two parts of one and three bytes,
  for every header and on hosts of either byte order (also when the two hosts differ).\<close>

theorem header_roundtrip:
  assumes "pending s fd = mem32 le (create_response_header le h) @ r"
  shows "\<exists>s'. read_header E s fd = Inr ((0, h), s')"
  using read_header_spec [of s fd h r E] assms by (simp add: mem32_response_header)

text \<open>A server state with one segment pending on descriptor 5, used by the witnesses.\<close>

definition state_with :: "bytes \<Rightarrow> mem_world \<Rightarrow> mem_world server" where
  "state_with seg w = \<lparr>world = w, inq = (\<lambda>fd. if fd = 5 then [seg] else []), sent = [], closed = [], cache = empty_cache\<rparr>"

lemma state_with_simps [simp]:
  "pending (state_with seg w) 5 = seg" "world (state_with seg w) = w" "sent (state_with seg w) = []"
  "closed (state_with seg w) = []" "cache (state_with seg w) = empty_cache" "can_write mem_env (state_with seg w) fd"
  by (simp_all add: state_with_def pending_def can_write_def) (simp add: mem_env_def)

theorem header_roundtrip_witness:
  "\<exists>s'. read_header mem_env (state_with (mem32 True (create_response_header True
      \<lparr>h_version = 1, h_type = 4, h_object = 3, h_body_size = 1000\<rparr>) @ ''x'') mem_empty) 5 =
    Inr ((0, \<lparr>h_version = 1, h_type = 4, h_object = 3, h_body_size = 1000\<rparr>), s')"
  by (rule header_roundtrip [of _ _ True _ "''x''"]) simp

text \<open>C8: every response of the server is one well formed frame. For each of the nine senders, a result
  code that the sender knows and a token that fits, the bytes written are a header that \<^verbatim>\<open>read_header\<close> parses
  to the header of the request with the length of the body, followed by a body that is the status code,
  ETX and the text of the protocol for that code; nothing else of the state changes, except that the logout
  closes its descriptor.\<close>

theorem responses_are_frames:
  assumes "can_write E s fd" and "terminated token"
    and "(send, reply, cap, fin) \<in> set
      [(send_create_user_response, create_user_reply, DEFAULT_BUFFER, keep_open),
       (send_destroy_user_response, destroy_user_reply, DEFAULT_BUFFER, keep_open),
       (send_login_user_response, login_user_reply, DEFAULT_BUFFER, keep_open),
       (send_logout_user_response, logout_user_reply, DEFAULT_BUFFER, sys_close),
       (send_create_channel_response, create_channel_reply, DEFAULT_BUFFER, keep_open),
       (send_create_message_response, create_message_reply, DEFAULT_BUFFER, keep_open),
       (send_read_channel_response, read_channel_reply, TEMP_CHANNEL_INFO_LENGTH, keep_open),
       (send_update_channel_response, update_channel_reply, TEMP_CHANNEL_INFO_LENGTH, keep_open),
       (send_read_message_response, read_message_reply, MAX_MSG_HISTORY_RES + 200, keep_open)]"
    and "reply r (cstr token) = Some t" and "length t < cap"
  shows "\<exists>hdr. send E s fd h r token = Inr (0, fin fd (s\<lparr>sent := sent s @ [(fd, hdr), (fd, t)]\<rparr>)) \<and>
    (\<forall>(E' :: 'v env) s' fd'. pending s' fd' = hdr @ t \<longrightarrow>
      (\<exists>s''. read_header E' s' fd' = Inr ((0, h\<lparr>h_body_size := word_of_nat (length t)\<rparr>), s'') \<and> pending s'' fd' = t))"
proof (intro exI [of _ "wire_header (h\<lparr>h_body_size := word_of_nat (length t)\<rparr>)"] conjI allI impI)
  show "send E s fd h r token = Inr (0, fin fd (s\<lparr>sent := sent s @
      [(fd, wire_header (h\<lparr>h_body_size := word_of_nat (length t)\<rparr>)), (fd, t)]\<rparr>))"
    using assms
    by (auto simp flip: framed_def intro: r_create_user.delivered r_destroy_user.delivered r_login.delivered
        r_logout.delivered r_create_channel.delivered r_create_message.delivered r_read_channel.delivered
        r_update_channel.delivered r_read_message.delivered)
next
  fix E' :: "'v env" and s' :: "'v server" and fd'
  assume "pending s' fd' = wire_header (h\<lparr>h_body_size := word_of_nat (length t)\<rparr>) @ t"
  moreover have "t \<noteq> []"
    using assms(3,4) by (auto simp: reply_defs msg_def split: if_splits)
  ultimately show "\<exists>s''. read_header E' s' fd' = Inr ((0, h\<lparr>h_body_size := word_of_nat (length t)\<rparr>), s'') \<and> pending s'' fd' = t"
    by (rule read_frame_spec)
qed

theorem responses_are_frames_witness:
  "\<exists>hdr. send_create_channel_response mem_env (state_with [] mem_empty) 5
      \<lparr>h_version = 1, h_type = 1, h_object = 2, h_body_size = 9\<rparr> 409 (zeros 21) =
    Inr (0, (state_with [] mem_empty)\<lparr>sent := [(5, hdr), (5, msg ''409'' @ msg ''Channel name is not unique'')]\<rparr>)"
  using responses_are_frames [of mem_env "state_with [] mem_empty" 5 "zeros 21" send_create_channel_response
      create_channel_reply DEFAULT_BUFFER keep_open 409 "msg ''409'' @ msg ''Channel name is not unique''"
      "\<lparr>h_version = 1, h_type = 1, h_object = 2, h_body_size = 9\<rparr>"]
  by (auto simp: create_channel_reply_def keep_open_def)

end
