(* ===== verification/Util.thy ===== *)
theory Util
  imports CLib
begin

text \<open>
  \<^verbatim>\<open>src/util.c\<close> and \<^verbatim>\<open>src/conversion.c\<close>: string comparison, the number test, the tokenizer and the
  parser of the port number. \<open>compare_strings\<close> is proved equal to a comparison that ignores white
  space, the tokenizer to the list of tokens \<open>tokens\<close>, and the port parser to invert the decimal
  printer on the range of a port.
\<close>

section \<open>compare\_strings and is\_number\<close>

text \<open>The first loop of \<^verbatim>\<open>compare_strings\<close>: \<open>None\<close> is its early \<^verbatim>\<open>return false\<close>, \<open>Some\<close> holds what is
  left of the two strings when the loop ends.\<close>

fun compare_loop :: "bytes \<Rightarrow> bytes \<Rightarrow> (bytes \<times> bytes) option result" where
  "compare_loop [] b = Inl Overread"
| "compare_loop (x # xs) [] = (if x = NUL then Inr (Some (x # xs, [])) else Inl Overread)"
| "compare_loop (x # xs) (y # ys) =
     (if x = NUL \<or> y = NUL then Inr (Some (x # xs, y # ys))
      else if isspace x then compare_loop xs (y # ys)
      else if isspace y then compare_loop (x # xs) ys
      else if x \<noteq> y then Inr None
      else compare_loop xs ys)"

fun skip_space :: "bytes \<Rightarrow> bytes result" where
  "skip_space [] = Inl Overread"
| "skip_space (x # xs) = (if isspace x then skip_space xs else Inr (x # xs))"

definition compare_strings :: "bytes \<Rightarrow> bytes \<Rightarrow> bool result" where
  "compare_strings str1 str2 =
     bindR (compare_loop str1 str2) (\<lambda>r. case r of
         None \<Rightarrow> Inr False
       | Some (a, b) \<Rightarrow>
           bindR (skip_space a) (\<lambda>a. bindR (skip_space b) (\<lambda>b. Inr (hd a = NUL \<and> hd b = NUL))))"

fun is_number :: "bytes \<Rightarrow> bool result" where
  "is_number [] = Inl Overread"
| "is_number (c # cs) =
     (if c = NUL then Inr True else if \<not> isdigit c then Inr False else is_number cs)"

section \<open>tokenize\_malloc\<close>

text \<open>A slot of the array of pointers that \<^verbatim>\<open>tokenize_malloc\<close> builds.\<close>

datatype slot = Uninit | Null | Ptr string

abbreviation DEFAULT_ARGS :: nat where "DEFAULT_ARGS \<equiv> 10"

definition put_slot :: "slot list \<Rightarrow> nat \<Rightarrow> slot \<Rightarrow> slot list result" where
  "put_slot ret i v = (if i < length ret then Inr (ret[i := v]) else Inl BufferOverflow)"

definition strip_newline :: "string \<Rightarrow> string" where
  "strip_newline t = (if last t = CHR 0x0A then butlast t else t)"

text \<open>The growth step: \<^verbatim>\<open>ret_size\<close> doubles whether or not \<^verbatim>\<open>realloc\<close> succeeds.\<close>

definition grow :: "(nat \<Rightarrow> bool) \<Rightarrow> nat \<Rightarrow> slot list \<Rightarrow> nat \<Rightarrow> slot list \<times> nat" where
  "grow realloc_ok word_count ret ret_size =
     (if word_count = ret_size - 1
      then (if realloc_ok (ret_size + ret_size) then ret @ replicate (ret_size + ret_size - length ret) Uninit
            else ret, ret_size + ret_size)
      else (ret, ret_size))"

function tokenize_loop ::
  "(nat \<Rightarrow> bool) \<Rightarrow> char set \<Rightarrow> slot list \<Rightarrow> nat \<Rightarrow> nat \<Rightarrow> string option \<Rightarrow> string \<Rightarrow> (slot list \<times> nat) result"
where
  "tokenize_loop ro d ret ret_size word_count None rest =
     bindR (put_slot ret word_count Null) (\<lambda>ret. Inr (ret, word_count))"
| "tokenize_loop ro d ret ret_size word_count (Some token) rest =
     bindR (put_slot (fst (grow ro (Suc word_count) ret ret_size)) word_count (Ptr (strip_newline token)))
       (\<lambda>ret'. tokenize_loop ro d ret' (snd (grow ro (Suc word_count) ret ret_size)) (Suc word_count)
          (fst (strtok d rest)) (snd (strtok d rest)))"
  by pat_completeness auto
termination
proof (relation "measure (\<lambda>(ro, d, ret, ret_size, wc, tok, rest).
    case tok of None \<Rightarrow> 0 | Some _ \<Rightarrow> Suc (length rest))")
  fix ro d ret ret_size wc rest ret' and token :: string
  show "((ro, d, ret', snd (grow ro (Suc wc) ret ret_size), Suc wc, fst (strtok d rest), snd (strtok d rest)),
      ro, d, ret, ret_size, wc, Some token, rest)
    \<in> measure (\<lambda>(ro, d, ret, ret_size, wc, tok, rest).
        case tok of None \<Rightarrow> 0 | Some _ \<Rightarrow> Suc (length rest))"
    using strtok_shrinks [of d rest] by (cases "strtok d rest") (auto split: option.splits)
qed simp

text \<open>\<open>None\<close> in the second component: \<^verbatim>\<open>*out_count\<close> is not written.\<close>

definition tokenize_malloc ::
  "(nat \<Rightarrow> bool) \<Rightarrow> string \<Rightarrow> char set \<Rightarrow> (slot list \<times> nat option) result"
where
  "tokenize_malloc realloc_ok str delim =
     (let ret = replicate DEFAULT_ARGS Uninit; (token, rest) = strtok delim str
      in if token = None then Inr (ret[0 := Null], None)
         else bindR (tokenize_loop realloc_ok delim ret DEFAULT_ARGS 0 token rest)
           (\<lambda>(ret, word_count). Inr (ret, Some word_count)))"

section \<open>parse\_port\<close>

text \<open>The error messages of \<^verbatim>\<open>parse_port\<close>; each ends the program through \<^verbatim>\<open>fatal_message\<close>.\<close>

datatype port_error = NotDecimal | ExtraCharacters | OutOfLong | AboveUint16 | BelowZero

definition parse_port :: "string \<Rightarrow> port_error + 16 word" where
  "parse_port buff =
     (let (sl, endp, erange) = strtol buff
      in if endp = buff then Inl NotDecimal
         else if endp \<noteq> [] then Inl ExtraCharacters
         else if (sl = LONG_MIN \<or> sl = LONG_MAX) \<and> erange then Inl OutOfLong
         else if sl > 65535 then Inl AboveUint16
         else if sl < 0 then Inl BelowZero
         else Inr (word_of_int sl))"

section \<open>Lemmas\<close>

definition squash :: "string \<Rightarrow> string" where
  "squash s = filter (\<lambda>c. \<not> isspace c) s"

lemma isspace_NUL [simp]: "\<not> isspace NUL"
  by (simp add: isspace_def)

lemma squash_simps [simp]:
  "squash [] = []" "squash (x # xs) = (if isspace x then squash xs else x # squash xs)"
  by (simp_all add: squash_def)

lemma skip_space_spec:
  "terminated a \<Longrightarrow> \<exists>a'. skip_space a = Inr a' \<and> a' \<noteq> [] \<and> (hd a' = NUL \<longleftrightarrow> squash (cstr a) = [])"
  by (induction a) auto

lemma compare_end:
  assumes "terminated (x # xs)" "terminated (y # ys)" "x = NUL \<or> y = NUL"
  shows "compare_strings (x # xs) (y # ys) = Inr (squash (cstr (x # xs)) = squash (cstr (y # ys)))"
proof -
  obtain a b where
    "skip_space (x # xs) = Inr a" "hd a = NUL \<longleftrightarrow> squash (cstr (x # xs)) = []"
    "skip_space (y # ys) = Inr b" "hd b = NUL \<longleftrightarrow> squash (cstr (y # ys)) = []"
    using skip_space_spec [OF assms(1)] skip_space_spec [OF assms(2)] by blast
  moreover have "squash (cstr (x # xs)) = [] \<or> squash (cstr (y # ys)) = []"
    using assms(3) by auto
  moreover have "compare_loop (x # xs) (y # ys) = Inr (Some (x # xs, y # ys))"
    using assms(3) by simp
  ultimately show ?thesis
    unfolding compare_strings_def by (auto simp del: compare_loop.simps skip_space.simps squash_simps cstr_Cons)
qed

lemma compare_step:
  assumes "x \<noteq> NUL" "y \<noteq> NUL"
  shows "compare_strings (x # xs) (y # ys) =
    (if isspace x then compare_strings xs (y # ys)
     else if isspace y then compare_strings (x # xs) ys
     else if x \<noteq> y then Inr False else compare_strings xs ys)"
  using assms by (simp add: compare_strings_def)

lemma compare_strings_squash:
  "terminated a \<Longrightarrow> terminated b \<Longrightarrow>
     compare_strings a b = Inr (squash (cstr a) = squash (cstr b))"
proof (induction a b rule: compare_loop.induct)
  case (3 x xs y ys)
  show ?case
  proof (cases "x = NUL \<or> y = NUL")
    case True
    with "3.prems" show ?thesis by (rule compare_end)
  next
    case False
    then show ?thesis
      using "3.prems" "3.IH" by (subst compare_step) (auto split: if_splits)
  qed
qed simp_all

lemma is_number_spec: "terminated b \<Longrightarrow> is_number b = Inr (list_all isdigit (cstr b))"
  by (induction b) auto

text \<open>The tokens of a string, as the reference for the tokenizer.\<close>

function tokens :: "char set \<Rightarrow> string \<Rightarrow> string list" where
  "tokens d s = (case strtok d s of (None, _) \<Rightarrow> [] | (Some t, r) \<Rightarrow> t # tokens d r)"
  by pat_completeness auto
termination
  by (relation "measure (\<lambda>(d, s). length s)") (auto dest: strtok_shrinks [OF sym])

declare tokens.simps [simp del]

lemma put_slot_append:
  "put_slot (xs @ Uninit # ys) (length xs) v = Inr (xs @ v # ys)"
  by (simp add: put_slot_def list_update_append)

lemma put_slot_ok: "i < length ret \<Longrightarrow> put_slot ret i v = Inr (ret[i := v])"
  by (simp add: put_slot_def)

lemma grow_capacity:
  assumes "length ret = ret_size" "word_count < ret_size - 1" "\<And>n. ro n"
  shows "grow ro (Suc word_count) ret ret_size = (ret', sz') \<Longrightarrow>
    length ret' = sz' \<and> Suc word_count < sz' - 1 \<and> take (length ret) ret' = ret"
  using assms by (auto simp: grow_def split: if_splits)

lemma tokenize_loop_spec:
  assumes "length ret = ret_size" "word_count < ret_size - 1" "\<And>n. ro n"
  shows "\<exists>ret'. tokenize_loop ro d ret ret_size word_count tok rest =
      Inr (ret', word_count + length (case tok of None \<Rightarrow> [] | Some t \<Rightarrow> t # tokens d rest)) \<and>
    take (Suc (word_count + length (case tok of None \<Rightarrow> [] | Some t \<Rightarrow> t # tokens d rest))) ret' =
      take word_count ret @
      map (\<lambda>t. Ptr (strip_newline t)) (case tok of None \<Rightarrow> [] | Some t \<Rightarrow> t # tokens d rest) @ [Null]"
  using assms
proof (induction ro d ret ret_size word_count tok rest rule: tokenize_loop.induct)
  case (1 ro d ret ret_size wc rest)
  then show ?case by (simp add: put_slot_def take_Suc_conv_app_nth)
next
  case (2 ro d ret ret_size wc token rest)
  obtain ret1 sz1 where g: "grow ro (Suc wc) ret ret_size = (ret1, sz1)" by fastforce
  from grow_capacity [OF "2.prems" g]
  have cap: "length ret1 = sz1" "Suc wc < sz1 - 1" "take (length ret) ret1 = ret" by simp_all
  then have wc: "wc < length ret1" by simp
  let ?ret2 = "ret1[wc := Ptr (strip_newline token)]"
  have put: "put_slot (fst (grow ro (Suc wc) ret ret_size)) wc (Ptr (strip_newline token)) = Inr ?ret2"
    using wc g by (simp add: put_slot_def)
  obtain tok' rest' where st: "strtok d rest = (tok', rest')" by fastforce
  let ?ts = "case tok' of None \<Rightarrow> [] | Some t \<Rightarrow> t # tokens d rest'"
  have ts: "tokens d rest = ?ts"
    using st by (subst tokens.simps) (auto split: option.splits)
  have len: "length ?ret2 = sz1" using cap(1) by simp
  from "2.IH" [of ?ret2, unfolded g st fst_conv snd_conv, OF len cap(2) "2.prems"(3)] obtain ret' where
    ih: "tokenize_loop ro d ?ret2 sz1 (Suc wc) tok' rest' = Inr (ret', Suc wc + length ?ts)"
      "take (Suc (Suc wc + length ?ts)) ret' =
        take (Suc wc) ?ret2 @ map (\<lambda>t. Ptr (strip_newline t)) ?ts @ [Null]"
    by blast
  have "take wc ret = take wc (take (length ret) ret1)" by (simp only: cap(3))
  also have "\<dots> = take wc ret1" using "2.prems"(1,2) by (simp add: min_absorb1)
  finally have tk: "take (Suc wc) ?ret2 = take wc ret @ [Ptr (strip_newline token)]"
    using wc by (simp add: take_Suc_conv_app_nth)
  show ?case
    using put ih g st ts tk by simp
qed

section \<open>Properties\<close>

text \<open>C31: \<^verbatim>\<open>compare_strings\<close> never reads past the end of two terminated strings, and it answers whether
  they are equal once all white space is removed from both: the check of a password or a login
  token is insensitive to white space.\<close>

theorem compare_strings_correct:
  assumes "terminated a" "terminated b"
  shows "compare_strings a b = Inr (filter (\<lambda>c. \<not> isspace c) (cstr a) = filter (\<lambda>c. \<not> isspace c) (cstr b))"
  using compare_strings_squash [OF assms] by (simp add: squash_def)

theorem compare_strings_correct_witness:
  "compare_strings (lit ''monkey 123'') (lit '' monkey123 '') = Inr True"
proof -
  have "terminated (lit ''monkey 123'')" "terminated (lit '' monkey123 '')" by simp_all
  from compare_strings_correct [OF this] show ?thesis
    by (simp add: isspace_def)
qed

text \<open>\<^verbatim>\<open>tokenize_malloc\<close> stays inside its growing array when every \<^verbatim>\<open>realloc\<close> succeeds; the array
  it returns holds, in order, exactly the tokens of the string (each without a trailing newline)
  followed by NULL, and the count it stores is their number; a string without a token gives an array
  that starts with NULL and leaves the caller's count unwritten.\<close>

lemma tokenize_malloc_correct:
  assumes "\<And>n. realloc_ok n"
  shows "\<exists>ret. tokenize_malloc realloc_ok s d =
      Inr (ret, if tokens d s = [] then None else Some (length (tokens d s))) \<and>
    take (Suc (length (tokens d s))) ret = map (\<lambda>t. Ptr (strip_newline t)) (tokens d s) @ [Null]"
proof (cases "strtok d s")
  case (Pair tok rest)
  have ts: "tokens d s = (case tok of None \<Rightarrow> [] | Some t \<Rightarrow> t # tokens d rest)"
    using Pair by (subst tokens.simps) (auto split: option.splits)
  show ?thesis
  proof (cases tok)
    case None
    with Pair ts show ?thesis by (simp add: tokenize_malloc_def take_Suc_conv_app_nth)
  next
    case (Some t)
    with tokenize_loop_spec [of "replicate DEFAULT_ARGS Uninit" DEFAULT_ARGS 0 realloc_ok d tok rest, OF _ _ assms]
    show ?thesis using Pair ts by (auto simp: tokenize_malloc_def)
  qed
qed

lemma tokenize_malloc_correct_witness:
  "\<exists>ret. tokenize_malloc (\<lambda>_. True) ''ab c'' {CHR '' ''} = Inr (ret, Some 2) \<and>
    take 3 ret = [Ptr ''ab'', Ptr ''c'', Null]"
proof -
  have "tokens {CHR '' ''} ''ab c'' = [''ab'', ''c'']"
    by (simp add: tokens.simps strtok_def)
  with tokenize_malloc_correct [of "\<lambda>_. True" "''ab c''" "{CHR '' ''}"] show ?thesis
    by (simp add: strip_newline_def eval_nat_numeral)
qed

text \<open>\<^verbatim>\<open>parse_port\<close> inverts decimal printing on the whole range of a 16 bit port and stops with the
  message for the right kind of overflow on every larger number, however long.\<close>

lemma parse_port_show_nat:
  "parse_port (show_nat n) =
     (if n \<le> 65535 then Inr (word_of_nat n)
      else if int n \<le> LONG_MAX then Inl AboveUint16 else Inl OutOfLong)"
  using show_nat_nonempty [of n, symmetric]
  by (simp add: parse_port_def strtol_digits show_nat_digits)

end
