(* ===== verification/Request.thy ===== *)
theory Request
  imports Tables Wire Util
begin

text \<open>
  What the request handlers share: the fields of a request body, the id generator of \<^verbatim>\<open>src/util.c\<close>, and
  the invariant of the databases. \<open>db_ok\<close> says that the five tables hold well formed records under their
  own keys, with terminated strings; \<open>dbs E tab opn w t\<close> says that the world \<open>w\<close> meets the contract of
  ndbm, has no handle open and holds the tables \<open>t\<close>. For each database operation a rule describes its
  result and its effect on \<open>t\<close>, so that a handler is verified by chaining these rules.
\<close>

section \<open>Fields and identifiers\<close>

abbreviation next_token :: "string \<Rightarrow> string option \<times> string" where
  "next_token \<equiv> strtok {ETX}"

text \<open>\<^verbatim>\<open>strncpy(dst, token, strlen(token))\<close>, where \<^verbatim>\<open>token\<close> may be NULL.\<close>

definition copy_token :: "bytes \<Rightarrow> string option \<Rightarrow> bytes result" where
  "copy_token dst token = bindR (deref token) (\<lambda>t. strncpy dst (lit t) (length t))"

definition generate_random_uuid_malloc :: "'w env \<Rightarrow> 'w \<Rightarrow> bytes option \<times> 'w" where
  "generate_random_uuid_malloc E w =
     (let (u, w) = uuid_random E w in if malloc_ok E w UUID_LEN then (Some (lit u), w) else (None, w))"

text \<open>A field of a request: not empty, without separator and NUL.\<close>

definition field_ok :: "string \<Rightarrow> bool" where
  "field_ok s \<longleftrightarrow> s \<noteq> [] \<and> NUL \<notin> set s \<and> ETX \<notin> set s"

text \<open>The text of a body: the fields with a separator between them and, if \<open>tr\<close> holds, one after the last.\<close>

fun join_fields :: "bool \<Rightarrow> string list \<Rightarrow> string" where
  "join_fields tr [] = []"
| "join_fields tr [x] = x @ (if tr then [ETX] else [])"
| "join_fields tr (x # y # xs) = x @ ETX # join_fields tr (y # xs)"

lemma next_token_join [simp]:
  "field_ok x \<Longrightarrow> next_token (join_fields tr (x # xs)) = (Some x, join_fields tr xs)"
  by (cases xs; cases tr) (auto simp: field_ok_def clib)

lemma join_no_NUL: "list_all field_ok xs \<Longrightarrow> NUL \<notin> set (join_fields tr xs)"
  by (induction tr xs rule: join_fields.induct) (auto simp: field_ok_def)

lemma join_nonempty: "field_ok x \<Longrightarrow> join_fields tr (x # xs) \<noteq> []"
  by (cases xs) (auto simp: field_ok_def)

declare join_fields.simps(2,3) [simp del]

lemma copy_token_ok [simp]:
  "field_ok s \<Longrightarrow> length s \<le> n \<Longrightarrow> copy_token (zeros n) (Some s) = Inr (nul_pad n s)"
  by (simp add: copy_token_def field_ok_def clib)

lemma copy_token_None [simp]: "copy_token dst None = Inl NullDeref"
  by (simp add: copy_token_def)

lemma strncpy_pad [simp]:
  "NUL \<notin> set s \<Longrightarrow> length s \<le> n \<Longrightarrow> length dst = n \<Longrightarrow> strncpy dst (nul_pad n s) n = Inr (nul_pad n s)"
  by (simp add: strncpy_eq_Inr max_def)

text \<open>The body of a request as the handlers get it.\<close>

definition body_at :: "'w server \<Rightarrow> int \<Rightarrow> 16 word \<Rightarrow> bool \<Rightarrow> string list \<Rightarrow> bool" where
  "body_at s fd n tr fs \<longleftrightarrow> list_all field_ok fs \<and> fs \<noteq> [] \<and> take (unat n) (pending s fd) = join_fields tr fs \<and>
     unat n = length (join_fields tr fs) \<and> unat n < DEFAULT_BUFFER"

lemma read_body_at [simp]:
  assumes "body_at s fd n tr fs"
  shows "read_body s fd n = Inr (Some (join_fields tr fs), consume s fd (unat n))"
proof -
  have "join_fields tr fs \<noteq> []" using assms by (cases fs) (auto simp: body_at_def join_nonempty)
  moreover have "cstr (join_fields tr fs) = join_fields tr fs"
    using assms by (simp add: body_at_def cstr_id join_no_NUL)
  moreover have "read_body s fd n =
      (if join_fields tr fs = [] \<or> length (join_fields tr fs) \<noteq> unat n then Inr (None, consume s fd (unat n))
       else if length (join_fields tr fs) = DEFAULT_BUFFER \<and> NUL \<notin> set (join_fields tr fs) then Inl Overread
       else Inr (Some (cstr (join_fields tr fs)), consume s fd (unat n)))"
    by (rule read_body_spec) (use assms in \<open>auto simp: body_at_def\<close>)
  ultimately show ?thesis using assms by (simp add: body_at_def)
qed

section \<open>The invariant of the databases\<close>

definition login_strings :: "user_login \<Rightarrow> bool" where
  "login_strings u \<longleftrightarrow> terminated (ul_login_token u) \<and> terminated (ul_password u) \<and> uuid_text (ul_uuid u)"

definition account_strings :: "user_account \<Rightarrow> bool" where
  "account_strings a \<longleftrightarrow> uuid_text (ua_user_id a) \<and> terminated (ua_display_name a) \<and> terminated (ua_ip_addr a)"

definition db_ok :: "bool \<Rightarrow> table_state \<Rightarrow> bool" where
  "db_ok le t \<longleftrightarrow> login_table (content t DB_LOGIN_INFO) \<and> account_table le (content t DB_USER_ACCOUNT) \<and>
     name_table (content t DB_DISPLAY_NAMES) \<and> chan_table (content t DB_CHANNEL_INFO) \<and>
     msg_table (content t DB_MESSAGE_INFO) \<and>
     (\<forall>k u. login_view t k = Some u \<longrightarrow> login_strings u) \<and>
     (\<forall>k a. account_view le t k = Some a \<longrightarrow> account_strings a)"

definition dbs :: "'w env \<Rightarrow> 'w tables \<Rightarrow> 'w handles \<Rightarrow> 'w \<Rightarrow> table_state \<Rightarrow> bool" where
  "dbs E tab opn w t \<longleftrightarrow> ndbm_contract E tab opn \<and> 9 \<le> heap_slack E \<and> opn w = [] \<and> tab w = t \<and> db_ok (host_le E) t"

text \<open>The tables of the channels and the messages are the same.\<close>

definition talk_kept :: "table_state \<Rightarrow> table_state \<Rightarrow> bool" where
  "talk_kept t t' \<longleftrightarrow> content t' DB_CHANNEL_INFO = content t DB_CHANNEL_INFO \<and> content t' DB_MESSAGE_INFO = content t DB_MESSAGE_INFO"

lemma talk_kept_tput [simp]:
  "talk_kept t t" "d \<noteq> DB_CHANNEL_INFO \<Longrightarrow> d \<noteq> DB_MESSAGE_INFO \<Longrightarrow> talk_kept t (tput t' d k v) \<longleftrightarrow> talk_kept t t'"
  by (auto simp: talk_kept_def tput_def content_def)

lemma dbsD:
  assumes "dbs E tab opn w t"
  shows "ndbm_contract E tab opn" "opn w = []" "tab w = t" "db_ok (host_le E) t"
    "login_ready E tab opn w" "account_ready E tab opn w" "name_ready E tab opn w"
  using assms by (auto simp: dbs_def login_ready_def account_ready_def name_ready_def db_ok_def)

lemma dbsI:
  "dbs E tab opn w t \<Longrightarrow> opn w' = [] \<Longrightarrow> tab w' = t' \<Longrightarrow> db_ok (host_le E) t' \<Longrightarrow> dbs E tab opn w' t'"
  by (auto simp: dbs_def)

lemma dbs_malloc: "dbs E tab opn w t \<Longrightarrow> malloc_ok E w' n"
  by (rule contract_heap(1) [OF dbsD(1)])

lemma dbs_junk: "dbs E tab opn w t \<Longrightarrow> length (heap_junk E w' n) = n"
  by (rule contract_heap(2) [OF dbsD(1)])

lemma db_ok_login_view:
  assumes "db_ok le t" "login_view t k = Some u"
  shows "wf_user_login u" "ul_login_token u = k" "login_strings u" "length k = TOKEN_NAME_LENGTH"
proof -
  from assms show "login_strings u" by (auto simp: db_ok_def)
  from assms obtain v where "content t DB_LOGIN_INFO k = Some v" "u = projr (decode_user_login v)"
    by (auto simp: login_view_def)
  with assms(1) show "wf_user_login u" "ul_login_token u = k"
    by (auto simp: db_ok_def dest!: login_tableD)
  then show "length k = TOKEN_NAME_LENGTH" by (auto simp: wf_user_login_def)
qed

lemma db_ok_account_view:
  assumes "db_ok le t" "account_view le t k = Some a"
  shows "wf_user_account a" "ua_user_id a = k" "account_strings a"
proof -
  from assms show "account_strings a" by (auto simp: db_ok_def)
  from assms obtain v where "content t DB_USER_ACCOUNT k = Some v" "a = projr (decode_user_account le v)"
    by (auto simp: account_view_def)
  with assms(1) show "wf_user_account a" "ua_user_id a = k"
    by (auto simp: db_ok_def dest!: account_tableD)
qed

lemma db_ok_name_view:
  "db_ok le t \<Longrightarrow> name_view t k = Some u \<Longrightarrow> uuid_text u"
  by (auto simp: db_ok_def name_view_def dest!: name_tableD)

subsection \<open>The invariant under stores and deletions\<close>

lemma db_ok_put_login:
  assumes "db_ok le t" "wf_user_login u" "login_strings u"
  shows "db_ok le (tput t DB_LOGIN_INFO (ul_login_token u) (encode_user_login u))"
  using assms by (auto simp: db_ok_def login_table_tput split: if_splits)

lemma db_ok_put_account:
  assumes "db_ok le t" "wf_user_account a" "account_strings a"
  shows "db_ok le (tput t DB_USER_ACCOUNT (ua_user_id a) (encode_user_account le a))"
  using assms by (auto simp: db_ok_def account_table_tput split: if_splits)

lemma db_ok_put_name:
  assumes "db_ok le t" "length k = TOKEN_NAME_LENGTH" "uuid_text v"
  shows "db_ok le (tput t DB_DISPLAY_NAMES k v)"
  using assms by (auto simp: db_ok_def name_table_tput)

lemma chan_table_tput:
  "chan_table m \<Longrightarrow> wf_channel_info c \<Longrightarrow> terminated (ch_channel_name c) \<Longrightarrow>
     chan_table (m(ch_channel_id c \<mapsto> encode_channel_info c))"
  by (auto simp: chan_table_def)

lemma msg_table_tput:
  "msg_table m \<Longrightarrow> wf_message_info x \<Longrightarrow> msg_table (m(mi_message_id x \<mapsto> encode_message_info x))"
  by (auto simp: msg_table_def)

lemma db_ok_put_channel:
  assumes "db_ok le t" "wf_channel_info c" "terminated (ch_channel_name c)"
  shows "db_ok le (tput t DB_CHANNEL_INFO (ch_channel_id c) (encode_channel_info c))"
  using assms by (auto simp: db_ok_def chan_table_tput)

lemma db_ok_put_message:
  assumes "db_ok le t" "wf_message_info x"
  shows "db_ok le (tput t DB_MESSAGE_INFO (mi_message_id x) (encode_message_info x))"
  using assms by (auto simp: db_ok_def msg_table_tput)

lemma db_ok_del:
  assumes "db_ok le t"
  shows "db_ok le (tdel t DB_LOGIN_INFO k)" "db_ok le (tdel t DB_USER_ACCOUNT k)" "db_ok le (tdel t DB_DISPLAY_NAMES k)"
  using assms by (auto simp: db_ok_def tables_tdel split: if_splits)

subsection \<open>The database operations\<close>

lemma dbs_get_login:
  assumes D: "dbs E tab opn w t" and L: "length k = TOKEN_NAME_LENGTH"
  shows "\<exists>w'. get_login_info_malloc_or_null E w k = Inr (login_view t k, w') \<and> dbs E tab opn w' t"
proof -
  obtain w' where w': "opn w' = []" "tab w' = t"
    "get_login_info_malloc_or_null E w k = (case look t DB_LOGIN_INFO k of
        None \<Rightarrow> Inr (None, w') | Some v \<Rightarrow> bindR (decode_user_login v) (\<lambda>u. Inr (Some u, w')))"
    using get_login_info_spec [OF dbsD(1,2) [OF D] L] dbsD(3) [OF D] by auto
  then have "get_login_info_malloc_or_null E w k = Inr (login_view t k, w')"
    using dbsD(4) [OF D] login_tableD [of "content t DB_LOGIN_INFO" k]
    by (auto simp: db_ok_def look_content login_view_def split: option.splits)
  with dbsI [OF D w'(1,2) dbsD(4) [OF D]] show ?thesis by blast
qed

lemma dbs_get_account:
  assumes D: "dbs E tab opn w t" and L: "length k = UUID_LEN"
  shows "\<exists>w'. get_user_account_malloc_or_null E w k = Inr (account_view (host_le E) t k, w') \<and> dbs E tab opn w' t"
proof -
  obtain w' where w': "opn w' = []" "tab w' = t"
    "get_user_account_malloc_or_null E w k = (case look t DB_USER_ACCOUNT k of
        None \<Rightarrow> Inr (None, w') | Some v \<Rightarrow> bindR (memcpy_account E v) (\<lambda>u. Inr (Some u, w')))"
    using get_user_account_spec [OF dbsD(1,2) [OF D] L] dbsD(3) [OF D] by auto
  then have "get_user_account_malloc_or_null E w k = Inr (account_view (host_le E) t k, w')"
    using dbsD(4) [OF D] account_tableD [of "host_le E" "content t DB_USER_ACCOUNT" k] memcpy_account_ok [of E] D
    by (auto simp: db_ok_def dbs_def look_content account_view_def split: option.splits)
  with dbsI [OF D w'(1,2) dbsD(4) [OF D]] show ?thesis by blast
qed

lemma dbs_get_uuid:
  assumes D: "dbs E tab opn w t" and L: "length k = TOKEN_NAME_LENGTH"
  shows "\<exists>w'. get_uuid_with_display_name_or_null E w k = Inr (name_view t k, w') \<and> dbs E tab opn w' t"
proof -
  obtain w' junk where w': "opn w' = []" "tab w' = t" "length junk = UUID_LEN"
    "get_uuid_with_display_name_or_null E w k = (case look t DB_DISPLAY_NAMES k of
        None \<Rightarrow> Inr (None, w') | Some v \<Rightarrow> bindR (strncpy junk v UUID_LEN) (\<lambda>u. Inr (Some u, w')))"
    using get_uuid_spec [OF dbsD(1,2) [OF D] L] dbsD(3) [OF D] by auto
  then have "get_uuid_with_display_name_or_null E w k = Inr (name_view t k, w')"
    using dbsD(4) [OF D] name_tableD [of "content t DB_DISPLAY_NAMES" k]
    by (auto simp: db_ok_def look_content name_view_def strncpy_uuid_text split: option.splits)
  with dbsI [OF D w'(1,2) dbsD(4) [OF D]] show ?thesis by blast
qed

lemma dbs_check_name:
  assumes D: "dbs E tab opn w t" and L: "length k = TOKEN_NAME_LENGTH"
  shows "\<exists>w'. check_duplicate_display_name E w k = Inr (name_view t k \<noteq> None, w') \<and> dbs E tab opn w' t"
  using check_duplicate_display_name_spec [OF dbsD(1,2) [OF D] L] dbsD(3,4) [OF D]
  by (auto simp: look_content name_view_def intro: dbsI [OF D])

lemma dbs_put_login:
  assumes D: "dbs E tab opn w t" and U: "wf_user_login u" "login_strings u"
  shows "\<exists>w'. insert_user_login E w u = Inr (0, w') \<and>
    dbs E tab opn w' (tput t DB_LOGIN_INFO (ul_login_token u) (encode_user_login u))"
  using db_insert_spec [OF dbsD(1,2) [OF D], of "ul_login_token u" TOKEN_NAME_LENGTH DB_LOGIN_INFO "encode_user_login u"]
    U dbsD(3) [OF D] db_ok_put_login [OF dbsD(4) [OF D] U]
  by (auto simp: insert_user_login_def wf_user_login_def intro: dbsI [OF D])

lemma dbs_put_account:
  assumes D: "dbs E tab opn w t" and U: "wf_user_account a" "account_strings a"
  shows "\<exists>w'. insert_user_account E w a = Inr (0, w') \<and>
    dbs E tab opn w' (tput t DB_USER_ACCOUNT (ua_user_id a) (encode_user_account (host_le E) a))"
  using db_insert_spec [OF dbsD(1,2) [OF D], of "ua_user_id a" UUID_LEN DB_USER_ACCOUNT "encode_user_account (host_le E) a"]
    U dbsD(3) [OF D] db_ok_put_account [OF dbsD(4) [OF D] U]
  by (auto simp: insert_user_account_def wf_user_account_def intro: dbsI [OF D])

lemma dbs_put_name:
  assumes D: "dbs E tab opn w t" and U: "length k = TOKEN_NAME_LENGTH" "uuid_text v"
  shows "\<exists>w'. insert_display_name E w k v = Inr (0, w') \<and> dbs E tab opn w' (tput t DB_DISPLAY_NAMES k v)"
  using db_insert_spec [OF dbsD(1,2) [OF D] U(1), of DB_DISPLAY_NAMES v] U(2) dbsD(3) [OF D]
    db_ok_put_name [OF dbsD(4) [OF D] U]
  by (auto simp: insert_display_name_def uuid_text_def intro: dbsI [OF D])

lemma dbs_put_channel:
  assumes D: "dbs E tab opn w t" and U: "wf_channel_info c" "terminated (ch_channel_name c)"
  shows "\<exists>w'. insert_channel_info E w c = Inr (0, w') \<and>
    dbs E tab opn w' (tput t DB_CHANNEL_INFO (ch_channel_id c) (encode_channel_info c))"
  using db_insert_spec [OF dbsD(1,2) [OF D], of "ch_channel_id c" UUID_LEN DB_CHANNEL_INFO "encode_channel_info c"]
    U dbsD(3) [OF D] db_ok_put_channel [OF dbsD(4) [OF D] U]
  by (auto simp: insert_channel_info_def wf_channel_info_def intro: dbsI [OF D])

lemma dbs_put_message:
  assumes D: "dbs E tab opn w t" and U: "wf_message_info x"
  shows "\<exists>w'. insert_message E w (Some x) = Inr (0, w') \<and>
    dbs E tab opn w' (tput t DB_MESSAGE_INFO (mi_message_id x) (encode_message_info x))"
  using db_insert_spec [OF dbsD(1,2) [OF D], of "mi_message_id x" UUID_LEN DB_MESSAGE_INFO "encode_message_info x"]
    U dbsD(3) [OF D] db_ok_put_message [OF dbsD(4) [OF D] U]
  by (auto simp: insert_message_def wf_message_info_def intro: dbsI [OF D])

lemma dbs_del:
  assumes D: "dbs E tab opn w t"
  shows "length k = TOKEN_NAME_LENGTH \<Longrightarrow>
      \<exists>r w'. remove_user_login E w k = Inr (r, w') \<and> dbs E tab opn w' (tdel t DB_LOGIN_INFO k)"
    "length k' = UUID_LEN \<Longrightarrow>
      \<exists>r w'. remove_user_account E w k' = Inr (r, w') \<and> dbs E tab opn w' (tdel t DB_USER_ACCOUNT k')"
    "length k = TOKEN_NAME_LENGTH \<Longrightarrow>
      \<exists>r w'. remove_display_name E w k = Inr (r, w') \<and> dbs E tab opn w' (tdel t DB_DISPLAY_NAMES k)"
proof -
  have *: "\<exists>r w'. db_remove E w d k n = Inr (r, w') \<and> dbs E tab opn w' (tdel t d k)"
    if "length k = n" "db_ok (host_le E) (tdel t d k)" for d k n
    using db_remove_spec [OF dbsD(1,2) [OF D] that(1), of d] dbsD(3) [OF D] dbsI [OF D _ _ that(2)] by blast
  show "length k = TOKEN_NAME_LENGTH \<Longrightarrow>
      \<exists>r w'. remove_user_login E w k = Inr (r, w') \<and> dbs E tab opn w' (tdel t DB_LOGIN_INFO k)"
    "length k' = UUID_LEN \<Longrightarrow>
      \<exists>r w'. remove_user_account E w k' = Inr (r, w') \<and> dbs E tab opn w' (tdel t DB_USER_ACCOUNT k')"
    "length k = TOKEN_NAME_LENGTH \<Longrightarrow>
      \<exists>r w'. remove_display_name E w k = Inr (r, w') \<and> dbs E tab opn w' (tdel t DB_DISPLAY_NAMES k)"
    unfolding remove_user_login_def remove_user_account_def remove_display_name_def
    using * db_ok_del [OF dbsD(4) [OF D]] by blast+
qed

lemma dbs_uuid:
  assumes D: "dbs E tab opn w t"
  shows "\<exists>u w'. generate_random_uuid_malloc E w = (Some (lit u), w') \<and> dbs E tab opn w' t \<and> uuid_text (lit u) \<and>
    length u = 36 \<and> NUL \<notin> set u"
proof -
  obtain u w' where u: "uuid_random E w = (u, w')" by fastforce
  note c = contract_uuid [OF dbsD(1) [OF D] u]
  have "lit u = nul_pad UUID_LEN u" using c(1) by (simp add: lit_def nul_pad_def zeros_def)
  then have "uuid_text (lit u)" using c(1,2) by (auto simp: uuid_text_def)
  moreover have "dbs E tab opn w' t" using dbsI [OF D] c(3,4) dbsD(2-4) [OF D] by simp
  moreover have "generate_random_uuid_malloc E w = (Some (lit u), w')"
    using u dbs_malloc [OF D] by (simp add: generate_random_uuid_malloc_def)
  ultimately show ?thesis using c(1,2) by blast
qed

section \<open>Sample databases\<close>

text \<open>The witnesses run on the empty databases and on databases with one user, who is online and in the one
  channel, and one message.\<close>

lemma dbs_mem_empty [simp]: "dbs mem_env mem_tab mw_open mem_empty (\<lambda>d. None)"
  using mem_env_contract
  by (auto simp: dbs_def db_ok_def mem_tab_def mem_empty_def fun_eq_iff content_def login_table_def account_table_def
      name_table_def chan_table_def msg_table_def login_view_def account_view_def) (simp add: mem_env_def)

lemma empty_views [simp]: "login_view (\<lambda>d. None) k = None" "name_view (\<lambda>d. None) k = None"
  by (simp_all add: login_view_def name_view_def content_def)

definition demo_uuid :: bytes where
  "demo_uuid = lit (replicate 36 CHR ''A'')"

definition demo_login :: user_login where
  "demo_login = \<lparr>ul_login_token = nul_pad 21 ''bennychao'', ul_password = nul_pad 31 ''monkey123'', ul_uuid = demo_uuid\<rparr>"

definition demo_account :: user_account where
  "demo_account = \<lparr>ua_user_id = demo_uuid, ua_display_name = nul_pad 21 ''benny'', ua_ip_addr = nul_pad 16 ''10.0.0.1'',
     ua_online_status = True, ua_privilege_level = 0\<rparr>"

definition demo_channel :: channel_info where
  "demo_channel = sample_channel\<lparr>ch_channel_id := lit (replicate 36 CHR ''B'')\<rparr>"

definition demo_message :: message_info where
  "demo_message = sample_message\<lparr>mi_message_id := lit (replicate 36 CHR ''C''), mi_user_id := demo_uuid,
     mi_channel_id := lit (replicate 36 CHR ''B'')\<rparr>"

definition demo_world :: mem_world where
  "demo_world = \<lparr>mw_tables = (\<lambda>d. case d of
       DB_LOGIN_INFO \<Rightarrow> Some [(nul_pad 21 ''bennychao'', encode_user_login demo_login)]
     | DB_USER_ACCOUNT \<Rightarrow> Some [(demo_uuid, encode_user_account True demo_account)]
     | DB_DISPLAY_NAMES \<Rightarrow> Some [(nul_pad 21 ''benny'', demo_uuid)]
     | DB_CHANNEL_INFO \<Rightarrow> Some [(lit (replicate 36 CHR ''B''), encode_channel_info demo_channel)]
     | DB_MESSAGE_INFO \<Rightarrow> Some [(lit (replicate 36 CHR ''C''), encode_message_info demo_message)]),
     mw_open = [], mw_uuid = 0\<rparr>"

definition demo_tables :: table_state where
  "demo_tables = mem_tab demo_world"

definition demo_user :: connected_user where
  "demo_user = cache_entry mem_env demo_world (5, demo_account, demo_login)"

definition demo_cache :: "connected_user list" where
  "demo_cache = [demo_user] @ replicate 254 zero_user"

definition demo_state :: "bytes \<Rightarrow> mem_world server" where
  "demo_state seg = (state_with seg demo_world)\<lparr>cache := demo_cache\<rparr>"

lemma demo_uuid_text [simp]: "uuid_text demo_uuid" "length demo_uuid = UUID_LEN"
  by (simp_all add: uuid_text_def demo_uuid_def lit_def nul_pad_def zeros_def cstr_append)

lemma demo_wf [simp]:
  "wf_user_login demo_login" "wf_user_account demo_account" "wf_channel_info demo_channel" "wf_message_info demo_message"
  using wf_samples
  by (simp_all add: wf_user_login_def demo_login_def wf_user_account_def demo_account_def
      wf_channel_info_def demo_channel_def wf_message_info_def demo_message_def)

lemma demo_content:
  "content demo_tables DB_LOGIN_INFO = [nul_pad 21 ''bennychao'' \<mapsto> encode_user_login demo_login]"
  "content demo_tables DB_USER_ACCOUNT = [demo_uuid \<mapsto> encode_user_account True demo_account]"
  "content demo_tables DB_DISPLAY_NAMES = [nul_pad 21 ''benny'' \<mapsto> demo_uuid]"
  "content demo_tables DB_CHANNEL_INFO = [lit (replicate 36 CHR ''B'') \<mapsto> encode_channel_info demo_channel]"
  "content demo_tables DB_MESSAGE_INFO = [lit (replicate 36 CHR ''C'') \<mapsto> encode_message_info demo_message]"
  by (simp_all add: content_def demo_tables_def mem_tab_def demo_world_def)

lemma demo_views [simp]:
  "login_view demo_tables = [nul_pad 21 ''bennychao'' \<mapsto> demo_login]"
  "account_view True demo_tables = [demo_uuid \<mapsto> demo_account]"
  "name_view demo_tables = [nul_pad 21 ''benny'' \<mapsto> demo_uuid]"
  by (simp_all add: login_view_def account_view_def name_view_def demo_content fun_eq_iff)

lemma demo_strings [simp]: "login_strings demo_login" "account_strings demo_account"
  by (simp_all add: login_strings_def demo_login_def account_strings_def demo_account_def)

lemma mem_env_simps [simp]: "host_le mem_env = True" "heap_slack mem_env = 16" "malloc_ok mem_env w n" "write_ok mem_env w fd b"
  by (simp_all add: mem_env_def)

lemma demo_keys [simp]:
  "ul_login_token demo_login = nul_pad 21 ''bennychao''" "ul_uuid demo_login = demo_uuid"
  "cstr (ul_password demo_login) = ''monkey123''"
  "ua_user_id demo_account = demo_uuid" "ua_display_name demo_account = nul_pad 21 ''benny''"
  "ua_privilege_level demo_account = 0" "ua_online_status demo_account" "cstr (ua_ip_addr demo_account) = ''10.0.0.1''"
  "ch_channel_id demo_channel = lit (replicate 36 CHR ''B'')" "ch_channel_name demo_channel = nul_pad 21 ''global''"
  "mi_message_id demo_message = lit (replicate 36 CHR ''C'')"
  by (simp_all add: demo_login_def demo_account_def demo_channel_def demo_message_def sample_channel_def)

lemma dbs_demo [simp]: "dbs mem_env mem_tab mw_open demo_world demo_tables"
proof -
  have "db_ok True demo_tables"
    unfolding db_ok_def demo_content
    using login_table_tput [of Map.empty demo_login] account_table_tput [of True Map.empty demo_account]
      chan_table_tput [of Map.empty demo_channel] msg_table_tput [of Map.empty demo_message]
      name_table_tput [of Map.empty "nul_pad 21 ''benny''" demo_uuid]
    by (auto simp: login_table_def account_table_def name_table_def chan_table_def msg_table_def split: if_splits)
  then show ?thesis
    using mem_env_contract by (simp add: dbs_def demo_tables_def) (simp add: demo_world_def)
qed

lemma wf_demo_cache [simp]: "wf_cache demo_cache" "users demo_cache = [demo_user]"
proof -
  have "entry_ok (5, demo_account, demo_login)"
    using demo_wf demo_strings
    by (simp add: entry_ok_def login_strings_def account_strings_def uuid_text_def)
  from cache_entry_wf [OF this, of mem_env demo_world]
  show "wf_cache demo_cache" "users demo_cache = [demo_user]"
    using wf_cacheI [of "[demo_user]" "replicate 254 zero_user"]
    by (simp_all add: demo_cache_def demo_user_def list_all_iff)
qed

lemma demo_state_simps [simp]:
  "pending (demo_state seg) 5 = seg" "world (demo_state seg) = demo_world" "sent (demo_state seg) = []"
  "closed (demo_state seg) = []" "cache (demo_state seg) = demo_cache" "can_write mem_env (demo_state seg) fd"
  by (simp_all add: demo_state_def state_with_def pending_def can_write_def)

lemma demo_user_simps [simp]:
  "cu_fd demo_user = 5" "user_name demo_user = ''benny''" "cu_login_token demo_user = nul_pad 21 ''bennychao''"
  "cu_uuid demo_user = demo_uuid" "cstr (cu_ip_address demo_user) = ''10.0.0.1''" "cu_privilege_level demo_user = 0"
  using demo_uuid_text
  by (simp_all add: demo_user_def cache_entry_def demo_account_def demo_login_def uuid_text_def)

end
