(* ===== verification/Users.thy ===== *)
theory Users
  imports Request
begin

text \<open>
  Creation and deletion of users: \<^verbatim>\<open>read_and_create_user\<close>, \<^verbatim>\<open>read_and_destroy_user\<close> and the two constructors
  of \<^verbatim>\<open>src/server.c\<close>. A handler takes the output array as an argument and returns the result code with the
  array; the databases change through the world of the state. The theorems give the result code and the
  tables after each handler for every outcome of a well formed request.
\<close>

section \<open>Operations\<close>

definition generate_user_login_malloc_or_null ::
  "'w env \<Rightarrow> 'w \<Rightarrow> bytes \<Rightarrow> bytes \<Rightarrow> bytes option \<Rightarrow> user_login option result"
where
  "generate_user_login_malloc_or_null E w login_token password user_id =
     (if \<not> malloc_ok E w sizeof_user_login then Inr None
      else bindR (strncpy (zeros TOKEN_NAME_LENGTH) login_token TOKEN_NAME_LENGTH) (\<lambda>tok.
        bindR (strncpy (zeros PSWD_MAX_LENGTH) password PSWD_MAX_LENGTH) (\<lambda>pw.
        bindR (deref user_id) (\<lambda>uid.
        bindR (strncpy (zeros UUID_LEN) uid UUID_LEN) (\<lambda>uuid.
          Inr (Some \<lparr>ul_login_token = tok, ul_password = pw, ul_uuid = uuid\<rparr>))))))"

definition generate_user_account_malloc_or_null ::
  "'w env \<Rightarrow> 'w \<Rightarrow> bytes option \<Rightarrow> bytes \<Rightarrow> user_account option result"
where
  "generate_user_account_malloc_or_null E w uuid display_name =
     (if \<not> malloc_ok E w sizeof_user_account then Inr None
      else bindR (deref uuid) (\<lambda>u.
        bindR (strncpy (zeros UUID_LEN) u UUID_LEN) (\<lambda>uid.
        bindR (strncpy (zeros TOKEN_NAME_LENGTH) display_name TOKEN_NAME_LENGTH) (\<lambda>nm.
        bindR (strncpy (zeros CLNT_IP_ADDR_LENGTH) (lit ''0'') CLNT_IP_ADDR_LENGTH) (\<lambda>ip.
        bindR (strcmp_eq nm (lit ''admin'')) (\<lambda>adm.
          Inr (Some \<lparr>ua_user_id = uid, ua_display_name = nm, ua_ip_addr = ip, ua_online_status = False,
            ua_privilege_level = (if adm then 1 else 0)\<rparr>)))))))"

text \<open>The three insertions of \<^verbatim>\<open>read_and_create_user\<close>, lines 258 to 269.\<close>

definition store_user :: "'w env \<Rightarrow> 'w \<Rightarrow> bytes \<Rightarrow> bytes \<Rightarrow> bytes \<Rightarrow> 'w result" where
  "store_user E w login_token display_name password =
     (let (user_uuid, w) = generate_random_uuid_malloc E w
      in bindR (case user_uuid of None \<Rightarrow> Inr w
           | Some u \<Rightarrow> bindR (insert_display_name E w display_name u) (\<lambda>(_, w). Inr w)) (\<lambda>w.
         bindR (generate_user_login_malloc_or_null E w login_token password user_uuid) (\<lambda>user_login.
         bindR (case user_login of None \<Rightarrow> Inr w
           | Some l \<Rightarrow> bindR (insert_user_login E w l) (\<lambda>(_, w). Inr w)) (\<lambda>w.
         bindR (generate_user_account_malloc_or_null E w user_uuid display_name) (\<lambda>user_account.
         case user_account of None \<Rightarrow> Inr w
           | Some a \<Rightarrow> bindR (insert_user_account E w a) (\<lambda>(_, w). Inr w))))))"

definition read_and_create_user ::
  "'w env \<Rightarrow> 'w server \<Rightarrow> int \<Rightarrow> bytes \<Rightarrow> 16 word \<Rightarrow> ((int \<times> bytes) \<times> 'w server) result"
where
  "read_and_create_user E s fd token_out body_size =
     bindR (read_body s fd body_size) (\<lambda>(body, s). case body of
       None \<Rightarrow> Inr ((-1, token_out), s)
     | Some buffer \<Rightarrow>
         let (token, rest) = next_token buffer
         in bindR (copy_token (zeros TOKEN_NAME_LENGTH) token) (\<lambda>login_token.
         let (token, rest) = next_token rest
         in bindR (copy_token (zeros TOKEN_NAME_LENGTH) token) (\<lambda>display_name.
         bindR (get_login_info_malloc_or_null E (world s) login_token) (\<lambda>(login_info, w).
         bindR (check_duplicate_display_name E w display_name) (\<lambda>(is_display_name_duplicates, w).
         if login_info \<noteq> None \<and> is_display_name_duplicates then Inr ((3, token_out), s\<lparr>world := w\<rparr>)
         else if login_info \<noteq> None then Inr ((1, token_out), s\<lparr>world := w\<rparr>)
         else if is_display_name_duplicates then Inr ((2, token_out), s\<lparr>world := w\<rparr>)
         else
           let (token, rest) = next_token rest
           in bindR (copy_token (zeros PSWD_MAX_LENGTH) token) (\<lambda>password.
           bindR (store_user E w login_token display_name password) (\<lambda>w.
           bindR (strncpy token_out login_token TOKEN_NAME_LENGTH) (\<lambda>token_out.
             Inr ((0, token_out), s\<lparr>world := w\<rparr>)))))))))"

text \<open>The check of the sender in \<^verbatim>\<open>read_and_destroy_user\<close>, lines 361 and 362: the three tests are evaluated from
  left to right and stop at the first that fails.\<close>

definition destroy_denied ::
  "connected_user \<Rightarrow> user_login option \<Rightarrow> user_account option \<Rightarrow> bytes \<Rightarrow> bytes \<Rightarrow> bool result"
where
  "destroy_denied req_sender req_sender_login_info req_sender_account_info display_name password =
     bindR (strcmp_eq (cu_dsply_name req_sender) display_name) (\<lambda>same_name.
       if same_name then Inr False
       else bindR (deref req_sender_login_info) (\<lambda>l.
         bindR (strcmp_eq (ul_password l) password) (\<lambda>same_password.
           if same_password then Inr False
           else bindR (deref req_sender_account_info) (\<lambda>a. Inr (ua_privilege_level a = 0)))))"

definition read_and_destroy_user ::
  "'w env \<Rightarrow> 'w server \<Rightarrow> int \<Rightarrow> bytes \<Rightarrow> 16 word \<Rightarrow> ((int \<times> bytes) \<times> 'w server) result"
where
  "read_and_destroy_user E s fd token_out body_size =
     bindR (read_body s fd body_size) (\<lambda>(body, s). case body of
       None \<Rightarrow> Inr ((-1, token_out), s)
     | Some buffer \<Rightarrow>
         let (token, rest) = next_token buffer
         in bindR (copy_token (zeros TOKEN_NAME_LENGTH) token) (\<lambda>display_name.
         let (token, rest) = next_token rest
         in bindR (copy_token (zeros TOKEN_NAME_LENGTH) token) (\<lambda>login_token.
         let (token, rest) = next_token rest
         in bindR (copy_token (zeros PSWD_MAX_LENGTH) token) (\<lambda>password.
         if display_name ! 0 = NUL \<or> login_token ! 0 = NUL \<or> password ! 0 = NUL \<or> token = None
         then Inr ((1, token_out), s)
         else bindR (get_connected_user_by_fd (cache s) fd) (\<lambda>sender.
         bindR (deref sender) (\<lambda>req_sender.
         bindR (get_login_info_malloc_or_null E (world s) (cu_login_token req_sender)) (\<lambda>(req_sender_login_info, w).
         bindR (get_user_account_malloc_or_null E w (cu_uuid req_sender)) (\<lambda>(req_sender_account_info, w).
         bindR (if malloc_ok E w TOKEN_NAME_LENGTH then Inr (heap_junk E w TOKEN_NAME_LENGTH) else Inl NullDeref) (\<lambda>block.
         bindR (strncpy block login_token TOKEN_NAME_LENGTH) (\<lambda>block.
         bindR (strlen login_token) (\<lambda>n.
         let req_body_login_token = block[n := NUL]
         in bindR (get_login_info_malloc_or_null E w req_body_login_token) (\<lambda>(login_info, w).
         bindR (if login_info = None
                then bindR (deref req_sender_account_info) (\<lambda>a. Inr (ua_privilege_level a = 1))
                else Inr False) (\<lambda>not_exist.
         if not_exist then Inr ((2, token_out), s\<lparr>world := w\<rparr>)
         else bindR (destroy_denied req_sender req_sender_login_info req_sender_account_info display_name password) (\<lambda>denied.
         if denied then Inr ((3, token_out), s\<lparr>world := w\<rparr>)
         else bindR (assertR (login_info \<noteq> None)) (\<lambda>_.
         bindR (deref login_info) (\<lambda>l.
         bindR (remove_display_name E w display_name) (\<lambda>(_, w).
         bindR (remove_user_account E w (ul_uuid l)) (\<lambda>(_, w).
         bindR (remove_user_login E w (ul_login_token l)) (\<lambda>(_, w).
         bindR (strncpy token_out display_name TOKEN_NAME_LENGTH) (\<lambda>token_out.
           Inr ((0, token_out), s\<lparr>world := w\<rparr>)))))))))))))))))))))"

section \<open>Lemmas\<close>

text \<open>The records a new user gets.\<close>

definition new_login :: "string \<Rightarrow> string \<Rightarrow> bytes \<Rightarrow> user_login" where
  "new_login tok pw uuid =
     \<lparr>ul_login_token = nul_pad TOKEN_NAME_LENGTH tok, ul_password = nul_pad PSWD_MAX_LENGTH pw, ul_uuid = uuid\<rparr>"

definition new_account :: "bytes \<Rightarrow> string \<Rightarrow> user_account" where
  "new_account uuid nm =
     \<lparr>ua_user_id = uuid, ua_display_name = nul_pad TOKEN_NAME_LENGTH nm, ua_ip_addr = nul_pad CLNT_IP_ADDR_LENGTH ''0'',
      ua_online_status = False, ua_privilege_level = (if nm = ''admin'' then 1 else 0)\<rparr>"

lemma field_okD: "field_ok s \<Longrightarrow> NUL \<notin> set s"
  by (simp add: field_ok_def)

lemma new_login_ok:
  assumes "field_ok tok" "field_ok pw" "length tok < TOKEN_NAME_LENGTH" "length pw < PSWD_MAX_LENGTH" "uuid_text uuid"
  shows "wf_user_login (new_login tok pw uuid)" "login_strings (new_login tok pw uuid)"
  using assms by (auto simp: new_login_def wf_user_login_def login_strings_def field_okD max_def uuid_text_def)

lemma new_account_ok:
  assumes "field_ok nm" "length nm < TOKEN_NAME_LENGTH" "uuid_text uuid"
  shows "wf_user_account (new_account uuid nm)" "account_strings (new_account uuid nm)"
  using assms by (auto simp: new_account_def wf_user_account_def account_strings_def field_okD max_def uuid_text_def)

lemma generate_user_login_spec:
  assumes "malloc_ok E w sizeof_user_login" "field_ok tok" "field_ok pw" "length tok < TOKEN_NAME_LENGTH"
    "length pw < PSWD_MAX_LENGTH" "uuid_text uuid"
  shows "generate_user_login_malloc_or_null E w (nul_pad TOKEN_NAME_LENGTH tok) (nul_pad PSWD_MAX_LENGTH pw) (Some uuid) =
    Inr (Some (new_login tok pw uuid))"
  using assms by (simp add: generate_user_login_malloc_or_null_def new_login_def field_okD strncpy_uuid_text)

lemma generate_user_account_spec:
  assumes "malloc_ok E w sizeof_user_account" "field_ok nm" "length nm < TOKEN_NAME_LENGTH" "uuid_text uuid"
  shows "generate_user_account_malloc_or_null E w (Some uuid) (nul_pad TOKEN_NAME_LENGTH nm) =
    Inr (Some (new_account uuid nm))"
  using assms
  by (simp add: generate_user_account_malloc_or_null_def new_account_def field_okD strncpy_uuid_text clib)

lemma store_user_spec:
  assumes D: "dbs E tab opn w t" and F: "field_ok tok" "field_ok nm" "field_ok pw"
    and L: "length tok < TOKEN_NAME_LENGTH" "length nm < TOKEN_NAME_LENGTH" "length pw < PSWD_MAX_LENGTH"
  shows "\<exists>uuid w'. uuid_text uuid \<and>
    store_user E w (nul_pad TOKEN_NAME_LENGTH tok) (nul_pad TOKEN_NAME_LENGTH nm) (nul_pad PSWD_MAX_LENGTH pw) = Inr w' \<and>
    dbs E tab opn w' (tput (tput (tput t DB_DISPLAY_NAMES (nul_pad TOKEN_NAME_LENGTH nm) uuid)
      DB_LOGIN_INFO (nul_pad TOKEN_NAME_LENGTH tok) (encode_user_login (new_login tok pw uuid)))
      DB_USER_ACCOUNT uuid (encode_user_account (host_le E) (new_account uuid nm)))"
proof -
  obtain u w1 where u: "generate_random_uuid_malloc E w = (Some (lit u), w1)" "dbs E tab opn w1 t" "uuid_text (lit u)"
    using dbs_uuid [OF D] by blast
  note l = new_login_ok [OF F(1,3) L(1,3) u(3)] and a = new_account_ok [OF F(2) L(2) u(3)]
  obtain w2 where w2: "insert_display_name E w1 (nul_pad TOKEN_NAME_LENGTH nm) (lit u) = Inr (0, w2)"
    "dbs E tab opn w2 (tput t DB_DISPLAY_NAMES (nul_pad TOKEN_NAME_LENGTH nm) (lit u))"
    using dbs_put_name [OF u(2) _ u(3), of "nul_pad TOKEN_NAME_LENGTH nm"] L(2) by auto
  obtain w3 where w3: "insert_user_login E w2 (new_login tok pw (lit u)) = Inr (0, w3)"
    "dbs E tab opn w3 (tput (tput t DB_DISPLAY_NAMES (nul_pad TOKEN_NAME_LENGTH nm) (lit u))
      DB_LOGIN_INFO (nul_pad TOKEN_NAME_LENGTH tok) (encode_user_login (new_login tok pw (lit u))))"
    using dbs_put_login [OF w2(2) l] by (auto simp: new_login_def)
  obtain w4 where w4: "insert_user_account E w3 (new_account (lit u) nm) = Inr (0, w4)"
    "dbs E tab opn w4 (tput (tput (tput t DB_DISPLAY_NAMES (nul_pad TOKEN_NAME_LENGTH nm) (lit u))
      DB_LOGIN_INFO (nul_pad TOKEN_NAME_LENGTH tok) (encode_user_login (new_login tok pw (lit u))))
      DB_USER_ACCOUNT (lit u) (encode_user_account (host_le E) (new_account (lit u) nm)))"
    using dbs_put_account [OF w3(2) a] by (auto simp: new_account_def)
  have "store_user E w (nul_pad TOKEN_NAME_LENGTH tok) (nul_pad TOKEN_NAME_LENGTH nm) (nul_pad PSWD_MAX_LENGTH pw) = Inr w4"
    using F L u w2(1) w3(1) w4(1) dbs_malloc [OF D]
    by (simp add: store_user_def generate_user_login_spec generate_user_account_spec)
  with u(3) w4(2) show ?thesis by blast
qed

lemma nul_pad_0 [simp]: "field_ok s \<Longrightarrow> nul_pad n s ! 0 \<noteq> NUL"
  by (cases s) (auto simp: field_ok_def nul_pad_def)

lemma nul_pad_end [simp]: "length s < n \<Longrightarrow> (nul_pad n s)[length s := NUL] = nul_pad n s"
  by (simp add: nul_pad_def list_update_append) (metis list_update_id length_zeros nth_zeros zero_less_diff)

lemma destroy_denied_spec:
  assumes "wf_user u" "login_strings l" "NUL \<notin> set nm" "NUL \<notin> set pw" "length nm < TOKEN_NAME_LENGTH" "length pw < PSWD_MAX_LENGTH"
  shows "destroy_denied u (Some l) (Some a) (nul_pad TOKEN_NAME_LENGTH nm) (nul_pad PSWD_MAX_LENGTH pw) =
    Inr (user_name u \<noteq> nm \<and> cstr (ul_password l) \<noteq> pw \<and> ua_privilege_level a = 0)"
  using assms by (simp add: destroy_denied_def login_strings_def clib)

text \<open>What the handler does once the request and the sender are looked up.\<close>

definition destroy_tail ::
  "'w env \<Rightarrow> 'w server \<Rightarrow> bytes \<Rightarrow> bytes \<Rightarrow> user_login option \<Rightarrow> user_account \<Rightarrow> bool \<Rightarrow> ((int \<times> bytes) \<times> 'w server) result"
where
  "destroy_tail E s token_out display_name login_info sender authorised =
     (if login_info = None \<and> ua_privilege_level sender = 1 then Inr ((2, token_out), s)
      else if \<not> authorised then Inr ((3, token_out), s)
      else bindR (assertR (login_info \<noteq> None)) (\<lambda>_.
         bindR (deref login_info) (\<lambda>l.
         bindR (remove_display_name E (world s) display_name) (\<lambda>(_, w).
         bindR (remove_user_account E w (ul_uuid l)) (\<lambda>(_, w).
         bindR (remove_user_login E w (ul_login_token l)) (\<lambda>(_, w).
         bindR (strncpy token_out display_name TOKEN_NAME_LENGTH) (\<lambda>token_out.
           Inr ((0, token_out), s\<lparr>world := w\<rparr>))))))))"

lemma destroy_run:
  assumes D: "dbs E tab opn (world s) t" and B: "body_at s fd n tr [nm, tok, pw]" and C: "wf_cache (cache s)"
    and L: "length tok < TOKEN_NAME_LENGTH" "length nm < TOKEN_NAME_LENGTH" "length pw < PSWD_MAX_LENGTH"
    and S: "find (\<lambda>u. cu_fd u = fd) (users (cache s)) = Some u"
      "login_view t (cu_login_token u) = Some ls" "account_view (host_le E) t (cu_uuid u) = Some as"
  shows "\<exists>w. dbs E tab opn w t \<and> read_and_destroy_user E s fd token_out n =
    destroy_tail E ((consume s fd (unat n))\<lparr>world := w\<rparr>) token_out (nul_pad TOKEN_NAME_LENGTH nm)
      (login_view t (nul_pad TOKEN_NAME_LENGTH tok)) as
      (user_name u = nm \<or> cstr (ul_password ls) = pw \<or> ua_privilege_level as \<noteq> 0)"
proof -
  have F: "field_ok tok" "field_ok nm" "field_ok pw" using B by (simp_all add: body_at_def)
  let ?tk = "nul_pad TOKEN_NAME_LENGTH tok"
  have u: "wf_user u" "u \<in> set (users (cache s))"
    using S(1) wf_users [OF C, of u] by (auto simp: find_Some_iff)
  then have len: "length (cu_login_token u) = TOKEN_NAME_LENGTH" "length (cu_uuid u) = UUID_LEN"
    by (simp_all add: wf_user_def)
  obtain w1 where w1: "get_login_info_malloc_or_null E (world s) (cu_login_token u) = Inr (Some ls, w1)" "dbs E tab opn w1 t"
    using dbs_get_login [OF D len(1)] S(2) by auto
  obtain w2 where w2: "get_user_account_malloc_or_null E w1 (cu_uuid u) = Inr (Some as, w2)" "dbs E tab opn w2 t"
    using dbs_get_account [OF w1(2) len(2)] S(3) by auto
  obtain w3 where w3: "get_login_info_malloc_or_null E w2 ?tk = Inr (login_view t ?tk, w3)" "dbs E tab opn w3 t"
    using dbs_get_login [OF w2(2), of ?tk] L by auto
  have den: "destroy_denied u (Some ls) (Some as) (nul_pad TOKEN_NAME_LENGTH nm) (nul_pad PSWD_MAX_LENGTH pw) =
      Inr (user_name u \<noteq> nm \<and> cstr (ul_password ls) \<noteq> pw \<and> ua_privilege_level as = 0)"
    using destroy_denied_spec u(1) db_ok_login_view(3) [OF dbsD(4) [OF D] S(2)] F L by (simp add: field_okD)
  have blk: "strncpy (heap_junk E w2 TOKEN_NAME_LENGTH) ?tk TOKEN_NAME_LENGTH = Inr ?tk" "strlen ?tk = Inr (length tok)"
    using L F dbs_junk [OF D] by (simp_all add: field_okD clib)
  have "read_and_destroy_user E s fd token_out n =
    destroy_tail E ((consume s fd (unat n))\<lparr>world := w3\<rparr>) token_out (nul_pad TOKEN_NAME_LENGTH nm)
      (login_view t ?tk) as (user_name u = nm \<or> cstr (ul_password ls) = pw \<or> ua_privilege_level as \<noteq> 0)"
    using B F L S(1) C w1(1) w2(1) w3(1) dbs_malloc [OF D] den blk
    by (simp add: read_and_destroy_user_def get_by_fd_spec destroy_tail_def)
  with w3(2) show ?thesis by blast
qed

section \<open>Properties\<close>

lemma read_and_create_user_spec:
  assumes "dbs E tab opn (world s) t" and "body_at s fd n tr [tok, nm, pw]"
    and "length tok < TOKEN_NAME_LENGTH" "length nm < TOKEN_NAME_LENGTH" "length pw < PSWD_MAX_LENGTH"
    and "length token_out = TOKEN_NAME_LENGTH"
  shows "\<exists>r out s' t'. read_and_create_user E s fd token_out n = Inr ((r, out), s') \<and>
    dbs E tab opn (world s') t' \<and> cache s' = cache s \<and> sent s' = sent s \<and> closed s' = closed s \<and>
    (let tk = nul_pad TOKEN_NAME_LENGTH tok; dn = nul_pad TOKEN_NAME_LENGTH nm;
         taken_token = login_view t tk \<noteq> None; taken_name = name_view t dn \<noteq> None
     in if taken_token \<or> taken_name
        then r = (if taken_token \<and> taken_name then 3 else if taken_token then 1 else 2) \<and> t' = t \<and> out = token_out
        else r = 0 \<and> out = tk \<and> (\<exists>uuid. uuid_text uuid \<and>
          login_view t' = (login_view t)(tk \<mapsto> new_login tok pw uuid) \<and>
          name_view t' = (name_view t)(dn \<mapsto> uuid) \<and>
          account_view (host_le E) t' = (account_view (host_le E) t)(uuid \<mapsto> new_account uuid nm) \<and> talk_kept t t'))"
proof -
  have F: "field_ok tok" "field_ok nm" "field_ok pw" using assms(2) by (simp_all add: body_at_def)
  note len = assms(3-6)
  let ?tk = "nul_pad TOKEN_NAME_LENGTH tok" and ?dn = "nul_pad TOKEN_NAME_LENGTH nm"
  let ?s = "consume s fd (unat n)"
  obtain w1 where w1: "get_login_info_malloc_or_null E (world s) ?tk = Inr (login_view t ?tk, w1)" "dbs E tab opn w1 t"
    using dbs_get_login [OF assms(1), of ?tk] len by auto
  obtain w2 where w2: "check_duplicate_display_name E w1 ?dn = Inr (name_view t ?dn \<noteq> None, w2)" "dbs E tab opn w2 t"
    using dbs_check_name [OF w1(2), of ?dn] len by auto
  obtain uuid w3 where w3: "uuid_text uuid" "store_user E w2 ?tk ?dn (nul_pad PSWD_MAX_LENGTH pw) = Inr w3"
    "dbs E tab opn w3 (tput (tput (tput t DB_DISPLAY_NAMES ?dn uuid)
      DB_LOGIN_INFO ?tk (encode_user_login (new_login tok pw uuid)))
      DB_USER_ACCOUNT uuid (encode_user_account (host_le E) (new_account uuid nm)))" (is "dbs _ _ _ _ ?t'")
    using store_user_spec [OF w2(2) F len(1-3)] by blast
  have run: "read_and_create_user E s fd token_out n =
     (if login_view t ?tk \<noteq> None \<and> name_view t ?dn \<noteq> None then Inr ((3, token_out), ?s\<lparr>world := w2\<rparr>)
      else if login_view t ?tk \<noteq> None then Inr ((1, token_out), ?s\<lparr>world := w2\<rparr>)
      else if name_view t ?dn \<noteq> None then Inr ((2, token_out), ?s\<lparr>world := w2\<rparr>)
      else Inr ((0, ?tk), ?s\<lparr>world := w3\<rparr>))"
    using assms(2) F len w1(1) w2(1) w3(2) by (simp add: read_and_create_user_def field_okD)
  have v: "login_view ?t' = (login_view t)(?tk \<mapsto> new_login tok pw uuid)" "name_view ?t' = (name_view t)(?dn \<mapsto> uuid)"
    "account_view (host_le E) ?t' = (account_view (host_le E) t)(uuid \<mapsto> new_account uuid nm)"
    using new_login_ok [OF F(1,3) len(1,3) w3(1)] new_account_ok [OF F(2) len(2) w3(1)] by simp_all
  show ?thesis
  proof (cases "login_view t ?tk \<noteq> None \<or> name_view t ?dn \<noteq> None")
    case True
    with run w2(2) show ?thesis
      by (intro exI [of _ "if login_view t ?tk \<noteq> None \<and> name_view t ?dn \<noteq> None then 3
          else if login_view t ?tk \<noteq> None then 1 else 2"] exI [of _ token_out] exI [of _ "?s\<lparr>world := w2\<rparr>"] exI [of _ t])
        (auto simp: Let_def)
  next
    case False
    moreover have "talk_kept t ?t'" by simp
    ultimately show ?thesis using run w3 v
      by (intro exI [of _ 0] exI [of _ ?tk] exI [of _ "?s\<lparr>world := w3\<rparr>"] exI [of _ ?t']) (auto simp: Let_def)
  qed
qed





text \<open>Deleting a user that does not exist. A privileged sender gets the answer 2 and an unprivileged one
  with neither name nor password right the answer 3; but an unprivileged sender whose display name or password
  matches makes the assertion \<^verbatim>\<open>is_token_duplicate == true\<close> fail, which ends the server.\<close>

lemma read_and_destroy_user_missing:
  assumes "dbs E tab opn (world s) t" and "body_at s fd n tr [nm, tok, pw]" and "wf_cache (cache s)"
    and "length tok < TOKEN_NAME_LENGTH" "length nm < TOKEN_NAME_LENGTH" "length pw < PSWD_MAX_LENGTH"
    and "find (\<lambda>u. cu_fd u = fd) (users (cache s)) = Some u"
    and "login_view t (cu_login_token u) = Some ls" and "account_view (host_le E) t (cu_uuid u) = Some as"
    and "login_view t (nul_pad TOKEN_NAME_LENGTH tok) = None" and "ua_privilege_level as \<in> {0, 1}"
  shows "if ua_privilege_level as = 0 \<and> (user_name u = nm \<or> cstr (ul_password ls) = pw)
    then read_and_destroy_user E s fd token_out n = Inl AssertFailed
    else \<exists>s'. read_and_destroy_user E s fd token_out n =
      Inr ((if ua_privilege_level as = 1 then 2 else 3, token_out), s') \<and> dbs E tab opn (world s') t"
proof -
  obtain w where w: "dbs E tab opn w t" "read_and_destroy_user E s fd token_out n =
    destroy_tail E ((consume s fd (unat n))\<lparr>world := w\<rparr>) token_out (nul_pad TOKEN_NAME_LENGTH nm) None as
      (user_name u = nm \<or> cstr (ul_password ls) = pw \<or> ua_privilege_level as \<noteq> 0)"
    using destroy_run [OF assms(1-9), of token_out] assms(10) by auto
  then show ?thesis using assms(11) by (auto simp: destroy_tail_def)
qed

end
