(* ===== verification/Auth.thy ===== *)
theory Auth
  imports Users
begin

text \<open>
  Login and logout: \<^verbatim>\<open>read_and_login_user\<close>, \<^verbatim>\<open>read_and_logout_user\<close>, the list of channel names that a login
  answers with, and the two functions that mark an account online and offline. A login stores the address
  of the client in the account and an entry in the cache; a logout undoes both.
\<close>

section \<open>The list of channel names\<close>

fun name_list_size :: "channel_info list \<Rightarrow> nat result" where
  "name_list_size [] = Inr 0"
| "name_list_size (c # cs) = bindR (strlen (ch_channel_name c)) (\<lambda>n. bindR (name_list_size cs) (\<lambda>m. Inr (n + 1 + m)))"

text \<open>A store of one byte and a \<^verbatim>\<open>strcpy\<close> at an offset of a block.\<close>

definition store_at :: "bytes \<Rightarrow> nat \<Rightarrow> char \<Rightarrow> bytes result" where
  "store_at list i c = (if i < length list then Inr (list[i := c]) else Inl BufferOverflow)"

definition strcpy_at :: "bytes \<Rightarrow> nat \<Rightarrow> bytes \<Rightarrow> bytes result" where
  "strcpy_at list offset src = bindR (strcpy (drop offset list) src) (\<lambda>r. Inr (take offset list @ r))"

fun name_list_loop :: "channel_info list \<Rightarrow> bytes \<Rightarrow> nat \<Rightarrow> (bytes \<times> nat) result" where
  "name_list_loop [] list offset = Inr (list, offset)"
| "name_list_loop (c # cs) list offset =
     bindR (strcpy_at list offset (ch_channel_name c)) (\<lambda>list.
     bindR (strlen (ch_channel_name c)) (\<lambda>n.
     bindR (store_at list (offset + n) ETX) (\<lambda>list.
       name_list_loop cs list (Suc (offset + n)))))"

definition build_channel_name_list :: "'w env \<Rightarrow> 'w \<Rightarrow> channel_info list \<Rightarrow> bytes option result" where
  "build_channel_name_list E w channels =
     bindR (name_list_size channels) (\<lambda>size.
       if \<not> malloc_ok E w (size + 1) then Inr None
       else bindR (name_list_loop channels (heap_junk E w (size + 1)) 0) (\<lambda>(list, offset).
         bindR (store_at list offset NUL) (\<lambda>list. Inr (Some list))))"

section \<open>Login\<close>

definition login_user_account_malloc_or_null :: "user_account option \<Rightarrow> bytes \<Rightarrow> user_account option result" where
  "login_user_account_malloc_or_null user_acc clnt_addr =
     (case user_acc of
        None \<Rightarrow> Inr None
      | Some a \<Rightarrow>
          bindR (strncpy (ua_ip_addr a) clnt_addr CLNT_IP_ADDR_LENGTH) (\<lambda>ip.
          bindR (strcmp_eq (ua_display_name a) (lit ''admin'')) (\<lambda>adm.
            Inr (Some (a\<lparr>ua_ip_addr := ip, ua_online_status := True,
              ua_privilege_level := (if adm then 1 else ua_privilege_level a)\<rparr>)))))"

definition logout_user_account_malloc_or_null :: "user_account option \<Rightarrow> user_account option result" where
  "logout_user_account_malloc_or_null user_acc =
     (case user_acc of
        None \<Rightarrow> Inr None
      | Some a \<Rightarrow> bindR (strncpy (ua_ip_addr a) (lit ''0'') CLNT_IP_ADDR_LENGTH) (\<lambda>ip.
          Inr (Some (a\<lparr>ua_ip_addr := ip, ua_online_status := False\<rparr>))))"

text \<open>The loop of lines 454 to 462: whether the user is connected from another address.\<close>

fun other_address :: "user_account option \<Rightarrow> bytes \<Rightarrow> connected_user list \<Rightarrow> bool result" where
  "other_address user_account clnt_addr [] = Inr False"
| "other_address user_account clnt_addr (u # us) =
     bindR (deref user_account) (\<lambda>a.
     bindR (strcmp_eq (cu_dsply_name u) (ua_display_name a)) (\<lambda>same_name.
     bindR (if same_name then strcmp_eq (cu_ip_address u) clnt_addr else Inr True) (\<lambda>same_addr.
       if same_name \<and> \<not> same_addr \<and> ua_online_status a then Inr True
       else other_address user_account clnt_addr us)))"

text \<open>Lines 474 to 493: the channels, or an empty list in a block of the size of a pointer, and the text of
  the answer.\<close>

definition channels_or_empty :: "'w env \<Rightarrow> 'w \<Rightarrow> (channel_info list \<times> 'w) result" where
  "channels_or_empty E w =
     bindR (get_all_channels E w) (\<lambda>(channel_list, w). case channel_list of
       Some cs \<Rightarrow> Inr (cs, w)
     | None \<Rightarrow>
         if \<not> malloc_ok E w 8 then Inl NullDeref
         else if 8 + heap_slack E < 16 then Inl BufferOverflow
         else Inr ([], w))"

definition login_answer ::
  "'w env \<Rightarrow> 'w \<Rightarrow> bytes \<Rightarrow> bytes \<Rightarrow> 32 word \<Rightarrow> channel_info list \<Rightarrow> bytes result"
where
  "login_answer E w token_out display_name privilege_level channels =
     bindR (build_channel_name_list E w channels) (\<lambda>list.
     bindR (deref list) (\<lambda>channel_name_list.
     bindR (c_string display_name) (\<lambda>dn.
     bindR (c_string channel_name_list) (\<lambda>names.
     if \<not> malloc_ok E w DEFAULT_BUFFER then Inl NullDeref
     else bindR (snprintf (heap_junk E w DEFAULT_BUFFER) DEFAULT_BUFFER
         (dn @ [ETX] @ show_int (sint privilege_level) @ [ETX] @ show_nat (length channels) @ [ETX] @ names)) (\<lambda>response_body.
       strncpy token_out response_body DEFAULT_BUFFER)))))"

definition read_and_login_user ::
  "'w env \<Rightarrow> 'w server \<Rightarrow> int \<Rightarrow> bytes \<Rightarrow> bytes \<Rightarrow> 16 word \<Rightarrow> ((int \<times> bytes) \<times> 'w server) result"
where
  "read_and_login_user E s fd token_out clnt_addr body_size =
     bindR (read_body s fd body_size) (\<lambda>(body, s). case body of
       None \<Rightarrow> Inr ((-1, token_out), s)
     | Some buffer \<Rightarrow>
         let (token, rest) = next_token buffer
         in bindR (copy_token (zeros TOKEN_NAME_LENGTH) token) (\<lambda>login_token.
         let (token, rest) = next_token rest
         in bindR (copy_token (zeros PSWD_MAX_LENGTH) token) (\<lambda>password.
         bindR (get_login_info_malloc_or_null E (world s) login_token) (\<lambda>(found, w). case found of
           None \<Rightarrow> Inr ((2, token_out), s\<lparr>world := w\<rparr>)
         | Some login_info \<Rightarrow>
         bindR (compare_strings (ul_password login_info) password) (\<lambda>pw_ok.
         bindR (if pw_ok then compare_strings (ul_login_token login_info) login_token else Inr False) (\<lambda>cred_ok.
         if \<not> cred_ok then Inr ((1, token_out), s\<lparr>world := w\<rparr>)
         else bindR (if malloc_ok E w UUID_LEN then Inr (heap_junk E w UUID_LEN) else Inl NullDeref) (\<lambda>block.
         bindR (strncpy block (ul_uuid login_info) UUID_LEN) (\<lambda>clnt_uuid.
         bindR (strlen clnt_uuid) (\<lambda>n.
         bindR (get_user_account_malloc_or_null E w (clnt_uuid[n := NUL])) (\<lambda>(user_account, w).
         bindR (get_num_connected_users (cache s)) (\<lambda>active_users_count.
         bindR (other_address user_account clnt_addr (take active_users_count (cache s))) (\<lambda>elsewhere.
         if elsewhere
         then bindR (strncpy token_out login_token TOKEN_NAME_LENGTH) (\<lambda>token_out.
           bindR (deref user_account) (\<lambda>a.
           bindR (insert_user_in_cache E w fd (cache s) a login_info active_users_count) (\<lambda>c.
             Inr ((9, token_out), s\<lparr>world := w, cache := c\<rparr>))))
         else bindR (login_user_account_malloc_or_null user_account clnt_addr) (\<lambda>user_account.
         bindR (case user_account of None \<Rightarrow> Inr w
           | Some a \<Rightarrow> bindR (insert_user_account E w a) (\<lambda>(_, w). Inr w)) (\<lambda>w.
         bindR (deref user_account) (\<lambda>a.
         bindR (strncpy (zeros DSPLY_NAME_LENGTH) (ua_display_name a) TOKEN_NAME_LENGTH) (\<lambda>display_name.
         bindR (channels_or_empty E w) (\<lambda>(channels, w).
         bindR (login_answer E w token_out display_name (ua_privilege_level a) channels) (\<lambda>token_out.
         bindR (find_connected_user_with_same_cred a (cache s) active_users_count fd) (\<lambda>same_cred.
         bindR (if same_cred \<and> active_users_count \<noteq> 0 then Inr (cache s)
                else insert_user_in_cache E w fd (cache s) a login_info active_users_count) (\<lambda>c.
           Inr ((0, token_out), s\<lparr>world := w, cache := c\<rparr>)))))))))))))))))))))"

section \<open>Logout\<close>

text \<open>The switch of lines 605 to 632 falls through from the case 0 to the case 1; a privilege level other
  than these two skips both, which leaves \<^verbatim>\<open>is_token_duplicate\<close> false. \<open>Some r\<close> is a jump to the exit with
  result \<open>r\<close>.\<close>

definition logout_checks :: "user_account \<Rightarrow> bytes \<Rightarrow> (int option \<times> bool) result" where
  "logout_checks a clnt_addr =
     bindR (if ua_privilege_level a = 0
       then bindR (strcmp_eq (ua_ip_addr a) clnt_addr) (\<lambda>same. Inr (\<not> same)) else Inr False) (\<lambda>mismatch.
     if mismatch then Inr (Some 2, True)
     else if ua_privilege_level a = 0 \<or> ua_privilege_level a = 1
     then (if \<not> ua_online_status a then Inr (Some 4, True) else Inr (None, True))
     else Inr (None, False))"

definition read_and_logout_user ::
  "'w env \<Rightarrow> 'w server \<Rightarrow> int \<Rightarrow> bytes \<Rightarrow> bytes \<Rightarrow> 16 word \<Rightarrow> ((int \<times> bytes) \<times> 'w server) result"
where
  "read_and_logout_user E s fd token_out clnt_addr body_size =
     bindR (read_body s fd body_size) (\<lambda>(body, s). case body of
       None \<Rightarrow> Inr ((-1, token_out), s)
     | Some buffer \<Rightarrow>
         let (token, rest) = next_token buffer
         in bindR (copy_token (zeros DSPLY_NAME_LENGTH) token) (\<lambda>display_name.
         bindR (get_uuid_with_display_name_or_null E (world s) display_name) (\<lambda>(found, w). case found of
           None \<Rightarrow> Inr ((500, token_out), s\<lparr>world := w\<rparr>)
         | Some uuid_of_user \<Rightarrow>
         bindR (get_user_account_malloc_or_null E w uuid_of_user) (\<lambda>(account, w). case account of
           None \<Rightarrow> Inr ((500, token_out), s\<lparr>world := w\<rparr>)
         | Some user_account \<Rightarrow>
         bindR (logout_checks user_account clnt_addr) (\<lambda>(exit, is_token_duplicate). case exit of
           Some r \<Rightarrow> Inr ((r, token_out), s\<lparr>world := w\<rparr>)
         | None \<Rightarrow>
         bindR (assertR (is_token_duplicate \<and> ua_online_status user_account)) (\<lambda>_.
         bindR (logout_user_account_malloc_or_null (Some user_account)) (\<lambda>acc.
         bindR (deref acc) (\<lambda>a.
         bindR (insert_user_account E w a) (\<lambda>(_, w).
         bindR (strncpy token_out (ua_display_name a) DSPLY_NAME_LENGTH) (\<lambda>token_out.
         bindR (get_num_connected_users (cache s)) (\<lambda>n.
         bindR (remove_user_in_cache (cache s) a n) (\<lambda>c.
           Inr ((0, token_out), s\<lparr>world := w, cache := c\<rparr>)))))))))))))"

section \<open>Lemmas\<close>

definition channel_names :: "channel_info list \<Rightarrow> string" where
  "channel_names cs = concat (map (\<lambda>c. msg (cstr (ch_channel_name c))) cs)"

lemma channel_names_simps [simp]:
  "channel_names [] = []" "channel_names (c # cs) = msg (cstr (ch_channel_name c)) @ channel_names cs"
  by (simp_all add: channel_names_def)

lemma channel_names_no_NUL [simp]: "NUL \<notin> set (channel_names cs)"
  by (induction cs) auto

lemma name_list_size_spec:
  "list_all (\<lambda>c. terminated (ch_channel_name c)) cs \<Longrightarrow> name_list_size cs = Inr (length (channel_names cs))"
  by (induction cs) (auto simp: clib)

lemma take_store: "i < length l \<Longrightarrow> take (Suc i) (l[i := c]) = take i l @ [c]"
  by (simp add: take_Suc_conv_app_nth)

lemma name_list_loop_spec:
  assumes "list_all (\<lambda>c. terminated (ch_channel_name c)) cs" "off + length (channel_names cs) < length l"
  shows "\<exists>l'. name_list_loop cs l off = Inr (l', off + length (channel_names cs)) \<and> length l' = length l \<and>
    take (off + length (channel_names cs)) l' = take off l @ channel_names cs"
  using assms
proof (induction cs arbitrary: l off)
  case (Cons c cs)
  let ?n = "cstr (ch_channel_name c)"
  let ?k = "off + length ?n"
  let ?l1 = "take off l @ lit ?n @ drop (Suc (length ?n)) (drop off l)"
  have copy: "strcpy_at l off (ch_channel_name c) = Inr ?l1"
    using Cons.prems by (simp add: strcpy_at_def clib)
  have len: "length ?l1 = length l" "?k < length ?l1" using Cons.prems by auto
  have t1: "take (Suc ?k) (?l1[?k := ETX]) = take off l @ msg ?n"
    using len Cons.prems by (simp add: take_store) (simp add: msg_def lit_def)
  define l2 where "l2 = ?l1[?k := ETX]"
  have l2: "length l2 = length l" "take (Suc ?k) l2 = take off l @ msg ?n" using len(1) t1 by (simp_all add: l2_def)
  have "list_all (\<lambda>c. terminated (ch_channel_name c)) cs" "Suc ?k + length (channel_names cs) < length l2"
    using Cons.prems l2(1) by simp_all
  from Cons.IH [OF this]
  obtain l' where l': "name_list_loop cs l2 (Suc ?k) = Inr (l', Suc ?k + length (channel_names cs))"
    "length l' = length l" "take (Suc ?k + length (channel_names cs)) l' = take off l @ msg ?n @ channel_names cs"
    using l2 by auto
  have "name_list_loop (c # cs) l off = Inr (l', off + length (channel_names (c # cs)))"
    using copy len l'(1) Cons.prems by (simp add: store_at_def clib l2_def add.assoc)
  with l'(2,3) show ?case by (simp add: add.assoc)
qed simp

lemma build_channel_name_list_spec:
  assumes "list_all (\<lambda>c. terminated (ch_channel_name c)) cs" "\<And>n. malloc_ok E w n" "\<And>n. length (heap_junk E w n) = n"
  shows "build_channel_name_list E w cs = Inr (Some (lit (channel_names cs)))"
proof -
  let ?n = "length (channel_names cs)"
  obtain l where l: "name_list_loop cs (heap_junk E w (?n + 1)) 0 = Inr (l, ?n)" "length l = Suc ?n"
    "take ?n l = channel_names cs"
    using name_list_loop_spec [of cs 0 "heap_junk E w (?n + 1)"] assms by auto
  have "l[?n := NUL] = take (Suc ?n) (l[?n := NUL])" using l(2) by simp
  also have "\<dots> = lit (channel_names cs)" using l(2,3) by (simp add: take_store lit_def del: take_all)
  finally show ?thesis
    using l assms by (simp add: build_channel_name_list_def name_list_size_spec store_at_def)
qed

lemma other_address_spec:
  assumes "list_all wf_user us" "terminated (ua_display_name a)" "terminated addr"
  shows "other_address (Some a) addr us = Inr (\<exists>u \<in> set us. user_name u = cstr (ua_display_name a) \<and>
    cstr (cu_ip_address u) \<noteq> cstr addr \<and> ua_online_status a)"
  using assms by (induction us) auto

text \<open>The channels of a table, in the order of some traversal.\<close>

definition table_channels :: "table_state \<Rightarrow> channel_info list \<Rightarrow> bool" where
  "table_channels t cs \<longleftrightarrow> (\<exists>keys. distinct keys \<and> set keys = dom (content t DB_CHANNEL_INFO) \<and>
     cs = chan_list (content t DB_CHANNEL_INFO) keys)"

lemma table_channels_wf:
  assumes "db_ok le t" "table_channels t cs" "c \<in> set cs"
  shows "wf_channel_info c" "terminated (ch_channel_name c)"
    "content t DB_CHANNEL_INFO (ch_channel_id c) = Some (encode_channel_info c)"
proof -
  have C: "chan_table (content t DB_CHANNEL_INFO)" using assms(1) by (simp add: db_ok_def)
  from assms(2,3) obtain k v where k: "content t DB_CHANNEL_INFO k = Some v"
    "c = projr (decode_channel_info (the (content t DB_CHANNEL_INFO k)))"
    by (fastforce simp: table_channels_def chan_list_def)
  obtain c' where c': "v = encode_channel_info c'" "wf_channel_info c'" "ch_channel_id c' = k"
    "terminated (ch_channel_name c')" "projr (decode_channel_info (the (content t DB_CHANNEL_INFO k))) = c'"
    using chan_tableD [OF C k(1)] .
  then have "c = c'" using k(2) by simp
  with c' k(1)
  show "wf_channel_info c" "terminated (ch_channel_name c)"
    "content t DB_CHANNEL_INFO (ch_channel_id c) = Some (encode_channel_info c)" by simp_all
qed

lemma dbs_channels:
  assumes D: "dbs E tab opn w t"
  shows "\<exists>cs w'. channels_or_empty E w = Inr (cs, w') \<and> dbs E tab opn w' t \<and> table_channels t cs"
proof -
  obtain w' keys where w': "opn w' = []" "tab w' = t" "distinct keys" "set keys = dom (content t DB_CHANNEL_INFO)"
    "get_all_channels E w = Inr (if t DB_CHANNEL_INFO = None then None
      else Some (chan_list (content t DB_CHANNEL_INFO) keys), w')"
    using get_all_channels_spec [OF dbsD(1,2) [OF D]] dbsD(3,4) [OF D] by (auto simp: db_ok_def)
  have "channels_or_empty E w = Inr (chan_list (content t DB_CHANNEL_INFO) keys, w')"
    using w' dbs_malloc [OF D] D by (auto simp: channels_or_empty_def content_def dbs_def)
  moreover have "table_channels t (chan_list (content t DB_CHANNEL_INFO) keys)"
    using w'(3,4) by (auto simp: table_channels_def)
  ultimately show ?thesis using dbsI [OF D w'(1,2) dbsD(4) [OF D]] by blast
qed

definition login_text :: "string \<Rightarrow> 32 word \<Rightarrow> channel_info list \<Rightarrow> string" where
  "login_text nm priv cs = msg nm @ msg (show_int (sint priv)) @ msg (show_nat (length cs)) @ channel_names cs"

lemma login_text_no_NUL: "NUL \<notin> set nm \<Longrightarrow> NUL \<notin> set (login_text nm priv cs)"
  by (simp add: login_text_def)

lemma login_answer_spec:
  assumes D: "dbs E tab opn w t" and N: "terminated dn" and C: "\<And>c. c \<in> set cs \<Longrightarrow> terminated (ch_channel_name c)"
    and O: "length token_out = BIG_TOKEN_NAME_LENGTH"
  shows "\<exists>out. login_answer E w token_out dn priv cs = Inr out \<and> length out = BIG_TOKEN_NAME_LENGTH \<and> terminated out \<and>
    cstr out = take 1023 (login_text (cstr dn) priv cs)"
proof -
  let ?t = "take 1023 (login_text (cstr dn) priv cs)"
  have t: "NUL \<notin> set ?t" using login_text_no_NUL [of "cstr dn" priv cs] in_set_takeD by fastforce
  have tx: "cstr dn @ [ETX] @ show_int (sint priv) @ [ETX] @ show_nat (length cs) @ [ETX] @ channel_names cs =
      login_text (cstr dn) priv cs" by (simp add: login_text_def msg_def)
  have b: "build_channel_name_list E w cs = Inr (Some (lit (channel_names cs)))"
    by (rule build_channel_name_list_spec) (use C dbs_malloc [OF D] dbs_junk [OF D] in \<open>auto simp: list_all_iff\<close>)
  have s: "snprintf (heap_junk E w DEFAULT_BUFFER) DEFAULT_BUFFER (login_text (cstr dn) priv cs) =
      Inr (lit ?t @ drop (Suc (length ?t)) (heap_junk E w DEFAULT_BUFFER))"
    using t dbs_junk [OF D] by (simp add: snprintf_def strcpy_eq_Inr)
  have n: "strncpy token_out (lit ?t @ drop (Suc (length ?t)) (heap_junk E w DEFAULT_BUFFER)) DEFAULT_BUFFER =
      Inr (nul_pad DEFAULT_BUFFER ?t @ drop DEFAULT_BUFFER token_out)"
  proof -
    have "cstr (take DEFAULT_BUFFER (lit ?t @ drop (Suc (length ?t)) (heap_junk E w DEFAULT_BUFFER))) = ?t"
      using t by simp
    then show ?thesis using O dbs_junk [OF D] by (simp add: strncpy_eq_Inr)
  qed
  have "login_answer E w token_out dn priv cs = Inr (nul_pad DEFAULT_BUFFER ?t @ drop DEFAULT_BUFFER token_out)"
    using b N s n dbs_malloc [OF D] unfolding login_answer_def tx [symmetric] by (simp add: clib)
  moreover have "length ?t < DEFAULT_BUFFER" by simp
  ultimately show ?thesis
    using O t by simp
qed

text \<open>The account after a login from an address and after a logout.\<close>

definition logged_in :: "user_account \<Rightarrow> bytes \<Rightarrow> user_account" where
  "logged_in a addr = a\<lparr>ua_ip_addr := nul_pad CLNT_IP_ADDR_LENGTH (cstr addr), ua_online_status := True,
     ua_privilege_level := (if cstr (ua_display_name a) = ''admin'' then 1 else ua_privilege_level a)\<rparr>"

definition logged_out :: "user_account \<Rightarrow> user_account" where
  "logged_out a = a\<lparr>ua_ip_addr := nul_pad CLNT_IP_ADDR_LENGTH ''0'', ua_online_status := False\<rparr>"

text \<open>A client address is an array of 16 bytes with a terminated text.\<close>

definition addr_ok :: "bytes \<Rightarrow> bool" where
  "addr_ok addr \<longleftrightarrow> length addr = CLNT_IP_ADDR_LENGTH \<and> terminated addr"

lemma logged_in_ok:
  assumes "wf_user_account a" "account_strings a" "addr_ok addr"
  shows "wf_user_account (logged_in a addr)" "account_strings (logged_in a addr)"
    "login_user_account_malloc_or_null (Some a) addr = Inr (Some (logged_in a addr))"
    "ua_display_name (logged_in a addr) = ua_display_name a" "ua_user_id (logged_in a addr) = ua_user_id a"
    "cstr (ua_ip_addr (logged_in a addr)) = cstr addr"
  using assms length_cstr_less [of addr]
  by (auto simp: logged_in_def wf_user_account_def account_strings_def addr_ok_def max_def
      login_user_account_malloc_or_null_def clib)

lemma logged_out_ok:
  assumes "wf_user_account a" "account_strings a"
  shows "wf_user_account (logged_out a)" "account_strings (logged_out a)"
    "logout_user_account_malloc_or_null (Some a) = Inr (Some (logged_out a))"
    "ua_display_name (logged_out a) = ua_display_name a" "ua_user_id (logged_out a) = ua_user_id a"
  using assms
  by (auto simp: logged_out_def wf_user_account_def account_strings_def logout_user_account_malloc_or_null_def clib)

lemma find_isSome: "(find p us \<noteq> None) = (\<exists>u \<in> set us. p u)"
  by (induction us) auto

lemma same_cred_spec:
  assumes "list_all wf_user us" "terminated (ua_display_name a)" "terminated (ua_ip_addr a)" "us = take n c" "n = length us"
  shows "find_connected_user_with_same_cred a c n fd = Inr (\<exists>u \<in> set us.
    cstr (cu_ip_address u) = cstr (ua_ip_addr a) \<and> user_name u = cstr (ua_display_name a) \<and> cu_fd u = fd)"
proof (cases "n = 0")
  case False
  let ?p = "\<lambda>u. cstr (cu_ip_address u) = cstr (ua_ip_addr a) \<and> user_name u = cstr (ua_display_name a) \<and> cu_fd u = fd"
  have "find_loop (\<lambda>u. andR (strcmp_eq (ua_ip_addr a) (cu_ip_address u))
      (andR (strcmp_eq (ua_display_name a) (cu_dsply_name u)) (Inr (fd = cu_fd u)))) us = Inr (find ?p us)"
    by (rule find_loop_spec) (use assms(1-3) in \<open>auto simp: list_all_iff\<close>)
  then have "find_connected_user_with_same_cred a c n fd = Inr (find ?p us \<noteq> None)"
    using False unfolding find_connected_user_with_same_cred_def assms(4) [symmetric] by simp
  then show ?thesis by (simp only: find_isSome)
qed (use assms(5) in \<open>simp add: find_connected_user_with_same_cred_def\<close>)

text \<open>The steps of the login up to the comparison with the connected users.\<close>

lemma login_credentials:
  assumes D: "dbs E tab opn (world s) t" and B: "body_at s fd n tr [tok, pw]"
    and L: "length tok < TOKEN_NAME_LENGTH" "length pw < PSWD_MAX_LENGTH"
    and V: "login_view t (nul_pad TOKEN_NAME_LENGTH tok) = Some l"
  shows "compare_strings (ul_password l) (nul_pad PSWD_MAX_LENGTH pw) = Inr (squash (cstr (ul_password l)) = squash pw)"
    "compare_strings (ul_login_token l) (nul_pad TOKEN_NAME_LENGTH tok) = Inr True"
    "strncpy (heap_junk E w UUID_LEN) (ul_uuid l) UUID_LEN = Inr (ul_uuid l)"
    "strlen (ul_uuid l) = Inr (length (cstr (ul_uuid l)))" "(ul_uuid l)[length (cstr (ul_uuid l)) := NUL] = ul_uuid l"
    "length (ul_uuid l) = UUID_LEN"
proof -
  have F: "NUL \<notin> set tok" "NUL \<notin> set pw" using B by (simp_all add: body_at_def field_ok_def)
  note l = db_ok_login_view [OF dbsD(4) [OF D] V]
  show "compare_strings (ul_password l) (nul_pad PSWD_MAX_LENGTH pw) = Inr (squash (cstr (ul_password l)) = squash pw)"
    using l(3) F L by (simp add: compare_strings_squash login_strings_def)
  show "compare_strings (ul_login_token l) (nul_pad TOKEN_NAME_LENGTH tok) = Inr True"
    using l(2,3) F L by (simp add: compare_strings_squash login_strings_def)
  have u: "uuid_text (ul_uuid l)" using l(3) by (simp add: login_strings_def)
  then show "strncpy (heap_junk E w UUID_LEN) (ul_uuid l) UUID_LEN = Inr (ul_uuid l)"
    using dbs_junk [OF D] by (simp add: strncpy_uuid_text)
  show "strlen (ul_uuid l) = Inr (length (cstr (ul_uuid l)))" "length (ul_uuid l) = UUID_LEN"
    using u by (simp_all add: uuid_text_def clib)
  show "(ul_uuid l)[length (cstr (ul_uuid l)) := NUL] = ul_uuid l"
    using u nul_pad_end [of "cstr (ul_uuid l)" UUID_LEN] length_cstr_less [of "ul_uuid l"]
    unfolding uuid_text_def by metis
qed

text \<open>What follows once the account is found and no other session is in the way.\<close>

definition login_tail ::
  "'w env \<Rightarrow> 'w server \<Rightarrow> int \<Rightarrow> bytes \<Rightarrow> user_account \<Rightarrow> bytes \<Rightarrow> user_login \<Rightarrow> nat \<Rightarrow> ((int \<times> bytes) \<times> 'w server) result"
where
  "login_tail E s fd token_out a clnt_addr login_info count =
     bindR (login_user_account_malloc_or_null (Some a) clnt_addr) (\<lambda>user_account.
     bindR (deref user_account) (\<lambda>a.
     bindR (insert_user_account E (world s) a) (\<lambda>(_, w).
     bindR (strncpy (zeros DSPLY_NAME_LENGTH) (ua_display_name a) TOKEN_NAME_LENGTH) (\<lambda>display_name.
     bindR (channels_or_empty E w) (\<lambda>(channels, w).
     bindR (login_answer E w token_out display_name (ua_privilege_level a) channels) (\<lambda>token_out.
     bindR (find_connected_user_with_same_cred a (cache s) count fd) (\<lambda>same_cred.
     bindR (if same_cred \<and> count \<noteq> 0 then Inr (cache s)
            else insert_user_in_cache E w fd (cache s) a login_info count) (\<lambda>c.
       Inr ((0, token_out), s\<lparr>world := w, cache := c\<rparr>)))))))))"

lemma login_run:
  assumes D: "dbs E tab opn (world s) t" and B: "body_at s fd n tr [tok, pw]"
    and L: "length tok < TOKEN_NAME_LENGTH" "length pw < PSWD_MAX_LENGTH"
    and V: "login_view t (nul_pad TOKEN_NAME_LENGTH tok) = Some l"
    and P: "filter (\<lambda>c. \<not> isspace c) (cstr (ul_password l)) = filter (\<lambda>c. \<not> isspace c) pw"
    and A: "account_view (host_le E) t (ul_uuid l) = Some a" and R: "addr_ok addr" and C: "wf_cache (cache s)"
  shows "\<exists>w. dbs E tab opn w t \<and> read_and_login_user E s fd token_out addr n =
    (if \<exists>u \<in> set (users (cache s)). user_name u = cstr (ua_display_name a) \<and> cstr (cu_ip_address u) \<noteq> cstr addr \<and>
        ua_online_status a
     then bindR (strncpy token_out (nul_pad TOKEN_NAME_LENGTH tok) TOKEN_NAME_LENGTH) (\<lambda>token_out.
       bindR (insert_user_in_cache E w fd (cache s) a l (length (users (cache s)))) (\<lambda>c.
         Inr ((9, token_out), (consume s fd (unat n))\<lparr>world := w, cache := c\<rparr>)))
     else login_tail E ((consume s fd (unat n))\<lparr>world := w\<rparr>) fd token_out a addr l (length (users (cache s))))"
proof -
  let ?tk = "nul_pad TOKEN_NAME_LENGTH tok" and ?us = "users (cache s)"
  have F: "field_ok tok" "field_ok pw" using B by (simp_all add: body_at_def)
  note cr = login_credentials [OF D B L V] and ac = db_ok_account_view [OF dbsD(4) [OF D] A]
  have pw: "squash (cstr (ul_password l)) = squash pw" using P by (simp add: squash_def)
  have us: "list_all wf_user ?us" using wf_users [OF C] by (auto simp: list_all_iff)
  have str: "terminated (ua_display_name a)" "terminated addr"
    using ac(3) R by (simp_all add: account_strings_def addr_ok_def)
  obtain w1 where w1: "get_login_info_malloc_or_null E (world s) ?tk = Inr (Some l, w1)" "dbs E tab opn w1 t"
    using dbs_get_login [OF D, of ?tk] L V by auto
  obtain w2 where w2: "get_user_account_malloc_or_null E w1 (ul_uuid l) = Inr (Some a, w2)" "dbs E tab opn w2 t"
    using dbs_get_account [OF w1(2) cr(6)] A by auto
  note lg = logged_in_ok [OF ac(1,3) R]
  obtain w3 where w3: "insert_user_account E w2 (logged_in a addr) = Inr (0, w3)"
    using dbs_put_account [OF w2(2) lg(1,2)] by blast
  define other where "other = (\<exists>u \<in> set ?us. user_name u = cstr (ua_display_name a) \<and> cstr (cu_ip_address u) \<noteq> cstr addr \<and>
      ua_online_status a)"
  have el: "other_address (Some a) addr ?us = Inr other"
    using other_address_spec [OF us str] by (simp only: other_def)
  have "read_and_login_user E s fd token_out addr n =
    (if other then bindR (strncpy token_out ?tk TOKEN_NAME_LENGTH) (\<lambda>token_out.
       bindR (insert_user_in_cache E w2 fd (cache s) a l (length ?us)) (\<lambda>c.
         Inr ((9, token_out), (consume s fd (unat n))\<lparr>world := w2, cache := c\<rparr>)))
     else login_tail E ((consume s fd (unat n))\<lparr>world := w2\<rparr>) fd token_out a addr l (length ?us))"
    using B L F C cr pw w1(1) w2(1) w3 el lg(3) dbs_malloc [OF D]
    by (simp add: read_and_login_user_def login_tail_def cong: if_cong)
  with w2(2) show ?thesis unfolding other_def by blast
qed

lemma login_tail_spec:
  assumes D: "dbs E tab opn (world s) t" and V: "login_view t k = Some l" and A: "account_view (host_le E) t (ul_uuid l) = Some a"
    and N: "cstr (ua_display_name a) \<noteq> []" and R: "addr_ok addr" and O: "length token_out = BIG_TOKEN_NAME_LENGTH"
    and C: "wf_cache (cache s)" "length (users (cache s)) < MAX_CLIENTS"
  shows "\<exists>out s' t' cs w. login_tail E s fd token_out a addr l (length (users (cache s))) = Inr ((0, out), s') \<and>
    dbs E tab opn (world s') t' \<and> sent s' = sent s \<and>
    account_view (host_le E) t' = (account_view (host_le E) t)(ul_uuid l \<mapsto> logged_in a addr) \<and>
    login_view t' = login_view t \<and> name_view t' = name_view t \<and> talk_kept t t' \<and> closed s' = closed s \<and> terminated out \<and> table_channels t' cs \<and>
    cstr out = take 1023 (login_text (cstr (ua_display_name a)) (ua_privilege_level (logged_in a addr)) cs) \<and>
    wf_cache (cache s') \<and>
    users (cache s') = (if \<exists>u \<in> set (users (cache s)). cstr (cu_ip_address u) = cstr addr \<and>
        user_name u = cstr (ua_display_name a) \<and> cu_fd u = fd
      then users (cache s) else users (cache s) @ [cache_entry E w (fd, logged_in a addr, l)])"
proof -
  let ?le = "host_le E" and ?us = "users (cache s)" and ?b = "logged_in a addr"
  note l = db_ok_login_view [OF dbsD(4) [OF D] V] and ac = db_ok_account_view [OF dbsD(4) [OF D] A]
  note b = logged_in_ok [OF ac(1,3) R]
  have us: "list_all wf_user ?us" using wf_users [OF C(1)] by (auto simp: list_all_iff)
  have str: "terminated (ua_display_name a)" "terminated (ua_ip_addr ?b)"
    using ac(3) b(2) by (simp_all add: account_strings_def)
  define t' where "t' = tput t DB_USER_ACCOUNT (ul_uuid l) (encode_user_account ?le ?b)"
  obtain w1 where w1: "insert_user_account E (world s) ?b = Inr (0, w1)" "dbs E tab opn w1 t'"
    using dbs_put_account [OF D b(1,2)] b(5) ac(2) by (auto simp: t'_def)
  obtain cs w where w: "channels_or_empty E w1 = Inr (cs, w)" "dbs E tab opn w t'" "table_channels t' cs"
    using dbs_channels [OF w1(2)] by blast
  have dn: "strncpy (zeros DSPLY_NAME_LENGTH) (ua_display_name ?b) TOKEN_NAME_LENGTH =
      Inr (nul_pad TOKEN_NAME_LENGTH (cstr (ua_display_name a)))" "terminated (nul_pad TOKEN_NAME_LENGTH (cstr (ua_display_name a)))"
    using b(4) str(1) ac(1) length_cstr_less [OF str(1)] by (simp_all add: wf_user_account_def clib)
  obtain out where out: "login_answer E w token_out (nul_pad TOKEN_NAME_LENGTH (cstr (ua_display_name a)))
      (ua_privilege_level ?b) cs = Inr out" "terminated out" "cstr out = take 1023 (login_text (cstr (ua_display_name a)) (ua_privilege_level ?b) cs)"
    using login_answer_spec [OF w(2) dn(2) table_channels_wf(2) [OF dbsD(4) [OF w(2)] w(3)] O] by auto
  define same where "same = (\<exists>u \<in> set ?us. cstr (cu_ip_address u) = cstr addr \<and> user_name u = cstr (ua_display_name a) \<and> cu_fd u = fd)"
  have sc: "find_connected_user_with_same_cred ?b (cache s) (length ?us) fd = Inr same"
    using same_cred_spec [OF us, of ?b "length ?us" "cache s" fd] str b(4,6) by (simp add: same_def)
  have "entry_ok (fd, ?b, l)"
    using b l ac N by (simp add: entry_ok_def login_strings_def account_strings_def uuid_text_def)
  from insert_user_spec [OF C this, of E w]
  obtain c where c: "insert_user_in_cache E w fd (cache s) ?b l (length ?us) = Inr c" "wf_cache c"
    "users c = ?us @ [cache_entry E w (fd, ?b, l)]" by blast
  have same0: "same \<Longrightarrow> ?us \<noteq> []" by (auto simp: same_def)
  let ?s = "s\<lparr>world := w, cache := if same then cache s else c\<rparr>"
  have "login_tail E s fd token_out a addr l (length ?us) = Inr ((0, out), ?s)"
    using b(3) w1(1) w(1) dn(1) out(1) sc c(1) same0 by (auto simp: login_tail_def)
  moreover have "account_view ?le t' = (account_view ?le t)(ul_uuid l \<mapsto> ?b)" "login_view t' = login_view t" "name_view t' = name_view t" "talk_kept t t'"
    using b(1) by (simp_all add: t'_def)
  ultimately show ?thesis
    unfolding same_def [symmetric] using w(2,3) out(2,3) c(2,3) C(1)
    by (intro exI [of _ out] exI [of _ ?s] exI [of _ t'] exI [of _ cs] exI [of _ w]) simp
qed

definition logout_tail :: "'w env \<Rightarrow> 'w server \<Rightarrow> bytes \<Rightarrow> bytes \<Rightarrow> user_account \<Rightarrow> ((int \<times> bytes) \<times> 'w server) result" where
  "logout_tail E s token_out clnt_addr user_account =
     bindR (logout_checks user_account clnt_addr) (\<lambda>(exit, is_token_duplicate). case exit of
       Some r \<Rightarrow> Inr ((r, token_out), s)
     | None \<Rightarrow>
         bindR (assertR (is_token_duplicate \<and> ua_online_status user_account)) (\<lambda>_.
         bindR (logout_user_account_malloc_or_null (Some user_account)) (\<lambda>acc.
         bindR (deref acc) (\<lambda>a.
         bindR (insert_user_account E (world s) a) (\<lambda>(_, w).
         bindR (strncpy token_out (ua_display_name a) DSPLY_NAME_LENGTH) (\<lambda>token_out.
         bindR (get_num_connected_users (cache s)) (\<lambda>n.
         bindR (remove_user_in_cache (cache s) a n) (\<lambda>c.
           Inr ((0, token_out), s\<lparr>world := w, cache := c\<rparr>)))))))))"

lemma logout_tail_spec:
  assumes D: "dbs E tab opn (world s) t" and A: "account_view (host_le E) t uuid = Some a" and R: "addr_ok addr"
    and O: "length token_out = TOKEN_NAME_LENGTH" and C: "wf_cache (cache s)" and P: "ua_privilege_level a \<in> {0, 1}"
  shows "\<exists>r out s' t'. logout_tail E s token_out addr a = Inr ((r, out), s') \<and>
    dbs E tab opn (world s') t' \<and> wf_cache (cache s') \<and> sent s' = sent s \<and> closed s' = closed s \<and>
    (case (if ua_privilege_level a = 0 \<and> cstr (ua_ip_addr a) \<noteq> cstr addr then Some 2
           else if \<not> ua_online_status a then Some 4 else None) of
       Some q \<Rightarrow> r = q \<and> out = token_out \<and> t' = t \<and> cache s' = cache s
     | None \<Rightarrow> r = 0 \<and> out = nul_pad TOKEN_NAME_LENGTH (cstr (ua_display_name a)) \<and>
         account_view (host_le E) t' = (account_view (host_le E) t)(ua_user_id a \<mapsto> logged_out a) \<and>
         login_view t' = login_view t \<and> name_view t' = name_view t \<and> talk_kept t t' \<and>
         users (cache s') = remove_first (\<lambda>u. user_name u = cstr (ua_display_name a)) (users (cache s)))"
proof -
  note ac = db_ok_account_view [OF dbsD(4) [OF D] A]
  note b = logged_out_ok [OF ac(1,3)]
  have str: "terminated (ua_display_name a)" "terminated (ua_ip_addr a)" "terminated addr"
    using ac(3) R by (simp_all add: account_strings_def addr_ok_def)
  let ?q = "if ua_privilege_level a = 0 \<and> cstr (ua_ip_addr a) \<noteq> cstr addr then Some (2 :: int)
           else if \<not> ua_online_status a then Some 4 else None"
  have ch: "logout_checks a addr = Inr (?q, True)"
    using str P by (auto simp: logout_checks_def clib)
  show ?thesis
  proof (cases ?q)
    case (Some q)
    then show ?thesis
      unfolding Some option.case using D C ch [unfolded Some]
      by (intro exI [of _ q] exI [of _ token_out] exI [of _ s] exI [of _ t]) (simp add: logout_tail_def)
  next
    case None
    then have on: "ua_online_status a" by (auto split: if_splits)
    obtain w where w: "insert_user_account E (world s) (logged_out a) = Inr (0, w)"
      "dbs E tab opn w (tput t DB_USER_ACCOUNT (ua_user_id a) (encode_user_account (host_le E) (logged_out a)))" (is "dbs _ _ _ _ ?t'")
      using dbs_put_account [OF D b(1,2)] b(5) by auto
    obtain c where c: "remove_user_in_cache (cache s) (logged_out a) (length (users (cache s))) = Inr c" "wf_cache c"
      "users c = remove_first (\<lambda>u. user_name u = cstr (ua_display_name a)) (users (cache s))"
      using remove_user_spec [OF C, of "logged_out a"] b(4) str(1) by auto
    have out: "strncpy token_out (ua_display_name (logged_out a)) DSPLY_NAME_LENGTH =
        Inr (nul_pad TOKEN_NAME_LENGTH (cstr (ua_display_name a)))"
      using b(4) str(1) ac(1) O by (simp add: wf_user_account_def clib)
    have "logout_tail E s token_out addr a =
        Inr ((0, nul_pad TOKEN_NAME_LENGTH (cstr (ua_display_name a))), s\<lparr>world := w, cache := c\<rparr>)"
      unfolding logout_tail_def ch None using on b(3) w(1) out C c(1) by simp
    with w(2) c b(1) show ?thesis
      unfolding None option.case
      by (intro exI [of _ 0] exI [of _ "nul_pad TOKEN_NAME_LENGTH (cstr (ua_display_name a))"]
          exI [of _ "s\<lparr>world := w, cache := c\<rparr>"] exI [of _ ?t']) simp
  qed
qed

section \<open>Properties\<close>

lemma read_and_login_user_rejects_spec:
  assumes "dbs E tab opn (world s) t" and "body_at s fd n tr [tok, pw]"
    and "length tok < TOKEN_NAME_LENGTH" "length pw < PSWD_MAX_LENGTH"
    and "\<And>l. login_view t (nul_pad TOKEN_NAME_LENGTH tok) = Some l \<Longrightarrow>
      filter (\<lambda>c. \<not> isspace c) (cstr (ul_password l)) \<noteq> filter (\<lambda>c. \<not> isspace c) pw"
  shows "\<exists>s'. read_and_login_user E s fd token_out addr n =
      Inr ((if login_view t (nul_pad TOKEN_NAME_LENGTH tok) = None then 2 else 1, token_out), s') \<and>
    dbs E tab opn (world s') t \<and> cache s' = cache s \<and> sent s' = sent s \<and> closed s' = closed s"
proof -
  have F: "field_ok tok" "field_ok pw" using assms(2) by (simp_all add: body_at_def)
  let ?tk = "nul_pad TOKEN_NAME_LENGTH tok"
  obtain w1 where w1: "get_login_info_malloc_or_null E (world s) ?tk = Inr (login_view t ?tk, w1)" "dbs E tab opn w1 t"
    using dbs_get_login [OF assms(1), of ?tk] assms(3) by auto
  have "read_and_login_user E s fd token_out addr n =
      Inr ((if login_view t ?tk = None then 2 else 1, token_out), (consume s fd (unat n))\<lparr>world := w1\<rparr>)"
  proof (cases "login_view t ?tk")
    case None
    with w1(1) assms(2-4) F show ?thesis by (simp add: read_and_login_user_def)
  next
    case (Some l)
    note c = login_credentials [OF assms(1-4) Some]
    have "squash (cstr (ul_password l)) \<noteq> squash pw" using assms(5) [OF Some] by (simp add: squash_def)
    with w1(1) assms(2-4) F c Some show ?thesis by (simp add: read_and_login_user_def)
  qed
  with w1(2) show ?thesis by simp
qed

text \<open>C12: a login with an unknown token answers 2 and one with a wrong password (white space ignored) answers
  1; neither changes a database table or the cache of connected users.\<close>

theorem read_and_login_user_rejects:
  assumes "dbs E tab opn (world s) t" and "body_at s fd n tr [tok, pw]"
    and "length tok < TOKEN_NAME_LENGTH" "length pw < PSWD_MAX_LENGTH"
    and "\<And>l. login_view t (nul_pad TOKEN_NAME_LENGTH tok) = Some l \<Longrightarrow>
      filter (\<lambda>c. \<not> isspace c) (cstr (ul_password l)) \<noteq> filter (\<lambda>c. \<not> isspace c) pw"
  shows "\<exists>s'. read_and_login_user E s fd token_out addr n =
      Inr ((if login_view t (nul_pad TOKEN_NAME_LENGTH tok) = None then 2 else 1, token_out), s') \<and>
    dbs E tab opn (world s') t \<and> cache s' = cache s \<and> sent s' = sent s \<and> closed s' = closed s"
  by (rule read_and_login_user_rejects_spec) (fact assms)+

theorem read_and_login_user_rejects_witness:
  "\<exists>s'. read_and_login_user mem_env (demo_state (join_fields False [''bennychao'', ''wrong''])) 5 (zeros 4096)
      (nul_pad 16 ''10.0.0.1'') 15 = Inr ((1, zeros 4096), s') \<and>
    dbs mem_env mem_tab mw_open (world s') demo_tables"
  using read_and_login_user_rejects [of mem_env mem_tab mw_open "demo_state (join_fields False [''bennychao'', ''wrong''])"
      demo_tables 5 15 False "''bennychao''" "''wrong''" "zeros 4096" "nul_pad 16 ''10.0.0.1''"]
  by (auto simp: body_at_def field_ok_def join_fields.simps isspace_def)

lemma read_and_login_user_accepts_spec:
  assumes "dbs E tab opn (world s) t" and "body_at s fd n tr [tok, pw]"
    and "length tok < TOKEN_NAME_LENGTH" "length pw < PSWD_MAX_LENGTH"
    and "login_view t (nul_pad TOKEN_NAME_LENGTH tok) = Some l"
    and "filter (\<lambda>c. \<not> isspace c) (cstr (ul_password l)) = filter (\<lambda>c. \<not> isspace c) pw"
    and "account_view (host_le E) t (ul_uuid l) = Some a" and "cstr (ua_display_name a) \<noteq> []"
    and "addr_ok addr" and "length token_out = BIG_TOKEN_NAME_LENGTH"
    and "wf_cache (cache s)" and "length (users (cache s)) < MAX_CLIENTS"
    and "\<And>u. u \<in> set (users (cache s)) \<Longrightarrow> user_name u = cstr (ua_display_name a) \<Longrightarrow>
      cstr (cu_ip_address u) = cstr addr \<or> \<not> ua_online_status a"
  shows "\<exists>out s' t' cs w. read_and_login_user E s fd token_out addr n = Inr ((0, out), s') \<and>
    dbs E tab opn (world s') t' \<and> sent s' = sent s \<and>
    account_view (host_le E) t' = (account_view (host_le E) t)(ul_uuid l \<mapsto> logged_in a addr) \<and>
    login_view t' = login_view t \<and> name_view t' = name_view t \<and> talk_kept t t' \<and> closed s' = closed s \<and> terminated out \<and>
    table_channels t' cs \<and>
    cstr out = take 1023 (login_text (cstr (ua_display_name a)) (ua_privilege_level (logged_in a addr)) cs) \<and>
    wf_cache (cache s') \<and>
    users (cache s') = (if \<exists>u \<in> set (users (cache s)). cstr (cu_ip_address u) = cstr addr \<and>
        user_name u = cstr (ua_display_name a) \<and> cu_fd u = fd
      then users (cache s) else users (cache s) @ [cache_entry E w (fd, logged_in a addr, l)])"
proof -
  have no: "\<not> (\<exists>u \<in> set (users (cache s)). user_name u = cstr (ua_display_name a) \<and>
      cstr (cu_ip_address u) \<noteq> cstr addr \<and> ua_online_status a)"
    using assms(13) by blast
  obtain w where w: "dbs E tab opn w t" "read_and_login_user E s fd token_out addr n =
      login_tail E ((consume s fd (unat n))\<lparr>world := w\<rparr>) fd token_out a addr l (length (users (cache s)))"
    using login_run [OF assms(1-7,9,11), of token_out] unfolding if_not_P [OF no] by blast
  show ?thesis
    unfolding w(2) using login_tail_spec [of E tab opn "(consume s fd (unat n))\<lparr>world := w\<rparr>" t "nul_pad TOKEN_NAME_LENGTH tok" l a addr token_out fd]
      w(1) assms(5,7-12) by (simp cong: if_cong split del: if_split)
qed



text \<open>A login from a second address stops the server. When the user is online in the cache at another
  address, the handler still adds a second entry for the user and answers 9; the function that sends the
  answer has no case for 9 and its assertion fails.\<close>

lemma login_elsewhere_aborts:
  assumes "dbs E tab opn (world s) t" and "body_at s fd n tr [tok, pw]"
    and "length tok < TOKEN_NAME_LENGTH" "length pw < PSWD_MAX_LENGTH"
    and "login_view t (nul_pad TOKEN_NAME_LENGTH tok) = Some l"
    and "filter (\<lambda>c. \<not> isspace c) (cstr (ul_password l)) = filter (\<lambda>c. \<not> isspace c) pw"
    and "account_view (host_le E) t (ul_uuid l) = Some a"
    and "addr_ok addr" and "length token_out = BIG_TOKEN_NAME_LENGTH"
    and "wf_cache (cache s)" and "length (users (cache s)) < MAX_CLIENTS"
    and "u \<in> set (users (cache s))" "user_name u = cstr (ua_display_name a)" "cstr (cu_ip_address u) \<noteq> cstr addr"
    and "ua_online_status a"
  shows "\<exists>out s' w. read_and_login_user E s fd token_out addr n = Inr ((9, out), s') \<and>
    users (cache s') = users (cache s) @ [cache_entry E w (fd, a, l)] \<and>
    send_login_user_response E s' fd h 9 out = Inl AssertFailed"
proof -
  have F: "NUL \<notin> set tok" using assms(2) by (simp add: body_at_def field_ok_def)
  note l = db_ok_login_view [OF dbsD(4) [OF assms(1)] assms(5)] and ac = db_ok_account_view [OF dbsD(4) [OF assms(1)] assms(7)]
  have here: "\<exists>u \<in> set (users (cache s)). user_name u = cstr (ua_display_name a) \<and> cstr (cu_ip_address u) \<noteq> cstr addr \<and>
      ua_online_status a" using assms(12-15) by blast
  obtain w where w: "read_and_login_user E s fd token_out addr n =
      bindR (strncpy token_out (nul_pad TOKEN_NAME_LENGTH tok) TOKEN_NAME_LENGTH) (\<lambda>token_out.
       bindR (insert_user_in_cache E w fd (cache s) a l (length (users (cache s)))) (\<lambda>c.
         Inr ((9, token_out), (consume s fd (unat n))\<lparr>world := w, cache := c\<rparr>)))"
    using login_run [OF assms(1-8,10), of token_out] unfolding if_P [OF here] by blast
  have "cstr (ua_display_name a) \<noteq> []"
    using wf_users [OF assms(10,12)] assms(13) by (simp add: used_def)
  then have "entry_ok (fd, a, l)"
    using l ac by (simp add: entry_ok_def login_strings_def account_strings_def uuid_text_def)
  from insert_user_spec [OF assms(10,11) this, of E w] obtain c where
    c: "insert_user_in_cache E w fd (cache s) a l (length (users (cache s))) = Inr c"
      "users c = users (cache s) @ [cache_entry E w (fd, a, l)]" by blast
  have "strncpy token_out (nul_pad TOKEN_NAME_LENGTH tok) TOKEN_NAME_LENGTH =
      Inr (nul_pad TOKEN_NAME_LENGTH tok @ drop TOKEN_NAME_LENGTH token_out)"
    using assms(3,9) F by (simp add: strncpy_eq_Inr max_def)
  with w c show ?thesis by (auto simp: send_login_user_response_def respond_def)
qed

lemma read_and_logout_user_spec:
  assumes "dbs E tab opn (world s) t" and "body_at s fd n tr [nm]" and "length nm < TOKEN_NAME_LENGTH"
    and "addr_ok addr" and "length token_out = TOKEN_NAME_LENGTH" and "wf_cache (cache s)"
    and "\<And>uuid a. name_view t (nul_pad TOKEN_NAME_LENGTH nm) = Some uuid \<Longrightarrow>
      account_view (host_le E) t uuid = Some a \<Longrightarrow> ua_privilege_level a \<in> {0, 1}"
  shows "\<exists>r out s' t'. read_and_logout_user E s fd token_out addr n = Inr ((r, out), s') \<and>
    dbs E tab opn (world s') t' \<and> wf_cache (cache s') \<and> sent s' = sent s \<and> closed s' = closed s \<and>
    (let found = Option.bind (name_view t (nul_pad TOKEN_NAME_LENGTH nm)) (account_view (host_le E) t);
         refused = (case found of None \<Rightarrow> Some 500
           | Some a \<Rightarrow> if ua_privilege_level a = 0 \<and> cstr (ua_ip_addr a) \<noteq> cstr addr then Some 2
             else if \<not> ua_online_status a then Some 4 else None)
     in case refused of
          Some q \<Rightarrow> r = q \<and> out = token_out \<and> t' = t \<and> cache s' = cache s
        | None \<Rightarrow> (let a = the found in r = 0 \<and> out = nul_pad TOKEN_NAME_LENGTH (cstr (ua_display_name a)) \<and>
            account_view (host_le E) t' = (account_view (host_le E) t)(ua_user_id a \<mapsto> logged_out a) \<and>
            login_view t' = login_view t \<and> name_view t' = name_view t \<and> talk_kept t t' \<and>
            users (cache s') = remove_first (\<lambda>u. user_name u = cstr (ua_display_name a)) (users (cache s))))"
proof -
  let ?dn = "nul_pad TOKEN_NAME_LENGTH nm" and ?le = "host_le E" and ?s = "consume s fd (unat n)"
  have F: "field_ok nm" using assms(2) by (simp add: body_at_def)
  obtain w1 where w1: "get_uuid_with_display_name_or_null E (world s) ?dn = Inr (name_view t ?dn, w1)" "dbs E tab opn w1 t"
    using dbs_get_uuid [OF assms(1), of ?dn] assms(3) by auto
  show ?thesis
  proof (cases "name_view t ?dn")
    case None
    with w1 assms(2,3,6) F show ?thesis
      by (intro exI [of _ 500] exI [of _ token_out] exI [of _ "?s\<lparr>world := w1\<rparr>"] exI [of _ t])
        (simp add: read_and_logout_user_def)
  next
    case (Some uuid)
    have "length uuid = UUID_LEN" using db_ok_name_view [OF dbsD(4) [OF assms(1)] Some] by (simp add: uuid_text_def)
    then obtain w2 where w2: "get_user_account_malloc_or_null E w1 uuid = Inr (account_view ?le t uuid, w2)" "dbs E tab opn w2 t"
      using dbs_get_account [OF w1(2)] by blast
    show ?thesis
    proof (cases "account_view ?le t uuid")
      case None
      with Some w1 w2 assms(2,3,6) F show ?thesis
        by (intro exI [of _ 500] exI [of _ token_out] exI [of _ "?s\<lparr>world := w2\<rparr>"] exI [of _ t])
          (simp add: read_and_logout_user_def)
    next
      case acc: (Some a)
      note ac = db_ok_account_view [OF dbsD(4) [OF assms(1)] acc]
      have run: "read_and_logout_user E s fd token_out addr n = logout_tail E (?s\<lparr>world := w2\<rparr>) token_out addr a"
        using Some acc w1(1) w2(1) assms(2,3) F by (simp add: read_and_logout_user_def logout_tail_def cong: option.case_cong)
      show ?thesis
        unfolding run Some acc bind.simps Let_def option.case
        using logout_tail_spec [of E tab opn "?s\<lparr>world := w2\<rparr>" t uuid a addr token_out] w2(2) acc assms(4-6) assms(7) [OF Some acc]
        by (simp cong: option.case_cong if_cong split del: if_split)
    qed
  qed
qed



end
