(* ===== verification/Channels.thy ===== *)
theory Channels
  imports Auth
begin

text \<open>
  Channels: creation and reading (\<^verbatim>\<open>read_and_create_channel\<close> and \<^verbatim>\<open>read_and_read_channel\<close> of
  \<^verbatim>\<open>src/server.c\<close>).
\<close>

section \<open>Creation\<close>

definition create_channel_or_null_malloc ::
  "'w env \<Rightarrow> 'w \<Rightarrow> bytes \<Rightarrow> bytes \<Rightarrow> bool \<Rightarrow> (channel_info option \<times> 'w) result"
where
  "create_channel_or_null_malloc E w channel_name display_name publicity =
     (if \<not> malloc_ok E w sizeof_channel_info then Inr (None, w)
      else
        let (channel_uuid, w) = generate_random_uuid_malloc E w;
            no_names = replicate DEFAULT_LIST_SIZE (zeros TOKEN_NAME_LENGTH)
        in case channel_uuid of
             None \<Rightarrow> Inr (None, w)
           | Some u \<Rightarrow>
               bindR (strncpy (zeros UUID_LEN) u UUID_LEN) (\<lambda>cid.
               bindR (strncpy (zeros TOKEN_NAME_LENGTH) channel_name TOKEN_NAME_LENGTH) (\<lambda>nm.
               bindR (strncpy (zeros TOKEN_NAME_LENGTH) display_name TOKEN_NAME_LENGTH) (\<lambda>cr.
                 Inr (Some \<lparr>ch_channel_id = cid, ch_creator = cr, ch_user_list = no_names[0 := cr],
                   ch_admin_list = no_names[0 := cr], ch_banned_list = no_names, ch_channel_name = nm,
                   ch_publicity = publicity\<rparr>, w)))))"

definition read_and_create_channel ::
  "'w env \<Rightarrow> 'w server \<Rightarrow> int \<Rightarrow> bytes \<Rightarrow> 16 word \<Rightarrow> bytes \<Rightarrow> ((int \<times> bytes) \<times> 'w server) result"
where
  "read_and_create_channel E s fd token_out body_size clnt_addr =
     bindR (read_body s fd body_size) (\<lambda>(body, s). case body of
       None \<Rightarrow> Inr ((500, token_out), s)
     | Some buffer \<Rightarrow>
         let (token, rest) = next_token buffer
         in bindR (copy_token (zeros TOKEN_NAME_LENGTH) token) (\<lambda>channel_name.
         let (token, rest) = next_token rest
         in if token = None then Inr ((400, token_out), s)
         else bindR (copy_token (zeros TOKEN_NAME_LENGTH) token) (\<lambda>display_name.
         let (token, rest) = next_token rest
         in bindR (deref token) (\<lambda>publ.
         let publicity = (publ = ''1'')
         in if \<not> publicity \<and> length publ \<noteq> 1 then Inr ((400, token_out), s)
         else bindR (get_display_name_in_cache_malloc_or_null E (world s) (cache s) clnt_addr display_name) (\<lambda>cached. case cached of
           None \<Rightarrow> Inr ((500, token_out), s)
         | Some dis_name_in_cache \<Rightarrow>
         bindR (check_duplicate_display_name E (world s) display_name) (\<lambda>(display_name_exist, w).
         bindR (strcmp_eq dis_name_in_cache (lit ''admin'')) (\<lambda>is_admin.
         bindR (if is_admin then Inr True else strcmp_eq display_name dis_name_in_cache) (\<lambda>same.
         if is_admin \<and> \<not> display_name_exist then Inr ((404, token_out), s\<lparr>world := w\<rparr>)
         else if \<not> same then Inr ((403, token_out), s\<lparr>world := w\<rparr>)
         else bindR (check_duplicate_channel_name E w channel_name) (\<lambda>(is_channel_duplicate, w).
         if is_channel_duplicate then Inr ((409, token_out), s\<lparr>world := w\<rparr>)
         else bindR (create_channel_or_null_malloc E w channel_name display_name publicity) (\<lambda>(channel, w). case channel of
           None \<Rightarrow> Inr ((500, token_out), s\<lparr>world := w\<rparr>)
         | Some c \<Rightarrow>
         bindR (insert_channel_info E w c) (\<lambda>(result, w).
         if result \<noteq> 0 then Inr ((500, token_out), s\<lparr>world := w\<rparr>)
         else bindR (strncpy (zeros TOKEN_NAME_LENGTH) channel_name TOKEN_NAME_LENGTH) (\<lambda>token_out.
         bindR (strcat token_out (lit [ETX])) (\<lambda>token_out.
           Inr ((0, token_out), s\<lparr>world := w\<rparr>))))))))))))))"

section \<open>Reading\<close>

text \<open>The loop that prints a list of names: \<open>tested\<close> are the names whose first byte the condition looks at and
  \<open>printed\<close> those that are written. Each round overwrites the array from its start.\<close>

fun print_loop :: "bytes \<Rightarrow> bytes list \<Rightarrow> bytes list \<Rightarrow> nat \<Rightarrow> (nat \<times> bytes) result" where
  "print_loop temp [] printed i = Inr (i, temp)"
| "print_loop temp (x # xs) [] i = Inl Overread"
| "print_loop temp (x # xs) (p # ps) i =
     bindR (char_at x 0) (\<lambda>c.
       if c = NUL then Inr (i, temp)
       else bindR (c_string p) (\<lambda>s. bindR (sprintf temp (msg s)) (\<lambda>temp. print_loop temp xs ps (Suc i))))"

definition list_section :: "bytes \<Rightarrow> bytes list \<Rightarrow> bytes list \<Rightarrow> bytes result" where
  "list_section out tested printed =
     bindR (print_loop (zeros (TEMP_CHANNEL_INFO_LENGTH div 4 * 3)) tested printed 0) (\<lambda>(i, temp).
     bindR (c_string temp) (\<lambda>names.
     bindR (sprintf (zeros (TEMP_CHANNEL_INFO_LENGTH div 4 * 3)) (msg (show_nat i) @ names)) (\<lambda>final_buffer.
     bindR (strcat out final_buffer) (\<lambda>out.
       if i = 0 then strcat out (lit [ETX]) else Inr out))))"

definition channel_head :: "channel_info \<Rightarrow> bytes result" where
  "channel_head c =
     bindR (c_string (ch_channel_name c)) (\<lambda>nm.
     bindR (c_string (ch_creator c)) (\<lambda>cr.
       sprintf (zeros TEMP_CHANNEL_INFO_LENGTH) (msg nm @ msg cr @ msg (if ch_publicity c then ''1'' else ''0''))))"

definition read_and_read_channel ::
  "'w env \<Rightarrow> 'w server \<Rightarrow> int \<Rightarrow> bytes \<Rightarrow> 16 word \<Rightarrow> ((int \<times> bytes) \<times> 'w server) result"
where
  "read_and_read_channel E s fd channel_info_out body_size =
     bindR (read_body s fd body_size) (\<lambda>(body, s). case body of
       None \<Rightarrow> Inr ((500, channel_info_out), s)
     | Some buffer \<Rightarrow>
         let (token, rest) = next_token buffer
         in if token = None then Inr ((400, channel_info_out), s)
         else bindR (copy_token (zeros TOKEN_NAME_LENGTH) token) (\<lambda>channel_name.
         let (get_users, rest) = next_token rest
         in if get_users = None then Inr ((400, channel_info_out), s)
         else let (get_admins, rest) = next_token rest
         in if get_admins = None then Inr ((400, channel_info_out), s)
         else let (get_banned, rest) = next_token rest
         in if get_banned = None then Inr ((400, channel_info_out), s)
         else bindR (get_channel_info_malloc_or_null E (world s) channel_name) (\<lambda>(found, w). case found of
           None \<Rightarrow> Inr ((404, channel_info_out), s\<lparr>world := w\<rparr>)
         | Some c \<Rightarrow>
         bindR (channel_head c) (\<lambda>out.
         bindR (if get_users = Some ''1'' then list_section out (ch_user_list c) (ch_user_list c) else Inr out) (\<lambda>out.
         bindR (if get_admins = Some ''1'' then list_section out (ch_admin_list c) (ch_admin_list c) else Inr out) (\<lambda>out.
         bindR (if get_banned = Some ''1'' then list_section out (ch_banned_list c) (ch_admin_list c) else Inr out) (\<lambda>out.
           Inr ((0, out), s\<lparr>world := w\<rparr>))))))))"

section \<open>Lemmas\<close>

subsection \<open>Creation\<close>

definition new_channel :: "bytes \<Rightarrow> string \<Rightarrow> string \<Rightarrow> bool \<Rightarrow> channel_info" where
  "new_channel uuid ch nm publ =
     (let no_names = replicate DEFAULT_LIST_SIZE (zeros TOKEN_NAME_LENGTH); cr = nul_pad TOKEN_NAME_LENGTH nm
      in \<lparr>ch_channel_id = uuid, ch_creator = cr, ch_user_list = no_names[0 := cr], ch_admin_list = no_names[0 := cr],
          ch_banned_list = no_names, ch_channel_name = nul_pad TOKEN_NAME_LENGTH ch, ch_publicity = publ\<rparr>)"

lemma new_channel_ok:
  assumes "uuid_text uuid" "NUL \<notin> set ch" "NUL \<notin> set nm" "length ch < TOKEN_NAME_LENGTH" "length nm < TOKEN_NAME_LENGTH"
  shows "wf_channel_info (new_channel uuid ch nm publ)" "terminated (ch_channel_name (new_channel uuid ch nm publ))"
    "ch_channel_id (new_channel uuid ch nm publ) = uuid"
proof -
  have n: "wf_names (replicate DEFAULT_LIST_SIZE (zeros TOKEN_NAME_LENGTH))"
    using wf_samples(1) by (simp add: sample_names_def)
  show "wf_channel_info (new_channel uuid ch nm publ)"
    using assms n by (simp add: wf_channel_info_def new_channel_def Let_def wf_names_update uuid_text_def)
qed (use assms in \<open>simp_all add: new_channel_def Let_def\<close>)

lemma create_channel_spec:
  assumes D: "dbs E tab opn w t" and F: "NUL \<notin> set ch" "NUL \<notin> set nm" "length ch < TOKEN_NAME_LENGTH" "length nm < TOKEN_NAME_LENGTH"
  shows "\<exists>uuid w'. uuid_text uuid \<and> dbs E tab opn w' t \<and>
    create_channel_or_null_malloc E w (nul_pad TOKEN_NAME_LENGTH ch) (nul_pad TOKEN_NAME_LENGTH nm) publ =
      Inr (Some (new_channel uuid ch nm publ), w')"
proof -
  obtain u w1 where u: "generate_random_uuid_malloc E w = (Some (lit u), w1)" "dbs E tab opn w1 t" "uuid_text (lit u)"
    using dbs_uuid [OF D] by blast
  then show ?thesis
    using F dbs_malloc [OF D]
    by (intro exI [of _ "lit u"] exI [of _ w1])
      (simp add: create_channel_or_null_malloc_def new_channel_def strncpy_uuid_text Let_def)
qed

lemma cached_name_spec:
  assumes C: "wf_cache c" and T: "terminated addr" "terminated nm" and M: "\<And>n. malloc_ok E w n"
  shows "get_display_name_in_cache_malloc_or_null E w c addr nm =
    Inr (if \<exists>u \<in> set (users c). cstr (cu_ip_address u) = cstr addr \<and> user_name u = cstr nm
         then Some (nul_pad TOKEN_NAME_LENGTH (cstr nm)) else None)"
proof -
  let ?p = "\<lambda>u. cstr (cu_ip_address u) = cstr addr \<and> user_name u = cstr nm"
  have f: "find_loop (\<lambda>u. andR (strcmp_eq (cu_ip_address u) addr) (strcmp_eq (cu_dsply_name u) nm)) (users c) =
      Inr (find ?p (users c))"
    by (rule find_loop_spec) (use wf_users [OF C] T in auto)
  show ?thesis
  proof (cases "find ?p (users c)")
    case None
    then have "\<not> (\<exists>u \<in> set (users c). ?p u)" by (auto simp: find_None_iff)
    with None f C show ?thesis by (simp add: get_display_name_in_cache_malloc_or_null_def)
  next
    case (Some u)
    then have "?p u" "u \<in> set (users c)" by (auto simp: find_Some_iff)
    moreover from this have "strncpy (zeros TOKEN_NAME_LENGTH) (cu_dsply_name u) TOKEN_NAME_LENGTH = Inr (nul_pad TOKEN_NAME_LENGTH (cstr nm))"
      using wf_users [OF C, of u] by (simp add: wf_user_def clib)
    ultimately show ?thesis using Some f C M by (auto simp: get_display_name_in_cache_malloc_or_null_def)
  qed
qed

lemma dbs_check_channel:
  assumes D: "dbs E tab opn w t" and N: "terminated nm"
  shows "\<exists>w' cs. check_duplicate_channel_name E w nm = Inr (find_channel nm cs \<noteq> None, w') \<and>
    dbs E tab opn w' t \<and> table_channels t cs"
  using check_duplicate_channel_name_spec [OF dbsD(1,2) [OF D] _ N] dbsD(3,4) [OF D] dbsI [OF D]
  unfolding table_channels_def db_ok_def by blast

lemma dbs_get_channel:
  assumes D: "dbs E tab opn w t" and N: "terminated nm"
  shows "\<exists>w' cs. get_channel_info_malloc_or_null E w nm = Inr (find_channel nm cs, w') \<and>
    dbs E tab opn w' t \<and> table_channels t cs"
  using get_channel_info_spec [OF dbsD(1,2) [OF D] _ N] dbsD(3,4) [OF D] dbsI [OF D]
  unfolding table_channels_def db_ok_def by blast

text \<open>Whether a table has a channel with a name does not depend on the order of the traversal.\<close>

definition has_channel :: "table_state \<Rightarrow> string \<Rightarrow> bool" where
  "has_channel t ch \<longleftrightarrow> (\<exists>k v. content t DB_CHANNEL_INFO k = Some v \<and>
     cstr (ch_channel_name (projr (decode_channel_info v))) = ch)"

lemma find_channel_has:
  assumes "table_channels t cs"
  shows "find_channel nm cs \<noteq> None \<longleftrightarrow> has_channel t (cstr nm)"
proof -
  let ?m = "content t DB_CHANNEL_INFO"
  obtain keys where k: "set keys = dom ?m" "cs = chan_list ?m keys" using assms by (auto simp: table_channels_def)
  have "(\<exists>c \<in> set cs. chan_named nm c) \<longleftrightarrow> (\<exists>k \<in> dom ?m. chan_named nm (projr (decode_channel_info (the (?m k)))))"
    by (simp add: k(2) chan_list_def flip: k(1))
  also have "\<dots> \<longleftrightarrow> has_channel t (cstr nm)"
    unfolding has_channel_def chan_named_def by (metis domD domI option.sel)
  finally show ?thesis unfolding find_channel_def find_isSome .
qed

lemma create_channel_run:
  assumes D: "dbs E tab opn (world s) t" and B: "body_at s fd n tr [ch, nm, publ]" and C: "wf_cache (cache s)"
    and L: "length ch < TOKEN_NAME_LENGTH" "length nm < TOKEN_NAME_LENGTH" "length publ = 1" and A: "terminated addr"
  shows "\<exists>uuid w1 w2 w4. uuid_text uuid \<and> dbs E tab opn w1 t \<and> dbs E tab opn w2 t \<and>
    dbs E tab opn w4 (tput t DB_CHANNEL_INFO uuid (encode_channel_info (new_channel uuid ch nm (publ = ''1'')))) \<and>
    read_and_create_channel E s fd token_out n addr =
      (if \<not> (\<exists>u \<in> set (users (cache s)). cstr (cu_ip_address u) = cstr addr \<and> user_name u = nm)
       then Inr ((500, token_out), consume s fd (unat n))
       else if nm = ''admin'' \<and> name_view t (nul_pad TOKEN_NAME_LENGTH nm) = None
       then Inr ((404, token_out), (consume s fd (unat n))\<lparr>world := w1\<rparr>)
       else if has_channel t ch then Inr ((409, token_out), (consume s fd (unat n))\<lparr>world := w2\<rparr>)
       else bindR (strcat (nul_pad TOKEN_NAME_LENGTH ch) (lit [ETX])) (\<lambda>out.
         Inr ((0, out), (consume s fd (unat n))\<lparr>world := w4\<rparr>)))"
proof -
  let ?ch = "nul_pad TOKEN_NAME_LENGTH ch" and ?dn = "nul_pad TOKEN_NAME_LENGTH nm" and ?s = "consume s fd (unat n)"
  have F: "field_ok ch" "field_ok nm" "field_ok publ" using B by (simp_all add: body_at_def)
  define here where "here = (\<exists>u \<in> set (users (cache s)). cstr (cu_ip_address u) = cstr addr \<and> user_name u = nm)"
  define known where "known = (name_view t ?dn \<noteq> None)"
  have c: "get_display_name_in_cache_malloc_or_null E (world s) (cache s) addr ?dn = Inr (if here then Some ?dn else None)"
    using cached_name_spec [OF C A, of ?dn E "world s"] F L dbs_malloc [OF D] by (simp add: field_okD here_def)
  obtain w1 where w1: "check_duplicate_display_name E (world s) ?dn = Inr (known, w1)" "dbs E tab opn w1 t"
    using dbs_check_name [OF D, of ?dn] L by (auto simp: known_def)
  obtain w2 cs where w2: "check_duplicate_channel_name E w1 ?ch = Inr (has_channel t ch, w2)" "dbs E tab opn w2 t"
    using dbs_check_channel [OF w1(2), of ?ch] find_channel_has F L by (fastforce simp: field_okD)
  obtain uuid w3 where w3: "uuid_text uuid" "dbs E tab opn w3 t"
    "create_channel_or_null_malloc E w2 ?ch ?dn (publ = ''1'') = Inr (Some (new_channel uuid ch nm (publ = ''1'')), w3)"
    using create_channel_spec [OF w2(2), of ch nm "publ = ''1''"] F L by (auto simp: field_okD)
  note nc = new_channel_ok [OF w3(1), of ch nm "publ = ''1''"]
  obtain w4 where w4: "insert_channel_info E w3 (new_channel uuid ch nm (publ = ''1'')) = Inr (0, w4)"
    "dbs E tab opn w4 (tput t DB_CHANNEL_INFO uuid (encode_channel_info (new_channel uuid ch nm (publ = ''1''))))"
    using dbs_put_channel [OF w3(2) nc(1,2)] nc(3) F L by (auto simp: field_okD)
  have k: "name_view t ?dn = None \<longleftrightarrow> \<not> known" by (simp add: known_def)
  have "read_and_create_channel E s fd token_out n addr =
    (if \<not> here then Inr ((500, token_out), ?s)
     else if nm = ''admin'' \<and> \<not> known then Inr ((404, token_out), ?s\<lparr>world := w1\<rparr>)
     else if has_channel t ch then Inr ((409, token_out), ?s\<lparr>world := w2\<rparr>)
     else bindR (strcat ?ch (lit [ETX])) (\<lambda>out. Inr ((0, out), ?s\<lparr>world := w4\<rparr>)))"
    using B L F c w1(1) w2(1) w3(3) w4(1) by (auto simp: read_and_create_channel_def field_okD strcmp_eq_terminated)
  with w1(2) w2(2) w3(1) w4(2) show ?thesis unfolding here_def [symmetric] k by blast
qed

subsection \<open>Reading\<close>

definition members :: "bytes list \<Rightarrow> bytes list" where
  "members xs = takeWhile (\<lambda>x. x ! 0 \<noteq> NUL) xs"

definition names_ok :: "bytes list \<Rightarrow> bool" where
  "names_ok xs \<longleftrightarrow> list_all (\<lambda>x. length x = TOKEN_NAME_LENGTH \<and> terminated x) xs"

text \<open>What the code prints of a list: the number of names and the last of them.\<close>

definition list_text :: "bytes list \<Rightarrow> bytes list \<Rightarrow> string" where
  "list_text tested printed =
     (let k = length (members tested)
      in msg (show_nat k) @ (if k = 0 then [ETX] else msg (cstr (printed ! (k - 1)))))"

lemma char_at_0 [simp]: "0 < length x \<Longrightarrow> char_at x 0 = Inr (x ! 0)"
  by (simp add: char_at_def)

lemma names_ok_Cons [simp]:
  "names_ok (x # xs) \<longleftrightarrow> length x = TOKEN_NAME_LENGTH \<and> terminated x \<and> names_ok xs"
  by (simp add: names_ok_def conj_assoc)

lemma members_Cons [simp]: "members (x # xs) = (if x ! 0 = NUL then [] else x # members xs)" "members [] = []"
  by (simp_all add: members_def)

lemma length_members: "length (members xs) \<le> length xs"
  by (simp add: members_def length_takeWhile_le)

lemma length_cstr_name: "length x = TOKEN_NAME_LENGTH \<Longrightarrow> terminated x \<Longrightarrow> length (cstr x) < TOKEN_NAME_LENGTH"
  using length_cstr_less [of x] by simp

lemma print_loop_spec:
  assumes "names_ok tested" "names_ok printed" "length tested \<le> length printed" "terminated temp" "22 \<le> length temp"
  shows "\<exists>temp'. print_loop temp tested printed i = Inr (i + length (members tested), temp') \<and>
    length temp' = length temp \<and> terminated temp' \<and>
    cstr temp' = (if members tested = [] then cstr temp else msg (cstr (printed ! (length (members tested) - 1))))"
  using assms
proof (induction tested arbitrary: printed temp i)
  case (Cons x xs)
  then obtain p ps where p: "printed = p # ps" by (cases printed) auto
  show ?case
  proof (cases "x ! 0 = NUL")
    case True
    with Cons.prems p show ?thesis by simp
  next
    case False
    have lp: "length p = TOKEN_NAME_LENGTH" "terminated p" using Cons.prems(2) p by simp_all
    obtain t1 where t1: "sprintf temp (msg (cstr p)) = Inr t1" "length t1 = length temp" "terminated t1" "cstr t1 = msg (cstr p)"
      using sprintf_fits [of "msg (cstr p)" temp] length_cstr_name [OF lp] Cons.prems(5) by auto
    obtain t2 where t2: "print_loop t1 xs ps (Suc i) = Inr (Suc i + length (members xs), t2)" "length t2 = length t1" "terminated t2"
      "cstr t2 = (if members xs = [] then cstr t1 else msg (cstr (ps ! (length (members xs) - 1))))"
      using Cons.IH [of ps t1 "Suc i"] Cons.prems p t1 by auto
    show ?thesis
      using False Cons.prems p lp t1 t2 by (cases "members xs") (auto simp: clib)
  qed
qed simp

lemma length_show_nat_100: "n < 100 \<Longrightarrow> length (show_nat n) \<le> 2"
proof -
  assume "n < 100"
  then have "n div 10 < 10" by (simp add: less_mult_imp_div_less)
  then show ?thesis by (subst show_nat.simps) (simp add: show_nat.simps)
qed

lemma list_text_bound:
  assumes "names_ok printed" "length tested \<le> length printed" "length printed \<le> 64"
  shows "length (list_text tested printed) \<le> 25"
proof -
  let ?k = "length (members tested)"
  have k: "?k \<le> 64" "length (show_nat ?k) \<le> 2"
    using length_members [of tested] assms(2,3) length_show_nat_100 [of ?k] by simp_all
  have "length (cstr (printed ! (?k - 1))) < TOKEN_NAME_LENGTH" if "?k \<noteq> 0"
  proof -
    have "?k - 1 < length printed" using that assms(2) length_members [of tested] by linarith
    then show ?thesis using assms(1) by (intro length_cstr_name) (simp_all add: names_ok_def list_all_length)
  qed
  with k show ?thesis by (auto simp: list_text_def Let_def)
qed

lemma list_text_no_NUL: "NUL \<notin> set (list_text tested printed)"
  by (simp add: list_text_def Let_def)

lemma list_section_spec:
  assumes N: "names_ok tested" "names_ok printed" "length tested \<le> length printed" "length printed \<le> 64"
    and O: "terminated out" "length (cstr out) + 25 < length out"
  shows "\<exists>out'. list_section out tested printed = Inr out' \<and> terminated out' \<and> length out' = length out \<and>
    cstr out' = cstr out @ list_text tested printed"
proof -
  let ?k = "length (members tested)" and ?z = "zeros (TEMP_CHANNEL_INFO_LENGTH div 4 * 3)"
  obtain temp where t: "print_loop ?z tested printed 0 = Inr (?k, temp)" "terminated temp"
    "cstr temp = (if members tested = [] then [] else msg (cstr (printed ! (?k - 1))))"
    using print_loop_spec [OF N(1-3), of ?z 0] by auto
  let ?f = "msg (show_nat ?k) @ cstr temp"
  have f: "list_text tested printed = ?f @ (if ?k = 0 then [ETX] else [])"
    using t(3) by (auto simp: list_text_def Let_def)
  have len: "length ?f \<le> 25" using list_text_bound [OF N(2-4)] by (simp add: f)
  obtain fb where fb: "sprintf ?z ?f = Inr fb" "terminated fb" "cstr fb = ?f"
    by (rule sprintf_fits [of ?f ?z]) (use len in simp_all)
  obtain o1 where o1: "strcat out fb = Inr o1" "terminated o1" "cstr o1 = cstr out @ ?f" "length o1 = length out"
    by (rule strcat_fits [of out fb]) (use fb O len in simp_all)
  show ?thesis
  proof (cases "?k = 0")
    case False
    with t(1,2) fb(1) o1 show ?thesis by (simp add: list_section_def f c_string_terminated)
  next
    case True
    have "length (cstr o1) + 1 < length o1"
      using o1(3,4) O(2) list_text_bound [OF N(2-4)] True by (simp add: f)
    then obtain o2 where "strcat o1 (lit [ETX]) = Inr o2" "terminated o2" "cstr o2 = cstr o1 @ [ETX]" "length o2 = length out"
      using strcat_fits [of o1 "lit [ETX]"] o1(2,4) by (auto simp del: cstr_lit simp: lit_def)
    with True t(1,2) fb(1) o1 show ?thesis by (simp add: list_section_def f c_string_terminated)
  qed
qed

text \<open>The strings of a channel are terminated.\<close>

definition channel_strings :: "channel_info \<Rightarrow> bool" where
  "channel_strings c \<longleftrightarrow> terminated (ch_channel_name c) \<and> terminated (ch_creator c) \<and> names_ok (ch_user_list c) \<and>
     names_ok (ch_admin_list c) \<and> names_ok (ch_banned_list c)"

definition channels_terminated :: "table_state \<Rightarrow> bool" where
  "channels_terminated t \<longleftrightarrow>
     (\<forall>k v. content t DB_CHANNEL_INFO k = Some v \<longrightarrow> channel_strings (projr (decode_channel_info v)))"

lemma channels_terminatedD: "channels_terminated t \<Longrightarrow> table_channels t cs \<Longrightarrow> c \<in> set cs \<Longrightarrow> channel_strings c"
  by (fastforce simp: channels_terminated_def table_channels_def chan_list_def)

definition head_text :: "channel_info \<Rightarrow> string" where
  "head_text c = msg (cstr (ch_channel_name c)) @ msg (cstr (ch_creator c)) @ msg (if ch_publicity c then ''1'' else ''0'')"

lemma channel_head_spec:
  assumes "wf_channel_info c" "channel_strings c"
  shows "\<exists>out. channel_head c = Inr out \<and> terminated out \<and> length out = TEMP_CHANNEL_INFO_LENGTH \<and> cstr out = head_text c"
    "length (head_text c) \<le> 44"
proof -
  have l: "length (cstr (ch_channel_name c)) < TOKEN_NAME_LENGTH" "length (cstr (ch_creator c)) < TOKEN_NAME_LENGTH"
    using assms length_cstr_name by (auto simp: wf_channel_info_def channel_strings_def)
  then show b: "length (head_text c) \<le> 44" by (simp add: head_text_def)
  have "NUL \<notin> set (head_text c)" by (simp add: head_text_def)
  from sprintf_fits [OF this, of "zeros TEMP_CHANNEL_INFO_LENGTH"] b
  obtain r where "sprintf (zeros TEMP_CHANNEL_INFO_LENGTH) (head_text c) = Inr r" "length r = TEMP_CHANNEL_INFO_LENGTH"
    "terminated r" "cstr r = head_text c" by auto
  then show "\<exists>out. channel_head c = Inr out \<and> terminated out \<and> length out = TEMP_CHANNEL_INFO_LENGTH \<and> cstr out = head_text c"
    using assms(2) by (simp add: channel_head_def channel_strings_def c_string_terminated head_text_def)
qed

text \<open>A section that is printed only on request.\<close>

definition section_text :: "bool \<Rightarrow> bytes list \<Rightarrow> bytes list \<Rightarrow> string" where
  "section_text wanted tested printed = (if wanted then list_text tested printed else [])"

lemma optional_section_spec:
  assumes N: "names_ok tested" "names_ok printed" "length tested = 64" "length printed = 64"
    and O: "terminated out" "length (cstr out) + 25 < length out"
  shows "\<exists>out'. (if wanted then list_section out tested printed else Inr out) = Inr out' \<and> terminated out' \<and>
    length out' = length out \<and> cstr out' = cstr out @ section_text wanted tested printed \<and>
    length (section_text wanted tested printed) \<le> 25"
  using list_section_spec [OF N(1,2) _ _ O] list_text_bound [OF N(2), of tested] N O
  by (cases wanted) (auto simp: section_text_def)

lemma read_sections_spec:
  assumes W: "wf_channel_info c" "channel_strings c" and B: "names_ok bs" "length bs = 64"
  shows "\<exists>out. bindR (channel_head c) (\<lambda>out.
      bindR (if p1 then list_section out (ch_user_list c) (ch_user_list c) else Inr out) (\<lambda>out.
      bindR (if p2 then list_section out (ch_admin_list c) (ch_admin_list c) else Inr out) (\<lambda>out.
      bindR (if p3 then list_section out (ch_banned_list c) bs else Inr out) f))) = f out \<and> terminated out \<and>
    cstr out = head_text c @ section_text p1 (ch_user_list c) (ch_user_list c) @
      section_text p2 (ch_admin_list c) (ch_admin_list c) @ section_text p3 (ch_banned_list c) bs"
proof -
  have l: "length (ch_user_list c) = 64" "length (ch_admin_list c) = 64" "length (ch_banned_list c) = 64"
    using W(1) by (simp_all add: wf_channel_info_def wf_names_def)
  have n: "names_ok (ch_user_list c)" "names_ok (ch_admin_list c)" "names_ok (ch_banned_list c)"
    using W(2) by (simp_all add: channel_strings_def)
  obtain o0 where o0: "channel_head c = Inr o0" "terminated o0" "length o0 = TEMP_CHANNEL_INFO_LENGTH" "cstr o0 = head_text c"
    using channel_head_spec(1) [OF W] by blast
  note b = channel_head_spec(2) [OF W]
  obtain o1 where o1: "(if p1 then list_section o0 (ch_user_list c) (ch_user_list c) else Inr o0) = Inr o1" "terminated o1"
    "length o1 = TEMP_CHANNEL_INFO_LENGTH" "cstr o1 = head_text c @ section_text p1 (ch_user_list c) (ch_user_list c)"
    "length (section_text p1 (ch_user_list c) (ch_user_list c)) \<le> 25"
    using optional_section_spec [OF n(1,1) l(1,1) o0(2), of p1] o0 b by auto
  obtain o2 where o2: "(if p2 then list_section o1 (ch_admin_list c) (ch_admin_list c) else Inr o1) = Inr o2" "terminated o2"
    "length o2 = TEMP_CHANNEL_INFO_LENGTH" "cstr o2 = cstr o1 @ section_text p2 (ch_admin_list c) (ch_admin_list c)"
    "length (section_text p2 (ch_admin_list c) (ch_admin_list c)) \<le> 25"
    using optional_section_spec [OF n(2,2) l(2,2) o1(2), of p2] o1 b by auto
  obtain o3 where o3: "(if p3 then list_section o2 (ch_banned_list c) bs else Inr o2) = Inr o3" "terminated o3"
    "cstr o3 = cstr o2 @ section_text p3 (ch_banned_list c) bs"
    using optional_section_spec [OF n(3) B(1) l(3) B(2) o2(2), of p3] o2 o1 b by auto
  from o0(1) o1(1,4) o2(1,4) o3 show ?thesis by (intro exI [of _ o3]) (simp only: bindR_simps append_assoc)
qed

section \<open>Properties\<close>

lemma read_and_create_channel_spec:
  assumes "dbs E tab opn (world s) t" and "body_at s fd n tr [ch, nm, publ]" and "wf_cache (cache s)"
    and "length ch < TOKEN_NAME_LENGTH - 1" "length nm < TOKEN_NAME_LENGTH" "length publ = 1" "terminated addr"
  shows "\<exists>r out s' t'. read_and_create_channel E s fd token_out n addr = Inr ((r, out), s') \<and>
    dbs E tab opn (world s') t' \<and> cache s' = cache s \<and> sent s' = sent s \<and> closed s' = closed s \<and>
    (if \<not> (\<exists>u \<in> set (users (cache s)). cstr (cu_ip_address u) = cstr addr \<and> user_name u = nm) then r = 500 \<and> t' = t \<and> out = token_out
     else if nm = ''admin'' \<and> name_view t (nul_pad TOKEN_NAME_LENGTH nm) = None then r = 404 \<and> t' = t \<and> out = token_out
     else if has_channel t ch then r = 409 \<and> t' = t \<and> out = token_out
     else r = 0 \<and> terminated out \<and> cstr out = msg ch \<and> (\<exists>uuid. uuid_text uuid \<and>
       t' = tput t DB_CHANNEL_INFO uuid (encode_channel_info (new_channel uuid ch nm (publ = ''1'')))))"
    (is "\<exists>r out s' t'. _ \<and> _ \<and> _ \<and> _ \<and> _ \<and> (if \<not> ?here then _ else if ?bad then _ else if ?dup then _ else _)")
proof -
  have ch: "NUL \<notin> set ch" "length ch < TOKEN_NAME_LENGTH" using assms(2,4) by (simp_all add: body_at_def field_ok_def)
  obtain uuid w1 w2 w4 where w: "uuid_text uuid" "dbs E tab opn w1 t" "dbs E tab opn w2 t"
    "dbs E tab opn w4 (tput t DB_CHANNEL_INFO uuid (encode_channel_info (new_channel uuid ch nm (publ = ''1''))))"
    and run: "read_and_create_channel E s fd token_out n addr =
      (if \<not> ?here then Inr ((500, token_out), consume s fd (unat n))
       else if ?bad then Inr ((404, token_out), (consume s fd (unat n))\<lparr>world := w1\<rparr>)
       else if ?dup then Inr ((409, token_out), (consume s fd (unat n))\<lparr>world := w2\<rparr>)
       else bindR (strcat (nul_pad TOKEN_NAME_LENGTH ch) (lit [ETX])) (\<lambda>out.
         Inr ((0, out), (consume s fd (unat n))\<lparr>world := w4\<rparr>)))"
    using create_channel_run [OF assms(1-3) ch(2) assms(5-7), of token_out] by blast
  obtain out where out: "strcat (nul_pad TOKEN_NAME_LENGTH ch) (lit [ETX]) = Inr out" "terminated out" "cstr out = msg ch"
    using ch assms(4) by (auto simp: strcat_eq_Inr msg_def)
  consider (a) "\<not> ?here" | (b) "\<not> \<not> ?here" "?bad" | (c) "\<not> \<not> ?here" "\<not> ?bad" "?dup" | (d) "\<not> \<not> ?here" "\<not> ?bad" "\<not> ?dup"
    by blast
  then show ?thesis
  proof cases
    case a
    show ?thesis using assms(1) run unfolding if_P [OF a] by auto
  next
    case b
    show ?thesis using w run unfolding if_not_P [OF b(1)] if_P [OF b(2)] by auto
  next
    case c
    show ?thesis using w run unfolding if_not_P [OF c(1)] if_not_P [OF c(2)] if_P [OF c(3)] by auto
  next
    case d
    show ?thesis
      using w run out unfolding if_not_P [OF d(1)] if_not_P [OF d(2)] if_not_P [OF d(3)] by auto
  qed
qed

text \<open>C15: creating a channel. For a client that is connected under the display name it gives, with a channel name
  of at most 19 characters and a publicity flag of one character, the handler answers 409 and stores nothing if a
  channel of that name exists, 404 if the name is admin and is missing from the databases, and otherwise 0 with the
  channel name; it then stores one channel under a fresh id, with the client as creator, only member and only
  administrator. A client that is not connected under that name and address gets 500.\<close>

theorem read_and_create_channel_correct:
  assumes "dbs E tab opn (world s) t" and "body_at s fd n tr [ch, nm, publ]" and "wf_cache (cache s)"
    and "length ch < TOKEN_NAME_LENGTH - 1" "length nm < TOKEN_NAME_LENGTH" "length publ = 1" "terminated addr"
  shows "\<exists>r out s' t'. read_and_create_channel E s fd token_out n addr = Inr ((r, out), s') \<and>
    dbs E tab opn (world s') t' \<and> cache s' = cache s \<and> sent s' = sent s \<and> closed s' = closed s \<and>
    (if \<not> (\<exists>u \<in> set (users (cache s)). cstr (cu_ip_address u) = cstr addr \<and> user_name u = nm) then r = 500 \<and> t' = t \<and> out = token_out
     else if nm = ''admin'' \<and> name_view t (nul_pad TOKEN_NAME_LENGTH nm) = None then r = 404 \<and> t' = t \<and> out = token_out
     else if has_channel t ch then r = 409 \<and> t' = t \<and> out = token_out
     else r = 0 \<and> terminated out \<and> cstr out = msg ch \<and> (\<exists>uuid. uuid_text uuid \<and>
       t' = tput t DB_CHANNEL_INFO uuid (encode_channel_info (new_channel uuid ch nm (publ = ''1'')))))"
  by (rule read_and_create_channel_spec) (fact assms)+

theorem read_and_create_channel_correct_witness:
  "\<exists>out s'. read_and_create_channel mem_env (demo_state (join_fields False [''news'', ''benny'', ''1''])) 5 (zeros 21) 12
      (nul_pad 16 ''10.0.0.1'') = Inr ((0, out), s') \<and> cstr out = msg ''news''"
proof -
  have h: "\<not> has_channel demo_tables ''news''"
    by (auto simp: has_channel_def demo_content split: if_splits)
  show ?thesis
    using read_and_create_channel_correct [of mem_env mem_tab mw_open "demo_state (join_fields False [''news'', ''benny'', ''1''])"
        demo_tables 5 12 False "''news''" "''benny''" "''1''" "nul_pad 16 ''10.0.0.1''" "zeros 21"] h
    by (auto simp: body_at_def field_ok_def join_fields.simps)
qed

text \<open>A channel name of exactly 20 characters fits its own array but not the answer: after the channel is
  stored, the \<^verbatim>\<open>strcat\<close> of the separator writes behind the 21 bytes of the output array.\<close>

lemma create_channel_name_overflow:
  assumes "dbs E tab opn (world s) t" and "body_at s fd n tr [ch, nm, publ]" and "wf_cache (cache s)"
    and "length ch = TOKEN_NAME_LENGTH - 1" "length nm < TOKEN_NAME_LENGTH" "length publ = 1" "terminated addr"
    and "u \<in> set (users (cache s))" "cstr (cu_ip_address u) = cstr addr" "user_name u = nm" "nm \<noteq> ''admin''"
    and "\<not> has_channel t ch"
  shows "read_and_create_channel E s fd token_out n addr = Inl BufferOverflow"
proof -
  have ch: "NUL \<notin> set ch" "length ch < TOKEN_NAME_LENGTH" using assms(2,4) by (simp_all add: body_at_def field_ok_def)
  have "strcat (nul_pad TOKEN_NAME_LENGTH ch) (lit [ETX]) = Inl BufferOverflow"
    using ch assms(4) by (simp add: strcat_def strcpy_def clib)
  moreover have "\<exists>u \<in> set (users (cache s)). cstr (cu_ip_address u) = cstr addr \<and> user_name u = nm"
    using assms(8-10) by blast
  ultimately show ?thesis
    using create_channel_run [OF assms(1-3) ch(2) assms(5-7), of token_out] assms(11,12) by auto
qed

lemma read_and_read_channel_spec:
  assumes "dbs E tab opn (world s) t" and "body_at s fd n tr (ch # fs)" and "length ch < TOKEN_NAME_LENGTH" and "length fs \<le> 3"
    and "channels_terminated t"
  shows "\<exists>r out s'. read_and_read_channel E s fd channel_info_out n = Inr ((r, out), s') \<and> dbs E tab opn (world s') t \<and>
    cache s' = cache s \<and> sent s' = sent s \<and> closed s' = closed s \<and>
    (if length fs < 3 then r = 400 \<and> out = channel_info_out
     else if \<not> has_channel t ch then r = 404 \<and> out = channel_info_out
     else r = 0 \<and> terminated out \<and> (\<exists>cs c. table_channels t cs \<and> find_channel (nul_pad TOKEN_NAME_LENGTH ch) cs = Some c \<and>
       cstr out = head_text c @ section_text (fs ! 0 = ''1'') (ch_user_list c) (ch_user_list c) @
         section_text (fs ! 1 = ''1'') (ch_admin_list c) (ch_admin_list c) @
         section_text (fs ! 2 = ''1'') (ch_banned_list c) (ch_admin_list c)))"
proof -
  have F: "field_ok ch" "list_all field_ok fs" using assms(2) by (simp_all add: body_at_def)
  let ?ch = "nul_pad TOKEN_NAME_LENGTH ch" and ?s = "consume s fd (unat n)"
  show ?thesis
  proof (cases "length fs < 3")
    case True
    then have "read_and_read_channel E s fd channel_info_out n = Inr ((400, channel_info_out), ?s)"
      using assms(2,3) F by (cases fs; cases "tl fs"; cases "tl (tl fs)") (auto simp: read_and_read_channel_def)
    with True assms(1) show ?thesis by simp
  next
    case False
    then have "length fs = 3" using assms(4) by simp
    then obtain p1 p2 p3 where fs: "fs = [p1, p2, p3]" by (auto simp: numeral_3_eq_3 length_Suc_conv)
    obtain w cs where w: "get_channel_info_malloc_or_null E (world s) ?ch = Inr (find_channel ?ch cs, w)" "dbs E tab opn w t"
      "table_channels t cs"
      using dbs_get_channel [OF assms(1), of ?ch] F assms(3) by (auto simp: field_okD)
    have h: "find_channel ?ch cs = None \<longleftrightarrow> \<not> has_channel t ch"
      using find_channel_has [OF w(3), of ?ch] F by (cases "find_channel ?ch cs") (simp_all add: field_okD)
    show ?thesis
    proof (cases "find_channel ?ch cs")
      case None
      then have "read_and_read_channel E s fd channel_info_out n = Inr ((404, channel_info_out), ?s\<lparr>world := w\<rparr>)"
        using assms(2,3) F fs w(1) by (simp add: read_and_read_channel_def)
      with False None h w(2) show ?thesis by simp
    next
      case (Some c)
      then have c: "c \<in> set cs" by (auto simp: find_channel_def find_Some_iff)
      have W: "wf_channel_info c" "channel_strings c" "names_ok (ch_admin_list c)" "length (ch_admin_list c) = 64"
        using table_channels_wf(1) [OF dbsD(4) [OF assms(1)] w(3) c] channels_terminatedD [OF assms(5) w(3) c]
        by (auto simp: wf_channel_info_def wf_names_def channel_strings_def)
      obtain out where out: "read_and_read_channel E s fd channel_info_out n = Inr ((0, out), ?s\<lparr>world := w\<rparr>)" "terminated out"
        "cstr out = head_text c @ section_text (p1 = ''1'') (ch_user_list c) (ch_user_list c) @
          section_text (p2 = ''1'') (ch_admin_list c) (ch_admin_list c) @
          section_text (p3 = ''1'') (ch_banned_list c) (ch_admin_list c)"
        using read_sections_spec [OF W, of "p1 = ''1''" "p2 = ''1''" "p3 = ''1''" "\<lambda>out. Inr ((0, out), ?s\<lparr>world := w\<rparr>)"]
          assms(2,3) F fs w(1) Some by (auto simp: read_and_read_channel_def)
      have "has_channel t ch" using h Some by simp
      with False out w(2,3) Some show ?thesis unfolding fs by simp blast
    qed
  qed
qed


lemma distinct_one: "distinct xs \<Longrightarrow> set xs = {k} \<Longrightarrow> xs = [k]"
  by (cases xs; cases "tl xs") auto

lemma demo_channel_only: "table_channels demo_tables cs \<Longrightarrow> cs = [demo_channel]"
proof -
  assume "table_channels demo_tables cs"
  then obtain keys where k: "distinct keys" "set keys = {lit (replicate 36 CHR ''B'')}"
    "cs = chan_list (content demo_tables DB_CHANNEL_INFO) keys"
    unfolding table_channels_def by (auto simp: demo_content(4))
  from distinct_one [OF k(1,2)] k(3) show ?thesis by (simp add: demo_content(4))
qed

lemma demo_channel_strings [simp]: "channel_strings demo_channel"
proof -
  have n: "names_ok sample_names" by (simp add: names_ok_def sample_names_def list_all_iff)
  have "names_ok (sample_names[0 := nul_pad 21 ''benny''])"
    using n unfolding names_ok_def by (rule list_all_update) simp
  with n show ?thesis by (simp add: channel_strings_def demo_channel_def sample_channel_def)
qed

lemma demo_has_channel [simp]: "has_channel demo_tables ch \<longleftrightarrow> ch = ''global''"
  by (auto simp: has_channel_def demo_content)


end
