(* ===== verification/ChannelUpdate.thy ===== *)
theory ChannelUpdate
  imports Channels
begin

text \<open>
  The update of a channel (\<^verbatim>\<open>read_and_update_channel\<close> of \<^verbatim>\<open>src/server.c\<close>), split into the parts of its body: the
  parsing of the request, the check of the names, the change of the database and the answer. A part that can leave
  the handler with a result code returns \<open>Inl code\<close>, otherwise \<open>Inr\<close> of what it computes.
\<close>

section \<open>The handler\<close>

definition bindX :: "(int + 'a) result \<Rightarrow> ('a \<Rightarrow> (int + 'b) result) \<Rightarrow> (int + 'b) result" where
  "bindX m f = bindR m (\<lambda>x. case x of Inl code \<Rightarrow> Inr (Inl code) | Inr y \<Rightarrow> f y)"

definition token_or_400 :: "string \<Rightarrow> (int + string \<times> string) result" where
  "token_or_400 rest =
     (case next_token rest of (None, r) \<Rightarrow> Inr (Inl 400) | (Some t, r) \<Rightarrow> Inr (Inr (t, r)))"

text \<open>Lines 1192 to 1230: the channel, the new name and the new publicity.\<close>

definition parse_settings :: "string \<Rightarrow> (int + (bytes \<times> bool \<times> bytes \<times> bool \<times> bool) \<times> string) result" where
  "parse_settings buffer =
     bindX (token_or_400 buffer) (\<lambda>(t, rest).
     bindX (bindR (copy_token (zeros TOKEN_NAME_LENGTH) (Some t)) (\<lambda>b. Inr (Inr b))) (\<lambda>channel_name.
     bindX (token_or_400 rest) (\<lambda>(t, rest).
     let is_change_name = (t = ''1'')
     in bindX (if is_change_name
        then bindX (token_or_400 rest) (\<lambda>(t, rest).
          bindR (strncpy (zeros TOKEN_NAME_LENGTH) (lit t) TOKEN_NAME_LENGTH) (\<lambda>b. Inr (Inr (b, rest))))
        else Inr (Inr (zeros TOKEN_NAME_LENGTH, rest))) (\<lambda>(new_channel_name, rest).
     bindX (token_or_400 rest) (\<lambda>(t, rest).
     let is_change_publicity = (t = ''1'')
     in bindX (if is_change_publicity
        then bindX (token_or_400 rest) (\<lambda>(t, rest). Inr (Inr (t = ''1'', rest)))
        else Inr (Inr (False, rest))) (\<lambda>(new_publicity, rest).
       Inr (Inr ((channel_name, is_change_name, new_channel_name, is_change_publicity, new_publicity), rest))))))))"

text \<open>A list of names in the request: the number of names, then the names, copied into an array of 64 entries.\<close>

fun names_loop :: "nat \<Rightarrow> nat \<Rightarrow> bytes list \<Rightarrow> string \<Rightarrow> (int + bytes list \<times> string) result" where
  "names_loop 0 i names rest = Inr (Inr (names, rest))"
| "names_loop (Suc k) i names rest =
     bindX (token_or_400 rest) (\<lambda>(t, rest).
       if length names \<le> i then Inl BufferOverflow
       else bindR (strncpy (names ! i) (lit t) TOKEN_NAME_LENGTH) (\<lambda>b. names_loop k (Suc i) (names[i := b]) rest))"

definition parse_names :: "string \<Rightarrow> (int + bytes list \<times> string) result" where
  "parse_names rest =
     bindX (token_or_400 rest) (\<lambda>(t, rest).
       names_loop (nat (int_of_long (fst (strtol t)))) 0 (replicate DEFAULT_LIST_SIZE (zeros TOKEN_NAME_LENGTH)) rest)"

text \<open>One of the three switches: the digit, the names to add (cases 1 and 3) and the names to remove (cases 2 and 3).
  The assertion of the default case is on a string literal and always holds.\<close>

definition parse_alter :: "string \<Rightarrow> (int + (char \<times> bytes list \<times> bytes list) \<times> string) result" where
  "parse_alter rest =
     bindX (token_or_400 rest) (\<lambda>(t, rest).
       if 1 < length t then Inr (Inl 400)
       else
         let alter = hd t; none = replicate DEFAULT_LIST_SIZE (zeros TOKEN_NAME_LENGTH)
         in bindX (if alter = CHR ''1'' \<or> alter = CHR ''3'' then parse_names rest else Inr (Inr (none, rest))) (\<lambda>(add, rest).
            bindX (if alter = CHR ''3'' \<or> alter = CHR ''2'' then parse_names rest else Inr (Inr (none, rest))) (\<lambda>(remove, rest).
              Inr (Inr ((alter, add, remove), rest)))))"

definition parse_alter_users :: "string \<Rightarrow> (int + (char \<times> bytes list \<times> bytes list) \<times> string) result" where
  "parse_alter_users rest = parse_alter rest"

definition parse_alter_admins :: "string \<Rightarrow> (int + (char \<times> bytes list \<times> bytes list) \<times> string) result" where
  "parse_alter_admins rest = parse_alter rest"

definition parse_alter_banned :: "string \<Rightarrow> (int + (char \<times> bytes list \<times> bytes list) \<times> string) result" where
  "parse_alter_banned rest = parse_alter rest"

text \<open>The check of one list, and of the six lists, lines 1384 to 1420.\<close>

fun names_exist :: "'w env \<Rightarrow> 'w \<Rightarrow> bytes list \<Rightarrow> (bool \<times> 'w) result" where
  "names_exist E w [] = Inr (True, w)"
| "names_exist E w (x # xs) =
     bindR (char_at x 0) (\<lambda>c.
       if c = NUL then Inr (True, w)
       else bindR (check_duplicate_display_name E w x) (\<lambda>(found, w).
         if found then names_exist E w xs else Inr (False, w)))"

fun all_names_exist :: "'w env \<Rightarrow> 'w \<Rightarrow> bytes list list \<Rightarrow> (bool \<times> 'w) result" where
  "all_names_exist E w [] = Inr (True, w)"
| "all_names_exist E w (xs # xss) =
     bindR (names_exist E w xs) (\<lambda>(ok, w). if ok then all_names_exist E w xss else Inr (False, w))"

text \<open>Lines 1422 to 1435: the change of the database; \<open>False\<close> is the exit with 500.\<close>

definition apply_update ::
  "'w env \<Rightarrow> 'w \<Rightarrow> bytes \<Rightarrow> bool \<Rightarrow> bytes \<Rightarrow> bool \<Rightarrow> bool \<Rightarrow> char \<Rightarrow> bytes list \<Rightarrow> (bool \<times> 'w) result"
where
  "apply_update E w channel_name is_change_name new_channel_name is_change_publicity new_publicity alter_users add_user_list =
     bindR (if is_change_name \<or> is_change_publicity
            then update_channel_name_and_publicity E w channel_name new_channel_name new_publicity
            else Inr (0, w)) (\<lambda>(r, w).
       if r \<noteq> 0 then Inr (False, w)
       else bindR (if alter_users \<noteq> CHR ''0'' then add_users_on_channel E w channel_name add_user_list else Inr (0, w)) (\<lambda>(r, w).
         Inr (r = 0, w)))"

text \<open>Lines 1440 to 1490: the answer.\<close>

definition update_answer ::
  "'w env \<Rightarrow> 'w \<Rightarrow> bytes \<Rightarrow> bytes \<Rightarrow> bool \<Rightarrow> bytes \<Rightarrow> ((int \<times> bytes) \<times> 'w) result"
where
  "update_answer E w channel_info_out channel_name is_change_name new_channel_name =
     bindR (if is_change_name then Inr new_channel_name
            else strncpy new_channel_name channel_name TOKEN_NAME_LENGTH) (\<lambda>new_channel_name.
     bindR (get_channel_info_malloc_or_null E w new_channel_name) (\<lambda>(found, w). case found of
       None \<Rightarrow> Inr ((500, channel_info_out), w)
     | Some c \<Rightarrow>
         bindR (channel_head c) (\<lambda>out.
         bindR (list_section out (ch_user_list c) (ch_user_list c)) (\<lambda>out.
         bindR (list_section out (ch_admin_list c) (ch_admin_list c)) (\<lambda>out.
         bindR (list_section out (ch_banned_list c) (ch_banned_list c)) (\<lambda>out. Inr ((0, out), w)))))))"

definition parse_update ::
  "string \<Rightarrow> (int + (bytes \<times> bool \<times> bytes \<times> bool \<times> bool) \<times> (char \<times> bytes list \<times> bytes list) \<times>
     (char \<times> bytes list \<times> bytes list) \<times> (char \<times> bytes list \<times> bytes list)) result"
where
  "parse_update buffer =
     bindX (parse_settings buffer) (\<lambda>(settings, rest).
     bindX (parse_alter_users rest) (\<lambda>(us, rest).
     bindX (parse_alter_admins rest) (\<lambda>(ads, rest).
     bindX (parse_alter_banned rest) (\<lambda>(bans, rest).
       if fst (next_token rest) \<noteq> None then Inr (Inl 400) else Inr (Inr (settings, us, ads, bans))))))"

definition read_and_update_channel ::
  "'w env \<Rightarrow> 'w server \<Rightarrow> int \<Rightarrow> bytes \<Rightarrow> 16 word \<Rightarrow> ((int \<times> bytes) \<times> 'w server) result"
where
  "read_and_update_channel E s fd channel_info_out body_size =
     bindR (read_body s fd body_size) (\<lambda>(body, s). case body of
       None \<Rightarrow> Inr ((500, channel_info_out), s)
     | Some buffer \<Rightarrow>
         bindR (parse_update buffer) (\<lambda>parsed. case parsed of
           Inl code \<Rightarrow> Inr ((code, channel_info_out), s)
         | Inr ((channel_name, is_change_name, new_channel_name, is_change_publicity, new_publicity),
             (alter_users, add_users, remove_users), (alter_admins, add_admins, remove_admins),
             (alter_banned, add_banned, remove_banned)) \<Rightarrow>
         bindR (get_channel_info_malloc_or_null E (world s) channel_name) (\<lambda>(channel, w).
         if channel = None then Inr ((404, channel_info_out), s\<lparr>world := w\<rparr>)
         else bindR (all_names_exist E w [add_users, remove_users, add_admins, remove_admins, add_banned, remove_banned]) (\<lambda>(ok, w).
         if \<not> ok then Inr ((404, channel_info_out), s\<lparr>world := w\<rparr>)
         else bindR (apply_update E w channel_name is_change_name new_channel_name is_change_publicity new_publicity
             alter_users add_users) (\<lambda>(ok, w).
         if \<not> ok then Inr ((500, channel_info_out), s\<lparr>world := w\<rparr>)
         else bindR (update_answer E w channel_info_out channel_name is_change_name new_channel_name) (\<lambda>(r, w).
           Inr (r, s\<lparr>world := w\<rparr>)))))))"

section \<open>Changing the record of a channel\<close>

lemma reopen_get_channel:
  assumes C: "ndbm_contract E tab opn" and R: "reopen_law E tab opn" and O: "opn w = [DB_CHANNEL_INFO]"
    and T: "tab w DB_CHANNEL_INFO = Some m" "chan_table m" and N: "terminated nm"
  shows "\<exists>w' keys. get_channel_info_malloc_or_null E w nm = Inr (find_channel nm (chan_list m keys), w') \<and>
    opn w' = [DB_CHANNEL_INFO] \<and> tab w' = tab w \<and> distinct keys \<and> set keys = dom m"
proof -
  obtain ok w1 where o: "dbm_open E w DB_CHANNEL_INFO READ_FLAGS = (ok, w1)" by fastforce
  then have w1: "ok" "opn w1 = [DB_CHANNEL_INFO, DB_CHANNEL_INFO]" "tab w1 = tab w"
    using R O T(1) unfolding reopen_law_def by (metis fst_conv snd_conv list.set_intros(1) option.distinct(1))+
  have d: "DB_CHANNEL_INFO \<in> set (opn w1)" "tab w1 DB_CHANNEL_INFO = Some m" using w1 T by simp_all
  have "find_channel_loop E w1 nm (dbm_traverse E w1 DB_CHANNEL_INFO) = Inr (find_channel nm (chan_list m (dbm_traverse E w1 DB_CHANNEL_INFO)))"
    by (rule find_channel_loop_spec [OF T(2)])
      (use contract_fetch [OF C d] contract_heap(1) [OF C] N contract_traverse [OF C d] in simp_all)
  then show ?thesis
    using o w1 contract_close [OF C d(1)] contract_traverse [OF C d]
    by (intro exI [of _ "dbm_close E w1 DB_CHANNEL_INFO"] exI [of _ "dbm_traverse E w1 DB_CHANNEL_INFO"])
      (simp add: get_channel_info_malloc_or_null_def open_db_or_null_def)
qed

text \<open>The two update functions read a channel while they hold its database open, then store the changed record
  under the id of the channel.\<close>

lemma open_get_channel:
  assumes D: "dbs E tab opn w t" and R: "reopen_law E tab opn" and N: "terminated nm"
  obtains (missing) w1 where "dbm_open E w DB_CHANNEL_INFO [O_RDWR, O_SYNC] = (False, w1)" "dbs E tab opn w1 t" "table_channels t []"
  | (found) w1 w2 cs m where "dbm_open E w DB_CHANNEL_INFO [O_RDWR, O_SYNC] = (True, w1)" "table_channels t cs"
      "get_channel_info_malloc_or_null E w1 nm = Inr (find_channel nm cs, w2)" "opn w2 = [DB_CHANNEL_INFO]" "tab w2 = t"
      "t DB_CHANNEL_INFO = Some m"
proof (rule open_read_cases [OF dbsD(1,2) [OF D], of "[O_RDWR, O_SYNC]" DB_CHANNEL_INFO])
  fix w1
  assume o: "dbm_open E w DB_CHANNEL_INFO [O_RDWR, O_SYNC] = (False, w1)" "tab w DB_CHANNEL_INFO = None" "opn w1 = []" "tab w1 = tab w"
  then have "table_channels t []" using dbsD(3) [OF D] by (auto simp: table_channels_def content_def intro!: exI [of _ "[]"])
  then show thesis using missing [OF o(1)] dbsI [OF D o(3), of t] o(4) dbsD(3,4) [OF D] by simp
next
  fix w1 m
  assume o: "dbm_open E w DB_CHANNEL_INFO [O_RDWR, O_SYNC] = (True, w1)" "tab w DB_CHANNEL_INFO = Some m"
    "opn w1 = [DB_CHANNEL_INFO]" "tab w1 = tab w"
  have m: "t DB_CHANNEL_INFO = Some m" "content t DB_CHANNEL_INFO = m" "chan_table m"
    using o(2) dbsD(3,4) [OF D] by (auto simp: content_def db_ok_def)
  have "tab w1 DB_CHANNEL_INFO = Some m" using o(2,4) by simp
  from reopen_get_channel [OF dbsD(1) [OF D] R o(3) this m(3) N]
  obtain w2 keys where "get_channel_info_malloc_or_null E w1 nm = Inr (find_channel nm (chan_list m keys), w2)"
    "opn w2 = [DB_CHANNEL_INFO]" "tab w2 = t" "distinct keys" "set keys = dom m"
    using o(4) dbsD(3) [OF D] by auto
  moreover from this have "table_channels t (chan_list m keys)" by (auto simp: table_channels_def m(2))
  ultimately show thesis using found [OF o(1)] m(1) by blast
qed simp

lemma store_channel:
  assumes D: "dbs E tab opn w t" and O: "opn w2 = [DB_CHANNEL_INFO]" "tab w2 = t" "t DB_CHANNEL_INFO = Some m"
    and W: "wf_channel_info c" "terminated (ch_channel_name c)"
  shows "\<exists>w3. dbm_store E w2 DB_CHANNEL_INFO (ch_channel_id c) (encode_channel_info c) = (0, w3) \<and>
    dbs E tab opn (dbm_close E w3 DB_CHANNEL_INFO) (tput t DB_CHANNEL_INFO (ch_channel_id c) (encode_channel_info c))"
proof -
  have d: "DB_CHANNEL_INFO \<in> set (opn w2)" "tab w2 DB_CHANNEL_INFO = Some m" using O by simp_all
  from contract_store [OF dbsD(1) [OF D] d] obtain w3 where
    w3: "dbm_store E w2 DB_CHANNEL_INFO (ch_channel_id c) (encode_channel_info c) = (0, w3)" "opn w3 = [DB_CHANNEL_INFO]"
      "tab w3 = t(DB_CHANNEL_INFO \<mapsto> m(ch_channel_id c \<mapsto> encode_channel_info c))"
    using O by metis
  then have t: "tab w3 = tput t DB_CHANNEL_INFO (ch_channel_id c) (encode_channel_info c)"
    using O(3) by (simp add: tput_def content_def)
  have "DB_CHANNEL_INFO \<in> set (opn w3)" using w3(2) by simp
  from contract_close [OF dbsD(1) [OF D] this] w3(2) t
  have "opn (dbm_close E w3 DB_CHANNEL_INFO) = []"
    "tab (dbm_close E w3 DB_CHANNEL_INFO) = tput t DB_CHANNEL_INFO (ch_channel_id c) (encode_channel_info c)" by simp_all
  with w3(1) dbsI [OF D] db_ok_put_channel [OF dbsD(4) [OF D] W] show ?thesis by blast
qed

lemma update_channel_spec:
  assumes D: "dbs E tab opn w t" and R: "reopen_law E tab opn" and N: "terminated nm"
    and F: "NUL \<notin> set new" "length new < TOKEN_NAME_LENGTH"
  shows "\<exists>cs w'. table_channels t cs \<and> (case find_channel nm cs of
      None \<Rightarrow> update_channel_name_and_publicity E w nm (nul_pad TOKEN_NAME_LENGTH new) publ = Inr (-1, w') \<and> dbs E tab opn w' t
    | Some c \<Rightarrow> update_channel_name_and_publicity E w nm (nul_pad TOKEN_NAME_LENGTH new) publ = Inr (0, w') \<and>
        dbs E tab opn w' (tput t DB_CHANNEL_INFO (ch_channel_id c)
          (encode_channel_info (c\<lparr>ch_channel_name := nul_pad TOKEN_NAME_LENGTH new, ch_publicity := publ\<rparr>))))"
proof (rule open_get_channel [OF D R N])
  fix w1
  assume "dbm_open E w DB_CHANNEL_INFO [O_RDWR, O_SYNC] = (False, w1)" "dbs E tab opn w1 t" "table_channels t []"
  then show ?thesis
    by (intro exI [of _ "[]"] exI [of _ w1]) (simp add: update_channel_name_and_publicity_def open_db_or_null_def find_channel_def)
next
  fix w1 w2 cs m
  assume o: "dbm_open E w DB_CHANNEL_INFO [O_RDWR, O_SYNC] = (True, w1)" "table_channels t cs"
    "get_channel_info_malloc_or_null E w1 nm = Inr (find_channel nm cs, w2)" "opn w2 = [DB_CHANNEL_INFO]" "tab w2 = t"
    "t DB_CHANNEL_INFO = Some m"
  show ?thesis
  proof (cases "find_channel nm cs")
    case None
    have "DB_CHANNEL_INFO \<in> set (opn w2)" using o(4) by simp
    from contract_close [OF dbsD(1) [OF D] this] o(4,5)
    have "dbs E tab opn (dbm_close E w2 DB_CHANNEL_INFO) t" using dbsI [OF D _ _ dbsD(4) [OF D]] by simp
    with None o show ?thesis
      by (intro exI [of _ cs] exI [of _ "dbm_close E w2 DB_CHANNEL_INFO"])
        (simp add: update_channel_name_and_publicity_def open_db_or_null_def)
  next
    case (Some c)
    then have "c \<in> set cs" by (auto simp: find_channel_def find_Some_iff)
    note c = table_channels_wf [OF dbsD(4) [OF D] o(2) this]
    let ?c = "c\<lparr>ch_channel_name := nul_pad TOKEN_NAME_LENGTH new, ch_publicity := publ\<rparr>"
    have W: "wf_channel_info ?c" "terminated (ch_channel_name ?c)" using c F by (simp_all add: wf_channel_info_def)
    obtain w3 where w3: "dbm_store E w2 DB_CHANNEL_INFO (ch_channel_id c) (encode_channel_info ?c) = (0, w3)"
      "dbs E tab opn (dbm_close E w3 DB_CHANNEL_INFO) (tput t DB_CHANNEL_INFO (ch_channel_id c) (encode_channel_info ?c))"
      using store_channel [OF D o(4-6) W] by auto
    moreover have "strncpy (ch_channel_name c) (nul_pad TOKEN_NAME_LENGTH new) TOKEN_NAME_LENGTH = Inr (nul_pad TOKEN_NAME_LENGTH new)"
      "length (ch_channel_id c) = UUID_LEN"
      using c(1) F by (simp_all add: wf_channel_info_def)
    ultimately show ?thesis
      using Some o by (intro exI [of _ cs] exI [of _ "dbm_close E w3 DB_CHANNEL_INFO"])
        (simp add: update_channel_name_and_publicity_def open_db_or_null_def)
  qed
qed

section \<open>Adding members\<close>

text \<open>The list of members after names are added: the first name that is already a member ends the work, whatever
  follows it in the request, and the list holds at most 64 names.\<close>

definition with_members :: "bytes list \<Rightarrow> string list \<Rightarrow> bytes list" where
  "with_members ul us =
     (let j = length (members ul);
          new = take (DEFAULT_LIST_SIZE - j) (takeWhile (\<lambda>u. u \<notin> cstr ` set (members ul)) us)
      in take j ul @ map (nul_pad TOKEN_NAME_LENGTH) new @ drop (j + length new) ul)"

lemma first_char: "length x = TOKEN_NAME_LENGTH \<Longrightarrow> cstr x = [] \<longleftrightarrow> x ! 0 = NUL"
  by (cases x) auto

lemma blank_member_spec:
  assumes "names_ok us" "terminated m" "cstr m \<noteq> []"
  shows "\<exists>us'. blank_member m us = Inr us' \<and> names_ok us' \<and> length us' = length us \<and>
    members us' = takeWhile (\<lambda>u. cstr u \<noteq> cstr m) (members us)"
  using assms
proof (induction us)
  case (Cons u us)
  have u: "length u = TOKEN_NAME_LENGTH" "terminated u" "u \<noteq> []" using Cons.prems(1) by auto
  obtain us' where us': "blank_member m us = Inr us'" "names_ok us'" "length us' = length us"
    "members us' = takeWhile (\<lambda>u. cstr u \<noteq> cstr m) (members us)"
    using Cons by auto
  have "terminated (u[0 := NUL])" using u(3) by (cases u) auto
  then show ?case using Cons.prems u us' by (auto simp: strcmp_eq_terminated)
qed (simp add: names_ok_def)

lemma takeWhile_takeWhile: "takeWhile P (takeWhile Q xs) = takeWhile (\<lambda>x. Q x \<and> P x) xs"
  by (induction xs) auto

lemma blank_members_spec:
  assumes "names_ok ms" "names_ok us"
  shows "\<exists>us'. blank_members ms us j = Inr (j + length (members ms), us') \<and> names_ok us' \<and> length us' = length us \<and>
    members us' = takeWhile (\<lambda>u. cstr u \<notin> cstr ` set (members ms)) (members us)"
  using assms
proof (induction ms arbitrary: us j)
  case (Cons m ms)
  have m: "length m = TOKEN_NAME_LENGTH" "terminated m" "names_ok ms" "m \<noteq> []" using Cons.prems(1) by auto
  show ?case
  proof (cases "m ! 0 = NUL")
    case False
    then have "cstr m \<noteq> []" using first_char m(1) by simp
    from blank_member_spec [OF Cons.prems(2) m(2) this] obtain u1 where u1: "blank_member m us = Inr u1" "names_ok u1"
      "length u1 = length us" "members u1 = takeWhile (\<lambda>u. cstr u \<noteq> cstr m) (members us)" by blast
    from Cons.IH [OF m(3) u1(2), of "Suc j"] show ?thesis
      using False m u1 by (auto simp: takeWhile_takeWhile conj_commute)
  qed (use m Cons.prems in \<open>simp add: members_def takeWhile_takeWhile\<close>)
qed (simp add: members_def takeWhile_takeWhile)

lemma append_users_spec:
  assumes "names_ok us" "names_ok ul" "length ul = DEFAULT_LIST_SIZE" "j \<le> DEFAULT_LIST_SIZE"
  shows "append_users j us ul = Inr (take j ul @ map (\<lambda>u. nul_pad TOKEN_NAME_LENGTH (cstr u)) (take (DEFAULT_LIST_SIZE - j) (members us))
     @ drop (j + length (take (DEFAULT_LIST_SIZE - j) (members us))) ul)"
  using assms
proof (induction us arbitrary: j ul)
  case (Cons u us)
  have u: "length u = TOKEN_NAME_LENGTH" "terminated u" "u \<noteq> []" "names_ok us" using Cons.prems(1) by auto
  show ?case
  proof (cases "j < DEFAULT_LIST_SIZE \<and> u ! 0 \<noteq> NUL")
    case True
    let ?x = "nul_pad TOKEN_NAME_LENGTH (cstr u)"
    have l: "length (ul ! j) = TOKEN_NAME_LENGTH" using Cons.prems(2,3) True by (simp add: names_ok_def list_all_length)
    have x: "strncpy (ul ! j) u TOKEN_NAME_LENGTH = Inr ?x" using l u by (simp add: clib)
    have "names_ok (ul[j := ?x])"
      using Cons.prems(2) length_cstr_name [OF u(1,2)] unfolding names_ok_def by (intro list_all_update) simp_all
    from Cons.IH [OF u(4) this, of "Suc j"] Cons.prems(3) True x u show ?thesis
      by (simp add: Suc_diff_Suc [symmetric] take_Suc_conv_app_nth)
  qed (use u Cons.prems in auto)
qed simp

text \<open>The names of a request, and the array they are copied to.\<close>

definition request_names :: "string list \<Rightarrow> bool" where
  "request_names us \<longleftrightarrow> length us \<le> DEFAULT_LIST_SIZE \<and> list_all (\<lambda>u. field_ok u \<and> length u < TOKEN_NAME_LENGTH) us"

definition name_array :: "string list \<Rightarrow> bytes list" where
  "name_array us = map (nul_pad TOKEN_NAME_LENGTH) us @ replicate (DEFAULT_LIST_SIZE - length us) (zeros TOKEN_NAME_LENGTH)"

lemma nul_pad_first [simp]: "u \<noteq> [] \<Longrightarrow> nul_pad n u ! 0 = u ! 0"
  by (simp add: nul_pad_def nth_append)

lemma request_name_first:
  assumes "request_names us" "u \<in> set us"
  shows "u \<noteq> []" "u ! 0 \<noteq> NUL" "NUL \<notin> set u" "length u < TOKEN_NAME_LENGTH"
proof -
  show "u \<noteq> []" "NUL \<notin> set u" "length u < TOKEN_NAME_LENGTH"
    using assms by (auto simp: request_names_def list_all_iff field_ok_def)
  then show "u ! 0 \<noteq> NUL" by (cases u) auto
qed

lemma name_array_ok:
  assumes "request_names us"
  shows "names_ok (name_array us)" "members (name_array us) = map (nul_pad TOKEN_NAME_LENGTH) us" "length (name_array us) = DEFAULT_LIST_SIZE"
proof -
  note u = request_name_first [OF assms]
  show "names_ok (name_array us)"
    using u by (auto simp: name_array_def names_ok_def list_all_iff)
  have "members (replicate k (zeros TOKEN_NAME_LENGTH)) = []" for k by (cases k) (simp_all add: members_def)
  moreover have "members (map (nul_pad TOKEN_NAME_LENGTH) us @ r) = map (nul_pad TOKEN_NAME_LENGTH) us @ members r" for r
    unfolding members_def by (rule takeWhile_append2) (use u in auto)
  ultimately show "members (name_array us) = map (nul_pad TOKEN_NAME_LENGTH) us"
    by (simp add: name_array_def)
  show "length (name_array us) = DEFAULT_LIST_SIZE" using assms by (simp add: name_array_def request_names_def)
qed

lemma with_members_run:
  assumes "request_names us" "names_ok ul" "length ul = DEFAULT_LIST_SIZE"
  shows "\<exists>j us'. blank_members ul (name_array us) 0 = Inr (j, us') \<and> append_users j us' ul = Inr (with_members ul us)"
proof -
  note a = name_array_ok [OF assms(1)] and u = request_name_first [OF assms(1)]
  let ?new = "takeWhile (\<lambda>u. u \<notin> cstr ` set (members ul)) us"
  obtain us' where b: "blank_members ul (name_array us) 0 = Inr (length (members ul), us')" "names_ok us'"
    "members us' = takeWhile (\<lambda>u. cstr u \<notin> cstr ` set (members ul)) (members (name_array us))"
    using blank_members_spec [OF assms(2) a(1), of 0] by auto
  have "members us' = map (nul_pad TOKEN_NAME_LENGTH) (takeWhile (\<lambda>u. cstr (nul_pad TOKEN_NAME_LENGTH u) \<notin> cstr ` set (members ul)) us)"
    unfolding b(3) a(2) takeWhile_map by (simp add: comp_def)
  also have "takeWhile (\<lambda>u. cstr (nul_pad TOKEN_NAME_LENGTH u) \<notin> cstr ` set (members ul)) us = ?new"
    by (rule takeWhile_cong) (simp_all add: u)
  finally have m: "members us' = map (nul_pad TOKEN_NAME_LENGTH) ?new" .
  have "map (\<lambda>v. nul_pad TOKEN_NAME_LENGTH (cstr v)) (take k (members us')) = map (nul_pad TOKEN_NAME_LENGTH) (take k ?new)" for k
    using u by (auto simp: m take_map dest!: in_set_takeD set_takeWhileD)
  moreover have "append_users (length (members ul)) us' ul = Inr (take (length (members ul)) ul @
      map (\<lambda>v. nul_pad TOKEN_NAME_LENGTH (cstr v)) (take (DEFAULT_LIST_SIZE - length (members ul)) (members us')) @
      drop (length (members ul) + length (take (DEFAULT_LIST_SIZE - length (members ul)) (members us'))) ul)"
    using append_users_spec [OF b(2) assms(2,3)] length_members [of ul] assms(3) by simp
  ultimately show ?thesis using b(1) by (simp add: with_members_def Let_def m)
qed

lemma with_members_ok:
  assumes "request_names us" "names_ok ul" "length ul = DEFAULT_LIST_SIZE"
  shows "names_ok (with_members ul us)" "length (with_members ul us) = DEFAULT_LIST_SIZE"
proof -
  have n: "names_ok (map (nul_pad TOKEN_NAME_LENGTH) (take k (takeWhile P us)))" for k P
    using request_name_first [OF assms(1)] unfolding names_ok_def list_all_iff by (auto dest!: in_set_takeD set_takeWhileD)
  moreover have "names_ok (take k ul)" "names_ok (drop k ul)" for k
    using assms(2) unfolding names_ok_def list_all_iff by (auto dest: in_set_takeD in_set_dropD)
  moreover have "names_ok (xs @ ys) \<longleftrightarrow> names_ok xs \<and> names_ok ys" for xs ys by (simp add: names_ok_def)
  ultimately show "names_ok (with_members ul us)" unfolding with_members_def Let_def by simp
  show "length (with_members ul us) = DEFAULT_LIST_SIZE"
    using assms(3) length_members [of ul] by (auto simp: with_members_def Let_def)
qed

lemma names_ok_wf: "wf_names xs \<longleftrightarrow> length xs = DEFAULT_LIST_SIZE \<and> list_all (\<lambda>x. length x = TOKEN_NAME_LENGTH) xs"
  by (simp add: wf_names_def list_all_iff)

lemma add_users_spec:
  assumes D: "dbs E tab opn w t" and R: "reopen_law E tab opn" and N: "terminated nm"
    and U: "request_names us" and T: "channels_terminated t" and H: "has_channel t (cstr nm)"
  shows "\<exists>cs c w'. table_channels t cs \<and> find_channel nm cs = Some c \<and>
    add_users_on_channel E w nm (name_array us) = Inr (0, w') \<and>
    dbs E tab opn w' (tput t DB_CHANNEL_INFO (ch_channel_id c)
      (encode_channel_info (c\<lparr>ch_user_list := with_members (ch_user_list c) us\<rparr>)))"
proof (rule open_get_channel [OF D R N])
  assume "table_channels t []"
  with find_channel_has [of t "[]" nm] H show ?thesis by (simp add: find_channel_def)
next
  fix w1 w2 cs m
  assume o: "dbm_open E w DB_CHANNEL_INFO [O_RDWR, O_SYNC] = (True, w1)" "table_channels t cs"
    "get_channel_info_malloc_or_null E w1 nm = Inr (find_channel nm cs, w2)" "opn w2 = [DB_CHANNEL_INFO]" "tab w2 = t"
    "t DB_CHANNEL_INFO = Some m"
  obtain c where c: "find_channel nm cs = Some c" using find_channel_has [OF o(2), of nm] H by auto
  then have m: "c \<in> set cs" by (auto simp: find_channel_def find_Some_iff)
  note wc = table_channels_wf [OF dbsD(4) [OF D] o(2) m]
  have s: "channel_strings c" by (rule channels_terminatedD [OF T o(2) m])
  have l: "length (ch_user_list c) = DEFAULT_LIST_SIZE" "names_ok (ch_user_list c)" "length (ch_channel_id c) = UUID_LEN"
    using wc(1) s by (simp_all add: wf_channel_info_def wf_names_def channel_strings_def)
  let ?c = "c\<lparr>ch_user_list := with_members (ch_user_list c) us\<rparr>"
  have W: "wf_channel_info ?c" "terminated (ch_channel_name ?c)"
    using wc with_members_ok [OF U l(2,1)] by (auto simp: wf_channel_info_def names_ok_wf names_ok_def list_all_iff)
  obtain w3 where w3: "dbm_store E w2 DB_CHANNEL_INFO (ch_channel_id c) (encode_channel_info ?c) = (0, w3)"
    "dbs E tab opn (dbm_close E w3 DB_CHANNEL_INFO) (tput t DB_CHANNEL_INFO (ch_channel_id c) (encode_channel_info ?c))"
    using store_channel [OF D o(4-6) W] by auto
  moreover obtain j us' where "blank_members (ch_user_list c) (name_array us) 0 = Inr (j, us')"
    "append_users j us' (ch_user_list c) = Inr (with_members (ch_user_list c) us)"
    using with_members_run [OF U l(2,1)] by blast
  ultimately show ?thesis
    using o c l(3)
    by (intro exI [of _ cs] exI [of _ c] exI [of _ "dbm_close E w3 DB_CHANNEL_INFO"])
      (simp add: add_users_on_channel_def open_db_or_null_def)
qed

section \<open>Parsing\<close>

text \<open>The fields of an update request: the changes of name and publicity, if any, and three pairs of lists of names
  to add and to remove.\<close>

definition setting_fields :: "string option \<Rightarrow> string list" where
  "setting_fields x = (case x of None \<Rightarrow> [''0''] | Some v \<Rightarrow> [''1'', v])"

definition name_fields :: "string list \<Rightarrow> string list" where
  "name_fields us = show_nat (length us) # us"

definition alter_fields :: "string list \<times> string list \<Rightarrow> string list" where
  "alter_fields p = (case p of (add, remove) \<Rightarrow>
     if add = [] \<and> remove = [] then [''0'']
     else if remove = [] then ''1'' # name_fields add
     else if add = [] then ''2'' # name_fields remove
     else ''3'' # name_fields add @ name_fields remove)"

definition alter_digit :: "string list \<times> string list \<Rightarrow> char" where
  "alter_digit p = hd (hd (alter_fields p))"

definition update_fields ::
  "string \<Rightarrow> string option \<Rightarrow> string option \<Rightarrow> string list \<times> string list \<Rightarrow> string list \<times> string list \<Rightarrow> string list \<times> string list \<Rightarrow> string list"
where
  "update_fields ch new publ us ads bans =
     ch # setting_fields new @ setting_fields publ @ alter_fields us @ alter_fields ads @ alter_fields bans"

definition request_pair :: "string list \<times> string list \<Rightarrow> bool" where
  "request_pair p \<longleftrightarrow> request_names (fst p) \<and> request_names (snd p)"

lemma bindX_simps [simp]:
  "bindX (Inl e) f = Inl e" "bindX (Inr (Inl c)) f = Inr (Inl c)" "bindX (Inr (Inr y)) f = f y"
  by (simp_all add: bindX_def)

lemma token_or_400_join [simp]: "field_ok x \<Longrightarrow> token_or_400 (join_fields tr (x # xs)) = Inr (Inr (x, join_fields tr xs))"
  by (simp add: token_or_400_def)

lemma field_ok_show_nat [simp]: "field_ok (show_nat n)"
  by (simp add: field_ok_def)

lemma field_ok_digit [simp]: "field_ok ''0''" "field_ok ''1''" "field_ok ''2''" "field_ok ''3''"
  by (simp_all add: field_ok_def)

lemma strncpy_name [simp]:
  "field_ok u \<Longrightarrow> length u < TOKEN_NAME_LENGTH \<Longrightarrow> strncpy (zeros TOKEN_NAME_LENGTH) (lit u) TOKEN_NAME_LENGTH = Inr (nul_pad TOKEN_NAME_LENGTH u)"
  by (simp add: strncpy_lit field_ok_def)

lemma name_array_snoc:
  assumes "length us < DEFAULT_LIST_SIZE"
  shows "(name_array us)[length us := nul_pad TOKEN_NAME_LENGTH u] = name_array (us @ [u])" "name_array us ! length us = zeros TOKEN_NAME_LENGTH"
proof -
  obtain k where "DEFAULT_LIST_SIZE - length us = Suc k" using assms by (metis Suc_diff_Suc)
  then show "(name_array us)[length us := nul_pad TOKEN_NAME_LENGTH u] = name_array (us @ [u])" "name_array us ! length us = zeros TOKEN_NAME_LENGTH"
    by (simp_all add: name_array_def list_update_append nth_append)
qed

lemma names_loop_spec:
  assumes "request_names (prev @ us)"
  shows "names_loop (length us) (length prev) (name_array prev) (join_fields tr (us @ rest)) = Inr (Inr (name_array (prev @ us), join_fields tr rest))"
  using assms
proof (induction us arbitrary: prev)
  case (Cons u us)
  then have "field_ok u" "length u < TOKEN_NAME_LENGTH" "length prev < DEFAULT_LIST_SIZE" "length (name_array prev) = DEFAULT_LIST_SIZE"
    "request_names ((prev @ [u]) @ us)"
    by (auto simp: request_names_def name_array_def)
  then show ?case using Cons.IH [of "prev @ [u]"] by (simp add: name_array_snoc)
qed simp

lemma int_of_long_small: "0 \<le> v \<Longrightarrow> v < 2147483648 \<Longrightarrow> int_of_long v = v"
  by (simp add: int_of_long_def signed_take_bit_int_eq_self sint_sbintrunc')

lemma parse_names_spec [simp]:
  assumes "request_names us"
  shows "parse_names (join_fields tr (name_fields us @ rest)) = Inr (Inr (name_array us, join_fields tr rest))"
proof -
  have l: "length us \<le> DEFAULT_LIST_SIZE" using assms by (simp add: request_names_def)
  have "name_array [] = replicate DEFAULT_LIST_SIZE (zeros TOKEN_NAME_LENGTH)" by (simp add: name_array_def)
  moreover have "nat (int_of_long (fst (strtol (show_nat (length us))))) = length us"
    using l by (simp add: strtol_show_nat int_of_long_small)
  ultimately show ?thesis
    using names_loop_spec [of "[]" us tr rest] assms by (simp add: parse_names_def name_fields_def)
qed

lemma parse_alter_spec [simp]:
  assumes "request_pair p"
  shows "parse_alter (join_fields tr (alter_fields p @ rest)) = Inr (Inr ((alter_digit p, name_array (fst p), name_array (snd p)), join_fields tr rest))"
proof -
  have [simp]: "replicate DEFAULT_LIST_SIZE (zeros TOKEN_NAME_LENGTH) = name_array []" by (simp add: name_array_def)
  obtain add remove where p: "p = (add, remove)" by (cases p)
  have r: "request_names add" "request_names remove" using assms p by (simp_all add: request_pair_def)
  consider "add = []" "remove = []" | "add \<noteq> []" "remove = []" | "add = []" "remove \<noteq> []" | "add \<noteq> []" "remove \<noteq> []" by blast
  then show ?thesis
    by cases (use p r in \<open>simp_all add: parse_alter_def alter_fields_def alter_digit_def Let_def del: replicate.simps\<close>)
qed

lemma parse_settings_spec:
  assumes "field_ok ch" "length ch < TOKEN_NAME_LENGTH" "\<And>v. new = Some v \<Longrightarrow> field_ok v \<and> length v < TOKEN_NAME_LENGTH"
    "\<And>v. publ = Some v \<Longrightarrow> field_ok v"
  shows "parse_settings (join_fields tr (ch # setting_fields new @ setting_fields publ @ rest)) =
    Inr (Inr ((nul_pad TOKEN_NAME_LENGTH ch, new \<noteq> None, nul_pad TOKEN_NAME_LENGTH (case new of None \<Rightarrow> [] | Some v \<Rightarrow> v),
      publ \<noteq> None, publ = Some ''1''), join_fields tr rest))"
  using assms by (cases new; cases publ) (auto simp: parse_settings_def setting_fields_def Let_def)

section \<open>Checking the names and answering\<close>

definition known_names :: "table_state \<Rightarrow> string list \<Rightarrow> bool" where
  "known_names t us \<longleftrightarrow> list_all (\<lambda>u. name_view t (nul_pad TOKEN_NAME_LENGTH u) \<noteq> None) us"

lemma names_exist_spec:
  assumes "dbs E tab opn w t" "names_ok xs"
  shows "\<exists>w'. names_exist E w xs = Inr (list_all (\<lambda>x. name_view t x \<noteq> None) (members xs), w') \<and> dbs E tab opn w' t"
  using assms
proof (induction xs arbitrary: w)
  case (Cons x xs)
  have x: "length x = TOKEN_NAME_LENGTH" "names_ok xs" "x \<noteq> []" using Cons.prems(2) by auto
  obtain w1 where w1: "check_duplicate_display_name E w x = Inr (name_view t x \<noteq> None, w1)" "dbs E tab opn w1 t"
    using dbs_check_name [OF Cons.prems(1) x(1)] by blast
  from Cons.IH [OF w1(2) x(2)] obtain w2 where
    "names_exist E w1 xs = Inr (list_all (\<lambda>x. name_view t x \<noteq> None) (members xs), w2)" "dbs E tab opn w2 t" by blast
  with w1 x Cons.prems show ?case by (cases "name_view t x") auto
qed auto

lemma all_names_exist_spec:
  assumes "dbs E tab opn w t" "list_all request_names uss"
  shows "\<exists>w'. all_names_exist E w (map name_array uss) = Inr (known_names t (concat uss), w') \<and> dbs E tab opn w' t"
  using assms
proof (induction uss arbitrary: w)
  case (Cons us uss)
  have u: "request_names us" "list_all request_names uss" using Cons.prems(2) by simp_all
  obtain w1 where w1: "names_exist E w (name_array us) = Inr (known_names t us, w1)" "dbs E tab opn w1 t"
    using names_exist_spec [OF Cons.prems(1) name_array_ok(1) [OF u(1)]] name_array_ok(2) [OF u(1)]
    by (auto simp: known_names_def list.pred_map comp_def)
  from Cons.IH [OF w1(2) u(2)] obtain w2 where
    "all_names_exist E w1 (map name_array uss) = Inr (known_names t (concat uss), w2)" "dbs E tab opn w2 t" by blast
  with w1 show ?case by (cases "known_names t us") (auto simp: known_names_def)
qed (auto simp: known_names_def)

definition channel_text :: "channel_info \<Rightarrow> string" where
  "channel_text c = head_text c @ list_text (ch_user_list c) (ch_user_list c) @
     list_text (ch_admin_list c) (ch_admin_list c) @ list_text (ch_banned_list c) (ch_banned_list c)"

text \<open>The answer describes a channel of the tables with the name that is asked for; without one it is 500.\<close>

definition answer_for :: "table_state \<Rightarrow> string \<Rightarrow> int \<Rightarrow> bytes \<Rightarrow> bool" where
  "answer_for t q r out \<longleftrightarrow>
     (if has_channel t q
      then r = 0 \<and> terminated out \<and> (\<exists>cs c. table_channels t cs \<and> find_channel (nul_pad TOKEN_NAME_LENGTH q) cs = Some c \<and>
        cstr out = channel_text c)
      else r = 500)"

lemma update_answer_spec:
  assumes D: "dbs E tab opn w t" and T: "channels_terminated t"
    and F: "NUL \<notin> set ch" "length ch < TOKEN_NAME_LENGTH" "NUL \<notin> set new" "length new < TOKEN_NAME_LENGTH"
  shows "\<exists>r out w'. update_answer E w out0 (nul_pad TOKEN_NAME_LENGTH ch) b (nul_pad TOKEN_NAME_LENGTH new) = Inr ((r, out), w') \<and>
    dbs E tab opn w' t \<and> (terminated out0 \<longrightarrow> terminated out) \<and> answer_for t (if b then new else ch) r out"
proof -
  let ?q = "if b then new else ch"
  have q: "(if b then Inr (nul_pad TOKEN_NAME_LENGTH new)
      else strncpy (nul_pad TOKEN_NAME_LENGTH new) (nul_pad TOKEN_NAME_LENGTH ch) TOKEN_NAME_LENGTH) = Inr (nul_pad TOKEN_NAME_LENGTH ?q)"
    "terminated (nul_pad TOKEN_NAME_LENGTH ?q)" "cstr (nul_pad TOKEN_NAME_LENGTH ?q) = ?q"
    using F by simp_all
  from dbs_get_channel [OF D q(2)] obtain w1 cs where
    w1: "get_channel_info_malloc_or_null E w (nul_pad TOKEN_NAME_LENGTH ?q) = Inr (find_channel (nul_pad TOKEN_NAME_LENGTH ?q) cs, w1)"
      "dbs E tab opn w1 t" "table_channels t cs" by blast
  have h: "find_channel (nul_pad TOKEN_NAME_LENGTH ?q) cs \<noteq> None \<longleftrightarrow> has_channel t ?q"
    using find_channel_has [OF w1(3)] q(3) by simp
  show ?thesis
  proof (cases "find_channel (nul_pad TOKEN_NAME_LENGTH ?q) cs")
    case None
    then show ?thesis using w1 h unfolding update_answer_def q(1) answer_for_def by auto
  next
    case (Some c)
    then have c: "c \<in> set cs" by (auto simp: find_channel_def find_Some_iff)
    have W: "wf_channel_info c" "channel_strings c" "names_ok (ch_banned_list c)" "length (ch_banned_list c) = 64"
      using table_channels_wf(1) [OF dbsD(4) [OF D] w1(3) c] channels_terminatedD [OF T w1(3) c]
      by (auto simp: wf_channel_info_def wf_names_def channel_strings_def)
    from read_sections_spec [OF W, of True True True "\<lambda>out. Inr ((0 :: int, out), w1)"] obtain out where
      "bindR (channel_head c) (\<lambda>out. bindR (list_section out (ch_user_list c) (ch_user_list c)) (\<lambda>out.
        bindR (list_section out (ch_admin_list c) (ch_admin_list c)) (\<lambda>out.
        bindR (list_section out (ch_banned_list c) (ch_banned_list c)) (\<lambda>out. Inr ((0 :: int, out), w1))))) = Inr ((0, out), w1)"
      "terminated out" "cstr out = channel_text c"
      by (auto simp: section_text_def channel_text_def)
    then have "update_answer E w out0 (nul_pad TOKEN_NAME_LENGTH ch) b (nul_pad TOKEN_NAME_LENGTH new) = Inr ((0, out), w1)"
      "terminated out" "answer_for t ?q 0 out"
      using Some w1(1,3) h unfolding update_answer_def q(1) answer_for_def by auto
    with w1(2) show ?thesis by blast
  qed
qed

lemma channels_terminated_tput:
  assumes "channels_terminated t" "channel_strings c" "wf_channel_info c"
  shows "channels_terminated (tput t DB_CHANNEL_INFO k (encode_channel_info c))"
  using assms by (auto simp: channels_terminated_def tput_def content_def)

lemma has_channel_tput:
  "wf_channel_info c \<Longrightarrow> has_channel (tput t DB_CHANNEL_INFO k (encode_channel_info c)) q \<longleftrightarrow> cstr (ch_channel_name c) = q \<or>
    (\<exists>k' v. k' \<noteq> k \<and> content t DB_CHANNEL_INFO k' = Some v \<and> cstr (ch_channel_name (projr (decode_channel_info v))) = q)"
  by (auto simp: has_channel_def tput_def content_def)

section \<open>The handler on a whole request\<close>

definition fits :: "string option \<Rightarrow> bool" where
  "fits x \<longleftrightarrow> (case x of None \<Rightarrow> True | Some v \<Rightarrow> length v < TOKEN_NAME_LENGTH)"

lemma parse_update_spec:
  assumes "list_all field_ok (update_fields ch new publ us ads bans)" "length ch < TOKEN_NAME_LENGTH" "fits new"
    "request_pair us" "request_pair ads" "request_pair bans"
  shows "parse_update (join_fields tr (update_fields ch new publ us ads bans)) =
    Inr (Inr ((nul_pad TOKEN_NAME_LENGTH ch, new \<noteq> None, nul_pad TOKEN_NAME_LENGTH (case new of None \<Rightarrow> [] | Some v \<Rightarrow> v),
        publ \<noteq> None, publ = Some ''1''),
      (alter_digit us, name_array (fst us), name_array (snd us)),
      (alter_digit ads, name_array (fst ads), name_array (snd ads)),
      (alter_digit bans, name_array (fst bans), name_array (snd bans))))"
proof -
  have s: "parse_settings (join_fields tr (update_fields ch new publ us ads bans)) =
    Inr (Inr ((nul_pad TOKEN_NAME_LENGTH ch, new \<noteq> None, nul_pad TOKEN_NAME_LENGTH (case new of None \<Rightarrow> [] | Some v \<Rightarrow> v),
      publ \<noteq> None, publ = Some ''1''), join_fields tr (alter_fields us @ alter_fields ads @ alter_fields bans)))"
    unfolding update_fields_def
    by (rule parse_settings_spec) (use assms(1-3) in \<open>auto simp: update_fields_def setting_fields_def fits_def\<close>)
  have "parse_alter (join_fields tr (alter_fields bans)) =
      Inr (Inr ((alter_digit bans, name_array (fst bans), name_array (snd bans)), join_fields tr []))"
    using parse_alter_spec [OF assms(6), of tr "[]"] by simp
  with s assms(4,5) show ?thesis
    by (simp add: parse_update_def parse_alter_users_def parse_alter_admins_def parse_alter_banned_def)
qed

definition all_names :: "string list \<times> string list \<Rightarrow> string list \<times> string list \<Rightarrow> string list \<times> string list \<Rightarrow> string list" where
  "all_names us ads bans = concat [fst us, snd us, fst ads, snd ads, fst bans, snd bans]"

lemma update_run:
  assumes D: "dbs E tab opn (world s) t" and B: "body_at s fd n tr (update_fields ch new publ us ads bans)"
    and L: "length ch < TOKEN_NAME_LENGTH" "fits new" and N: "request_pair us" "request_pair ads" "request_pair bans"
  shows "\<exists>w1 w2. dbs E tab opn w1 t \<and> dbs E tab opn w2 t \<and>
    read_and_update_channel E s fd out0 n =
      (if \<not> has_channel t ch then Inr ((404, out0), (consume s fd (unat n))\<lparr>world := w1\<rparr>)
       else if \<not> known_names t (all_names us ads bans) then Inr ((404, out0), (consume s fd (unat n))\<lparr>world := w2\<rparr>)
       else bindR (apply_update E w2 (nul_pad TOKEN_NAME_LENGTH ch) (new \<noteq> None)
           (nul_pad TOKEN_NAME_LENGTH (case new of None \<Rightarrow> [] | Some v \<Rightarrow> v)) (publ \<noteq> None) (publ = Some ''1'')
           (alter_digit us) (name_array (fst us))) (\<lambda>(ok, w).
         if \<not> ok then Inr ((500, out0), (consume s fd (unat n))\<lparr>world := w\<rparr>)
         else bindR (update_answer E w out0 (nul_pad TOKEN_NAME_LENGTH ch) (new \<noteq> None)
             (nul_pad TOKEN_NAME_LENGTH (case new of None \<Rightarrow> [] | Some v \<Rightarrow> v))) (\<lambda>(r, w).
           Inr (r, (consume s fd (unat n))\<lparr>world := w\<rparr>))))"
proof -
  have F: "list_all field_ok (update_fields ch new publ us ads bans)" using B by (simp add: body_at_def)
  then have ch: "NUL \<notin> set ch" by (simp add: update_fields_def field_ok_def)
  note p = parse_update_spec [OF F L N]
  have t: "terminated (nul_pad TOKEN_NAME_LENGTH ch)" using ch L by simp
  from dbs_get_channel [OF D t] obtain w1 cs where
    w1: "get_channel_info_malloc_or_null E (world s) (nul_pad TOKEN_NAME_LENGTH ch) = Inr (find_channel (nul_pad TOKEN_NAME_LENGTH ch) cs, w1)"
      "dbs E tab opn w1 t" "table_channels t cs" by blast
  have h: "find_channel (nul_pad TOKEN_NAME_LENGTH ch) cs = None \<longleftrightarrow> \<not> has_channel t ch"
    using find_channel_has [OF w1(3), of "nul_pad TOKEN_NAME_LENGTH ch"] ch by auto
  have "list_all request_names [fst us, snd us, fst ads, snd ads, fst bans, snd bans]" using N by (simp add: request_pair_def)
  from all_names_exist_spec [OF w1(2) this] obtain w2 where
    w2: "all_names_exist E w1 [name_array (fst us), name_array (snd us), name_array (fst ads), name_array (snd ads),
        name_array (fst bans), name_array (snd bans)] = Inr (known_names t (all_names us ads bans), w2)" "dbs E tab opn w2 t"
    by (auto simp: all_names_def)
  show ?thesis
    by (rule exI [of _ w1], rule exI [of _ w2])
      (use w1(1,2) w2 B p h in \<open>simp add: read_and_update_channel_def del: not_None_eq all_names_exist.simps\<close>)
qed

definition with_settings :: "channel_info \<Rightarrow> string option \<Rightarrow> string option \<Rightarrow> channel_info" where
  "with_settings c new publ = c\<lparr>ch_channel_name := nul_pad TOKEN_NAME_LENGTH (case new of None \<Rightarrow> [] | Some v \<Rightarrow> v),
     ch_publicity := (publ = Some ''1'')\<rparr>"

lemma with_settings_ok:
  assumes "wf_channel_info c" "channel_strings c" "\<And>v. new = Some v \<Longrightarrow> NUL \<notin> set v" "fits new"
  shows "wf_channel_info (with_settings c new publ)" "channel_strings (with_settings c new publ)"
    "cstr (ch_channel_name (with_settings c new publ)) = (case new of None \<Rightarrow> [] | Some v \<Rightarrow> v)"
  using assms by (auto simp: with_settings_def wf_channel_info_def channel_strings_def fits_def split: option.splits)

lemma apply_settings_spec:
  assumes D: "dbs E tab opn w t" and R: "reopen_law E tab opn" and T: "channels_terminated t"
    and F: "NUL \<notin> set ch" "length ch < TOKEN_NAME_LENGTH" "\<And>v. new = Some v \<Longrightarrow> NUL \<notin> set v" "fits new"
    and H: "has_channel t ch" and C: "new \<noteq> None \<or> publ \<noteq> None"
  shows "\<exists>cs c w'. table_channels t cs \<and> find_channel (nul_pad TOKEN_NAME_LENGTH ch) cs = Some c \<and> c \<in> set cs \<and>
    apply_update E w (nul_pad TOKEN_NAME_LENGTH ch) (new \<noteq> None) (nul_pad TOKEN_NAME_LENGTH (case new of None \<Rightarrow> [] | Some v \<Rightarrow> v))
      (publ \<noteq> None) (publ = Some ''1'') (alter_digit ([], [])) add = Inr (True, w') \<and>
    dbs E tab opn w' (tput t DB_CHANNEL_INFO (ch_channel_id c) (encode_channel_info (with_settings c new publ)))"
proof -
  let ?new = "case new of None \<Rightarrow> [] | Some v \<Rightarrow> v"
  have n: "NUL \<notin> set ?new" "length ?new < TOKEN_NAME_LENGTH" "terminated (nul_pad TOKEN_NAME_LENGTH ch)"
    using F by (auto simp: fits_def split: option.splits)
  from update_channel_spec [OF D R n(3,1,2), of "publ = Some ''1''"]
  obtain cs w' where u: "table_channels t cs"
    "case find_channel (nul_pad TOKEN_NAME_LENGTH ch) cs of None \<Rightarrow> True | Some c \<Rightarrow>
      update_channel_name_and_publicity E w (nul_pad TOKEN_NAME_LENGTH ch) (nul_pad TOKEN_NAME_LENGTH ?new) (publ = Some ''1'') = Inr (0, w') \<and>
      dbs E tab opn w' (tput t DB_CHANNEL_INFO (ch_channel_id c) (encode_channel_info (with_settings c new publ)))"
    unfolding with_settings_def by (auto split: option.splits)
  obtain c where c: "find_channel (nul_pad TOKEN_NAME_LENGTH ch) cs = Some c"
    using find_channel_has [OF u(1), of "nul_pad TOKEN_NAME_LENGTH ch"] H F by auto
  moreover from this have "c \<in> set cs" by (auto simp: find_channel_def find_Some_iff)
  ultimately show ?thesis
    using u C by (intro exI [of _ cs] exI [of _ c] exI [of _ w']) (auto simp: apply_update_def alter_digit_def alter_fields_def)
qed

lemma update_settings_run:
  assumes D: "dbs E tab opn (world s) t" and R: "reopen_law E tab opn" and T: "channels_terminated t"
    and B: "body_at s fd n tr (update_fields ch new publ ([], []) ads bans)"
    and L: "length ch < TOKEN_NAME_LENGTH" "fits new" and N: "request_pair ads" "request_pair bans"
    and C: "new \<noteq> None \<or> publ \<noteq> None"
  shows "\<exists>r out s' t'. read_and_update_channel E s fd out0 n = Inr ((r, out), s') \<and> dbs E tab opn (world s') t' \<and>
    cache s' = cache s \<and> sent s' = sent s \<and> closed s' = closed s \<and> (terminated out0 \<longrightarrow> terminated out) \<and>
    (if \<not> has_channel t ch \<or> \<not> known_names t (all_names ([], []) ads bans) then r = 404 \<and> t' = t
     else \<exists>cs c. table_channels t cs \<and> find_channel (nul_pad TOKEN_NAME_LENGTH ch) cs = Some c \<and>
       t' = tput t DB_CHANNEL_INFO (ch_channel_id c) (encode_channel_info (with_settings c new publ)) \<and>
       answer_for t' (case new of None \<Rightarrow> ch | Some v \<Rightarrow> v) r out)"
proof -
  let ?s = "consume s fd (unat n)" and ?new = "case new of None \<Rightarrow> [] | Some v \<Rightarrow> v"
  have e: "request_pair ([], [])" by (simp add: request_pair_def request_names_def)
  have f: "NUL \<notin> set ch" "\<And>v. new = Some v \<Longrightarrow> NUL \<notin> set v" "NUL \<notin> set ?new" "length ?new < TOKEN_NAME_LENGTH"
    using B L by (auto simp: body_at_def update_fields_def setting_fields_def field_ok_def fits_def split: option.splits)
  from update_run [OF D B L e N, of out0] obtain w1 w2 where w: "dbs E tab opn w1 t" "dbs E tab opn w2 t"
    and run: "read_and_update_channel E s fd out0 n =
      (if \<not> has_channel t ch then Inr ((404, out0), ?s\<lparr>world := w1\<rparr>)
       else if \<not> known_names t (all_names ([], []) ads bans) then Inr ((404, out0), ?s\<lparr>world := w2\<rparr>)
       else bindR (apply_update E w2 (nul_pad TOKEN_NAME_LENGTH ch) (new \<noteq> None) (nul_pad TOKEN_NAME_LENGTH ?new)
           (publ \<noteq> None) (publ = Some ''1'') (alter_digit ([], [])) (name_array [])) (\<lambda>(ok, w).
         if \<not> ok then Inr ((500, out0), ?s\<lparr>world := w\<rparr>)
         else bindR (update_answer E w out0 (nul_pad TOKEN_NAME_LENGTH ch) (new \<noteq> None) (nul_pad TOKEN_NAME_LENGTH ?new)) (\<lambda>(r, w).
           Inr (r, ?s\<lparr>world := w\<rparr>))))"
    by (auto simp del: not_None_eq)
  show ?thesis
  proof (cases "has_channel t ch \<and> known_names t (all_names ([], []) ads bans)")
    case False
    then show ?thesis using run w by (cases "has_channel t ch") auto
  next
    case True
    from apply_settings_spec [OF w(2) R T f(1) L(1) f(2) L(2) _ C, of "name_array []"] True obtain cs c w3 where
      a: "table_channels t cs" "find_channel (nul_pad TOKEN_NAME_LENGTH ch) cs = Some c" "c \<in> set cs"
      "apply_update E w2 (nul_pad TOKEN_NAME_LENGTH ch) (new \<noteq> None) (nul_pad TOKEN_NAME_LENGTH ?new)
           (publ \<noteq> None) (publ = Some ''1'') (alter_digit ([], [])) (name_array []) = Inr (True, w3)"
      "dbs E tab opn w3 (tput t DB_CHANNEL_INFO (ch_channel_id c) (encode_channel_info (with_settings c new publ)))"
      by blast
    have k: "wf_channel_info (with_settings c new publ)" "channel_strings (with_settings c new publ)"
      using with_settings_ok [OF table_channels_wf(1) [OF dbsD(4) [OF D] a(1,3)] channels_terminatedD [OF T a(1,3)] f(2) L(2)] by blast+
    from update_answer_spec [OF a(5) channels_terminated_tput [OF T k(2,1)] f(1) L(1) f(3,4), of out0 "new \<noteq> None"]
    obtain r out w4 where "update_answer E w3 out0 (nul_pad TOKEN_NAME_LENGTH ch) (new \<noteq> None) (nul_pad TOKEN_NAME_LENGTH ?new) = Inr ((r, out), w4)"
      "dbs E tab opn w4 (tput t DB_CHANNEL_INFO (ch_channel_id c) (encode_channel_info (with_settings c new publ)))"
      "terminated out0 \<longrightarrow> terminated out" "answer_for (tput t DB_CHANNEL_INFO (ch_channel_id c) (encode_channel_info (with_settings c new publ)))
         (if new \<noteq> None then ?new else ch) r out" by blast
    moreover have "(if new \<noteq> None then ?new else ch) = (case new of None \<Rightarrow> ch | Some v \<Rightarrow> v)" by (cases new) simp_all
    ultimately show ?thesis
      using True run a by (intro exI [of _ r] exI [of _ out] exI [of _ "?s\<lparr>world := w4\<rparr>"]) (auto simp del: not_None_eq)
  qed
qed

lemma apply_users_spec:
  assumes D: "dbs E tab opn w t" and R: "reopen_law E tab opn" and T: "channels_terminated t"
    and F: "NUL \<notin> set ch" "length ch < TOKEN_NAME_LENGTH" and U: "request_pair us" "us \<noteq> ([], [])" and H: "has_channel t ch"
  shows "\<exists>cs c w'. table_channels t cs \<and> find_channel (nul_pad TOKEN_NAME_LENGTH ch) cs = Some c \<and> c \<in> set cs \<and>
    apply_update E w (nul_pad TOKEN_NAME_LENGTH ch) False new False publ (alter_digit us) (name_array (fst us)) = Inr (True, w') \<and>
    dbs E tab opn w' (tput t DB_CHANNEL_INFO (ch_channel_id c)
      (encode_channel_info (c\<lparr>ch_user_list := with_members (ch_user_list c) (fst us)\<rparr>)))"
proof -
  have n: "terminated (nul_pad TOKEN_NAME_LENGTH ch)" "has_channel t (cstr (nul_pad TOKEN_NAME_LENGTH ch))" "request_names (fst us)"
    using F H U by (simp_all add: request_pair_def)
  from add_users_spec [OF D R n(1,3) T n(2)] obtain cs c w' where a: "table_channels t cs"
    "find_channel (nul_pad TOKEN_NAME_LENGTH ch) cs = Some c"
    "add_users_on_channel E w (nul_pad TOKEN_NAME_LENGTH ch) (name_array (fst us)) = Inr (0, w')"
    "dbs E tab opn w' (tput t DB_CHANNEL_INFO (ch_channel_id c)
      (encode_channel_info (c\<lparr>ch_user_list := with_members (ch_user_list c) (fst us)\<rparr>)))" by blast
  have "alter_digit us \<noteq> CHR ''0''" using U(2) by (cases us) (auto simp: alter_digit_def alter_fields_def)
  moreover from a(2) have "c \<in> set cs" by (auto simp: find_channel_def find_Some_iff)
  ultimately show ?thesis using a by (intro exI [of _ cs] exI [of _ c] exI [of _ w']) (simp add: apply_update_def)
qed

lemma with_members_channel:
  assumes "wf_channel_info c" "channel_strings c" "request_names us"
  shows "wf_channel_info (c\<lparr>ch_user_list := with_members (ch_user_list c) us\<rparr>)"
    "channel_strings (c\<lparr>ch_user_list := with_members (ch_user_list c) us\<rparr>)"
proof -
  have "names_ok (ch_user_list c)" "length (ch_user_list c) = DEFAULT_LIST_SIZE"
    using assms(1,2) by (simp_all add: wf_channel_info_def wf_names_def channel_strings_def)
  from with_members_ok [OF assms(3) this] assms(1,2)
  show "wf_channel_info (c\<lparr>ch_user_list := with_members (ch_user_list c) us\<rparr>)"
    "channel_strings (c\<lparr>ch_user_list := with_members (ch_user_list c) us\<rparr>)"
    by (auto simp: wf_channel_info_def wf_names_def channel_strings_def names_ok_def list_all_iff)
qed

section \<open>Properties\<close>

text \<open>C17: the request of an update is parsed back to what it says: for every combination of new name, new publicity
  and lists of at most 64 names to add and to remove, the parser returns the channel, the flags, the new values, the
  three digits and the six arrays of names.\<close>

theorem parse_update_roundtrip:
  assumes "list_all field_ok (update_fields ch new publ us ads bans)" "length ch < TOKEN_NAME_LENGTH" "fits new"
    "request_pair us" "request_pair ads" "request_pair bans"
  shows "parse_update (join_fields tr (update_fields ch new publ us ads bans)) =
    Inr (Inr ((nul_pad TOKEN_NAME_LENGTH ch, new \<noteq> None, nul_pad TOKEN_NAME_LENGTH (case new of None \<Rightarrow> [] | Some v \<Rightarrow> v),
        publ \<noteq> None, publ = Some ''1''),
      (alter_digit us, name_array (fst us), name_array (snd us)),
      (alter_digit ads, name_array (fst ads), name_array (snd ads)),
      (alter_digit bans, name_array (fst bans), name_array (snd bans))))"
  by (rule parse_update_spec [OF assms])

theorem parse_update_roundtrip_witness:
  "parse_update (join_fields False [''global'', ''0'', ''1'', ''1'', ''3'', ''1'', ''amy'', ''2'', ''bob'', ''cy'', ''0'', ''0'']) =
    Inr (Inr ((nul_pad 21 ''global'', False, zeros 21, True, True), (CHR ''3'', name_array [''amy''], name_array [''bob'', ''cy'']),
      (CHR ''0'', name_array [], name_array []), (CHR ''0'', name_array [], name_array [])))"
proof -
  have "show_nat 1 = ''1''" "show_nat 2 = ''2''" "show_nat (Suc 0) = ''1''" "show_nat (Suc (Suc 0)) = ''2''"
    by (simp_all add: show_nat.simps digit_chr_def)
  then show ?thesis
    using parse_update_roundtrip [of "''global''" None "Some ''1''" "([''amy''], [''bob'', ''cy''])" "([], [])" "([], [])"]
    by (simp add: update_fields_def setting_fields_def alter_fields_def name_fields_def alter_digit_def request_pair_def
        request_names_def fits_def field_ok_def)
qed

text \<open>C18: changing the name or the publicity. The request answers 404 and changes nothing if the channel or one of
  the listed names does not exist. Otherwise the record of the channel is stored under its id with the new name (the
  empty name if the request has none) and the new publicity (private if the request has none); lists of
  administrators and banned users are checked and then ignored. The answer describes the channel found under the new
  name, or is 500 if there is none.\<close>

theorem update_settings_correct:
  assumes "dbs E tab opn (world s) t" and "reopen_law E tab opn" and "channels_terminated t"
    and "body_at s fd n tr (update_fields ch new publ ([], []) ads bans)"
    and "length ch < TOKEN_NAME_LENGTH" "fits new" and "request_pair ads" "request_pair bans"
    and "new \<noteq> None \<or> publ \<noteq> None"
  shows "\<exists>r out s' t'. read_and_update_channel E s fd out0 n = Inr ((r, out), s') \<and> dbs E tab opn (world s') t' \<and>
    cache s' = cache s \<and> sent s' = sent s \<and> closed s' = closed s \<and> (terminated out0 \<longrightarrow> terminated out) \<and>
    (if \<not> has_channel t ch \<or> \<not> known_names t (all_names ([], []) ads bans) then r = 404 \<and> t' = t
     else \<exists>cs c. table_channels t cs \<and> find_channel (nul_pad TOKEN_NAME_LENGTH ch) cs = Some c \<and>
       t' = tput t DB_CHANNEL_INFO (ch_channel_id c) (encode_channel_info (with_settings c new publ)) \<and>
       answer_for t' (case new of None \<Rightarrow> ch | Some v \<Rightarrow> v) r out)"
  by (rule update_settings_run [OF assms])

lemma demo_terminated [simp]: "channels_terminated demo_tables"
  by (auto simp: channels_terminated_def demo_content)

lemma no_names [simp]: "request_pair ([], [])" "known_names t (all_names ([], []) ([], []) ([], []))"
  by (simp_all add: request_pair_def request_names_def known_names_def all_names_def)

theorem update_settings_correct_witness:
  "\<exists>out s'. read_and_update_channel mem_env (demo_state (join_fields False [''global'', ''1'', ''lobby'', ''1'', ''1'', ''0'', ''0'', ''0''])) 5
      (zeros 8192) 24 = Inr ((0, out), s') \<and> has_channel (mem_tab (world s')) ''lobby''"
proof -
  let ?b = "[''global'', ''1'', ''lobby'', ''1'', ''1'', ''0'', ''0'', ''0'']"
  have f: "update_fields ''global'' (Some ''lobby'') (Some ''1'') ([], []) ([], []) ([], []) = ?b"
    by (simp add: update_fields_def setting_fields_def alter_fields_def)
  have b: "body_at (demo_state (join_fields False ?b)) 5 24 False (update_fields ''global'' (Some ''lobby'') (Some ''1'') ([], []) ([], []) ([], []))"
    unfolding f by (simp add: body_at_def field_ok_def join_fields.simps)
  have h: "has_channel (tput t DB_CHANNEL_INFO k (encode_channel_info (with_settings demo_channel (Some ''lobby'') p))) ''lobby''" for t k p
    using has_channel_tput [OF with_settings_ok(1), of demo_channel "Some ''lobby''" t k p "''lobby''"]
      with_settings_ok(3) [of demo_channel "Some ''lobby''" p] by (simp add: fits_def)
  from update_settings_correct [OF _ mem_env_reopen demo_terminated b, of "zeros 8192"]
  obtain r out s' t' cs c where r: "read_and_update_channel mem_env (demo_state (join_fields False ?b)) 5 (zeros 8192) 24 = Inr ((r, out), s')"
    "dbs mem_env mem_tab mw_open (world s') t'" "table_channels demo_tables cs" "find_channel (nul_pad 21 ''global'') cs = Some c"
    "t' = tput demo_tables DB_CHANNEL_INFO (ch_channel_id c) (encode_channel_info (with_settings c (Some ''lobby'') (Some ''1'')))"
    "answer_for t' ''lobby'' r out"
    by (auto simp: fits_def)
  have "c = demo_channel" using r(4) demo_channel_only [OF r(3)] by (auto simp: find_channel_def split: if_splits)
  then have "has_channel t' ''lobby''" using h r(5) by simp
  with r(1,6) dbsD(3) [OF r(2)] show ?thesis by (auto simp: answer_for_def)
qed

text \<open>At most one channel has the name.\<close>

definition only_channel :: "table_state \<Rightarrow> string \<Rightarrow> bool" where
  "only_channel t ch \<longleftrightarrow> (\<forall>k v k' v'. content t DB_CHANNEL_INFO k = Some v \<longrightarrow> content t DB_CHANNEL_INFO k' = Some v' \<longrightarrow>
     cstr (ch_channel_name (projr (decode_channel_info v))) = ch \<longrightarrow>
     cstr (ch_channel_name (projr (decode_channel_info v'))) = ch \<longrightarrow> k = k')"

text \<open>A request that changes only the publicity of a channel loses the channel's name: the empty array of the
  new name is stored over it, after which the channel is not found under its name any more and the answer is 500.\<close>

lemma publicity_update_loses_name:
  assumes "dbs E tab opn (world s) t" and "reopen_law E tab opn" and "channels_terminated t"
    and "body_at s fd n tr (update_fields ch None (Some p) ([], []) ([], []) ([], []))"
    and "length ch < TOKEN_NAME_LENGTH" and "has_channel t ch" and "only_channel t ch"
  shows "\<exists>out s' t'. read_and_update_channel E s fd out0 n = Inr ((500, out), s') \<and> dbs E tab opn (world s') t' \<and>
    \<not> has_channel t' ch \<and> has_channel t' []"
proof -
  from assms(6) update_settings_run [OF assms(1-5), of out0] obtain r out s' t' cs c where
    r: "read_and_update_channel E s fd out0 n = Inr ((r, out), s')" "dbs E tab opn (world s') t'" "table_channels t cs"
      "find_channel (nul_pad TOKEN_NAME_LENGTH ch) cs = Some c"
      "t' = tput t DB_CHANNEL_INFO (ch_channel_id c) (encode_channel_info (with_settings c None (Some p)))"
      "answer_for t' ch r out"
    by (auto simp: fits_def)
  have ch: "ch \<noteq> []" "NUL \<notin> set ch" using assms(4) by (simp_all add: body_at_def update_fields_def field_ok_def)
  have c: "c \<in> set cs" "cstr (ch_channel_name c) = ch"
    using r(4) ch by (auto simp: find_channel_def find_Some_iff chan_named_def)
  note w = table_channels_wf [OF dbsD(4) [OF assms(1)] r(3) c(1)]
  have s: "channel_strings c" by (rule channels_terminatedD [OF assms(3) r(3) c(1)])
  have k: "wf_channel_info (with_settings c None (Some p))" "cstr (ch_channel_name (with_settings c None (Some p))) = []"
    using with_settings_ok [OF w(1) s, of None "Some p"] by (simp_all add: fits_def)
  have "k = ch_channel_id c" if "content t DB_CHANNEL_INFO k = Some v" "cstr (ch_channel_name (projr (decode_channel_info v))) = ch" for k v
    using assms(7) that w c(2) unfolding only_channel_def by (metis decode_encode_channel_info sum.sel(2))
  then have "\<not> has_channel t' ch" "has_channel t' []"
    using ch(1) by (auto simp: r(5) has_channel_tput [OF k(1)] k(2))
  with r(1,2,6) show ?thesis by (auto simp: answer_for_def)
qed

lemma publicity_update_loses_name_witness:
  "\<exists>out s'. read_and_update_channel mem_env (demo_state (join_fields False [''global'', ''0'', ''1'', ''0'', ''0'', ''0'', ''0''])) 5
      (zeros 8192) 18 = Inr ((500, out), s') \<and> \<not> has_channel (mem_tab (world s')) ''global''"
proof -
  let ?b = "[''global'', ''0'', ''1'', ''0'', ''0'', ''0'', ''0'']"
  have f: "update_fields ''global'' None (Some ''0'') ([], []) ([], []) ([], []) = ?b"
    by (simp add: update_fields_def setting_fields_def alter_fields_def)
  have b: "body_at (demo_state (join_fields False ?b)) 5 18 False (update_fields ''global'' None (Some ''0'') ([], []) ([], []) ([], []))"
    unfolding f by (simp add: body_at_def field_ok_def join_fields.simps)
  have o: "only_channel demo_tables ''global''" by (auto simp: only_channel_def demo_content split: if_splits)
  show ?thesis
    using publicity_update_loses_name [OF _ mem_env_reopen demo_terminated b _ _ o, of "zeros 8192"] dbsD(3) by fastforce
qed

lemma update_users_spec:
  assumes "dbs E tab opn (world s) t" and "reopen_law E tab opn" and "channels_terminated t"
    and "body_at s fd n tr (update_fields ch None None us ads bans)" and "length ch < TOKEN_NAME_LENGTH"
    and "request_pair us" "request_pair ads" "request_pair bans" and "us \<noteq> ([], [])"
  shows "\<exists>r out s' t'. read_and_update_channel E s fd out0 n = Inr ((r, out), s') \<and> dbs E tab opn (world s') t' \<and>
    cache s' = cache s \<and> sent s' = sent s \<and> closed s' = closed s \<and> (terminated out0 \<longrightarrow> terminated out) \<and>
    (if \<not> has_channel t ch \<or> \<not> known_names t (all_names us ads bans) then r = 404 \<and> t' = t
     else r = 0 \<and> answer_for t' ch r out \<and> (\<exists>cs c. table_channels t cs \<and> find_channel (nul_pad TOKEN_NAME_LENGTH ch) cs = Some c \<and>
       t' = tput t DB_CHANNEL_INFO (ch_channel_id c)
         (encode_channel_info (c\<lparr>ch_user_list := with_members (ch_user_list c) (fst us)\<rparr>))))"
proof -
  let ?s = "consume s fd (unat n)"
  have ch: "NUL \<notin> set ch" using assms(4) by (simp add: body_at_def update_fields_def field_ok_def)
  have fits: "fits None" by (simp add: fits_def)
  have none: "(None \<noteq> (None :: string option)) = False" "(None = Some v) = False" "(case None of None \<Rightarrow> [] | Some v \<Rightarrow> v) = []" for v :: string
    by simp_all
  from update_run [OF assms(1,4,5) fits assms(6-8), of out0, unfolded none] obtain w1 w2 where w: "dbs E tab opn w1 t" "dbs E tab opn w2 t"
    and run: "read_and_update_channel E s fd out0 n =
      (if \<not> has_channel t ch then Inr ((404, out0), ?s\<lparr>world := w1\<rparr>)
       else if \<not> known_names t (all_names us ads bans) then Inr ((404, out0), ?s\<lparr>world := w2\<rparr>)
       else bindR (apply_update E w2 (nul_pad TOKEN_NAME_LENGTH ch) False (nul_pad TOKEN_NAME_LENGTH []) False False
           (alter_digit us) (name_array (fst us))) (\<lambda>(ok, w).
         if \<not> ok then Inr ((500, out0), ?s\<lparr>world := w\<rparr>)
         else bindR (update_answer E w out0 (nul_pad TOKEN_NAME_LENGTH ch) False (nul_pad TOKEN_NAME_LENGTH [])) (\<lambda>(r, w).
           Inr (r, ?s\<lparr>world := w\<rparr>))))"
    by blast
  show ?thesis
  proof (cases "has_channel t ch \<and> known_names t (all_names us ads bans)")
    case False
    then show ?thesis using run w by (cases "has_channel t ch") auto
  next
    case True
    from apply_users_spec [OF w(2) assms(2,3) ch assms(5,6,9), of "nul_pad TOKEN_NAME_LENGTH []" False] True obtain cs c w3 where
      a: "table_channels t cs" "find_channel (nul_pad TOKEN_NAME_LENGTH ch) cs = Some c" "c \<in> set cs"
      "apply_update E w2 (nul_pad TOKEN_NAME_LENGTH ch) False (nul_pad TOKEN_NAME_LENGTH []) False False
        (alter_digit us) (name_array (fst us)) = Inr (True, w3)"
      "dbs E tab opn w3 (tput t DB_CHANNEL_INFO (ch_channel_id c)
        (encode_channel_info (c\<lparr>ch_user_list := with_members (ch_user_list c) (fst us)\<rparr>)))" (is "dbs E tab opn w3 ?t")
      by blast
    have k: "wf_channel_info (c\<lparr>ch_user_list := with_members (ch_user_list c) (fst us)\<rparr>)"
      "channel_strings (c\<lparr>ch_user_list := with_members (ch_user_list c) (fst us)\<rparr>)"
      using with_members_channel [OF table_channels_wf(1) [OF dbsD(4) [OF assms(1)] a(1,3)] channels_terminatedD [OF assms(3) a(1,3)]]
        assms(6) by (simp_all add: request_pair_def)
    obtain r out w4 where "update_answer E w3 out0 (nul_pad TOKEN_NAME_LENGTH ch) False (nul_pad TOKEN_NAME_LENGTH []) = Inr ((r, out), w4)"
      "dbs E tab opn w4 ?t" "terminated out0 \<longrightarrow> terminated out" "answer_for ?t ch r out"
      using update_answer_spec [OF a(5) channels_terminated_tput [OF assms(3) k(2,1)] ch assms(5), of "[]" out0 False] by auto
    moreover have "has_channel ?t ch"
      using a(2) ch by (auto simp: has_channel_tput [OF k(1)] find_channel_def find_Some_iff chan_named_def)
    ultimately show ?thesis
      using True run a by (intro exI [of _ r] exI [of _ out] exI [of _ "?s\<lparr>world := w4\<rparr>"]) (auto simp: answer_for_def)
  qed
qed

text \<open>C19: adding members. The request answers 404 and changes nothing if the channel or one of the listed names does
  not exist. Otherwise the names to add are appended to the members of the channel, up to the first name that is
  already a member and up to 64 members, the rest of the record stays as it is, the names to remove and the other
  lists are ignored, and the answer is 0 with the description of a channel of that name.\<close>

theorem update_users_correct:
  assumes "dbs E tab opn (world s) t" and "reopen_law E tab opn" and "channels_terminated t"
    and "body_at s fd n tr (update_fields ch None None us ads bans)" and "length ch < TOKEN_NAME_LENGTH"
    and "request_pair us" "request_pair ads" "request_pair bans" and "us \<noteq> ([], [])"
  shows "\<exists>r out s' t'. read_and_update_channel E s fd out0 n = Inr ((r, out), s') \<and> dbs E tab opn (world s') t' \<and>
    cache s' = cache s \<and> sent s' = sent s \<and> closed s' = closed s \<and> (terminated out0 \<longrightarrow> terminated out) \<and>
    (if \<not> has_channel t ch \<or> \<not> known_names t (all_names us ads bans) then r = 404 \<and> t' = t
     else r = 0 \<and> answer_for t' ch r out \<and> (\<exists>cs c. table_channels t cs \<and> find_channel (nul_pad TOKEN_NAME_LENGTH ch) cs = Some c \<and>
       t' = tput t DB_CHANNEL_INFO (ch_channel_id c)
         (encode_channel_info (c\<lparr>ch_user_list := with_members (ch_user_list c) (fst us)\<rparr>))))"
  by (rule update_users_spec) (fact assms)+

theorem update_users_correct_witness:
  "\<exists>out s'. read_and_update_channel mem_env (demo_state (join_fields False [''global'', ''0'', ''0'', ''1'', ''1'', ''benny'', ''0'', ''0''])) 5
      (zeros 8192) 24 = Inr ((0, out), s')"
proof -
  let ?b = "[''global'', ''0'', ''0'', ''1'', ''1'', ''benny'', ''0'', ''0'']"
  have "show_nat (Suc 0) = ''1''" by (simp add: show_nat.simps digit_chr_def)
  then have f: "update_fields ''global'' None None ([''benny''], []) ([], []) ([], []) = ?b"
    by (simp add: update_fields_def setting_fields_def alter_fields_def name_fields_def)
  have b: "body_at (demo_state (join_fields False ?b)) 5 24 False (update_fields ''global'' None None ([''benny''], []) ([], []) ([], []))"
    unfolding f by (simp add: body_at_def field_ok_def join_fields.simps)
  have k: "known_names demo_tables (all_names ([''benny''], []) ([], []) ([], []))" "request_pair ([''benny''], [])"
    by (simp_all add: known_names_def all_names_def request_pair_def request_names_def field_ok_def)
  show ?thesis
    using update_users_correct [OF _ mem_env_reopen demo_terminated b _ k(2), of "zeros 8192"] k(1) by auto
qed

end
