(* ===== verification/Messages.thy ===== *)
theory Messages
  imports Channels
begin

text \<open>
  Messages: \<^verbatim>\<open>generate_message_malloc_or_null\<close>, \<^verbatim>\<open>read_and_create_message\<close>, \<^verbatim>\<open>build_message_list\<close> and
  \<^verbatim>\<open>read_and_read_message\<close> of \<^verbatim>\<open>src/server.c\<close>.
\<close>

section \<open>Creation\<close>

text \<open>The block of a new message is zeroed over the 80 bytes of an account only and its content is copied with the
  size of a \<^verbatim>\<open>size_t\<close>, so that the model keeps the bytes that \<^verbatim>\<open>malloc\<close> left in it. The last argument of the copy
  of the content is \<open>sizeof(message_body_length)\<close>, which is 8.\<close>

definition generate_message_malloc_or_null ::
  "'w env \<Rightarrow> 'w \<Rightarrow> bytes \<Rightarrow> channel_info \<Rightarrow> bytes \<Rightarrow> bytes \<Rightarrow> (message_info option \<times> 'w) result"
where
  "generate_message_malloc_or_null E w display_name channel message_body timestamp =
     (if \<not> malloc_ok E w sizeof_message_info then Inr (None, w)
      else
        let block = heap_junk E w sizeof_message_info; (message_uuid, w) = generate_random_uuid_malloc E w
        in bindR (strlen message_body) (\<lambda>message_body_length.
           bindR (get_login_info_malloc_or_null E w display_name) (\<lambda>(user_login, w).
           bindR (decode_message_info (zeros sizeof_user_account @ drop sizeof_user_account block)) (\<lambda>m.
           bindR (bindR (deref message_uuid) (\<lambda>u. strncpy (mi_message_id m) u UUID_LEN)) (\<lambda>mid.
           bindR (bindR (deref user_login) (\<lambda>u. strncpy (mi_user_id m) (ul_uuid u) UUID_LEN)) (\<lambda>uid.
           bindR (strncpy (mi_channel_id m) (ch_channel_id channel) UUID_LEN) (\<lambda>cid.
           bindR (strncpy (mi_message_content m) message_body 8) (\<lambda>content.
           bindR (strncpy (mi_time_stamp m) timestamp TIMESTAMP_SIZE) (\<lambda>ts.
             Inr (Some \<lparr>mi_message_id = mid, mi_user_id = uid, mi_channel_id = cid, mi_message_content = content,
               mi_time_stamp = ts\<rparr>, w))))))))))"

text \<open>The part of the handler behind the check of the fields. With a privilege level other than 0 and 1 the flag of
  the assertion is never set.\<close>

definition store_message ::
  "'w env \<Rightarrow> 'w \<Rightarrow> connected_user list \<Rightarrow> bytes \<Rightarrow> channel_info \<Rightarrow> bytes \<Rightarrow> bytes \<Rightarrow> (int \<times> 'w) result"
where
  "store_message E w conn_users display_name channel message_content timestamp =
     bindR (get_connected_user_by_display_name conn_users display_name) (\<lambda>found.
     bindR (deref found) (\<lambda>user_in_cache.
     if \<not> malloc_ok E w UUID_LEN then Inl NullDeref
     else bindR (strncpy (zeros UUID_LEN) (cu_uuid user_in_cache) UUID_LEN) (\<lambda>clnt_uuid.
     bindR (get_user_account_malloc_or_null E w clnt_uuid) (\<lambda>(user_account, w).
     bindR (deref user_account) (\<lambda>account.
     bindR (assertR (ua_privilege_level account = 0 \<or> ua_privilege_level account = 1)) (\<lambda>_.
     bindR (generate_message_malloc_or_null E w (cu_login_token user_in_cache) channel message_content timestamp) (\<lambda>(message, w).
     bindR (insert_message E w message) (\<lambda>(_, w). Inr (0, w)))))))))"

definition read_and_create_message ::
  "'w env \<Rightarrow> 'w server \<Rightarrow> int \<Rightarrow> bytes \<Rightarrow> bytes \<Rightarrow> 16 word \<Rightarrow> ((int \<times> bytes \<times> bytes) \<times> 'w server) result"
where
  "read_and_create_message E s fd token_out forward_token body_size =
     bindR (read_body s fd body_size) (\<lambda>(body, s). case body of
       None \<Rightarrow> Inr ((-1, token_out, forward_token), s)
     | Some buffer \<Rightarrow>
         bindR (strncpy forward_token (nul_pad DEFAULT_BUFFER buffer) DEFAULT_BUFFER) (\<lambda>forward_token.
         let (token, rest) = next_token buffer
         in bindR (copy_token (zeros DSPLY_NAME_LENGTH) token) (\<lambda>display_name.
         bindR (strcmp_eq display_name (lit ''200'')) (\<lambda>ack.
         if ack then Inr ((69, token_out, forward_token), s)
         else let (token, rest) = next_token rest
         in bindR (copy_token (zeros TOKEN_NAME_LENGTH) token) (\<lambda>channel_name.
         let (token, rest) = next_token rest
         in bindR (copy_token (zeros MAX_MESSAGE_SIZE) token) (\<lambda>message_content.
         let (token, rest) = next_token rest
         in bindR (bindR (deref token) (\<lambda>t. strncpy (zeros TIMESTAMP_SIZE) (lit t) TIMESTAMP_SIZE)) (\<lambda>timestamp.
         bindR (strncpy token_out channel_name TOKEN_NAME_LENGTH) (\<lambda>token_out.
         if display_name ! 0 = NUL \<or> channel_name ! 0 = NUL \<or> message_content ! 0 = NUL \<or> timestamp ! 0 = NUL
         then Inr ((1, token_out, forward_token), s)
         else bindR (get_channel_info_malloc_or_null E (world s) channel_name) (\<lambda>(channel, w). case channel of
           None \<Rightarrow> Inr ((2, token_out, forward_token), s\<lparr>world := w\<rparr>)
         | Some c \<Rightarrow>
         bindR (store_message E w (cache s) display_name c message_content timestamp) (\<lambda>(r, w).
           Inr ((r, token_out, forward_token), s\<lparr>world := w\<rparr>)))))))))))"

section \<open>Reading\<close>

text \<open>A copy of bytes into a block at an offset.\<close>

definition poke :: "bytes \<Rightarrow> nat \<Rightarrow> bytes \<Rightarrow> bytes result" where
  "poke block offset bs =
     (if offset + length bs \<le> length block then Inr (take offset block @ bs @ drop (offset + length bs) block)
      else Inl BufferOverflow)"

fun message_list_size :: "channel_info option \<Rightarrow> message_info list \<Rightarrow> nat \<Rightarrow> nat result" where
  "message_list_size req_channel [] bytes_needed = Inr bytes_needed"
| "message_list_size req_channel (m # ms) bytes_needed =
     bindR (deref req_channel) (\<lambda>c.
     bindR (strcmp_eq (ch_channel_id c) (mi_channel_id m)) (\<lambda>eq.
       if eq then bindR (strlen (mi_message_content m)) (\<lambda>n. message_list_size req_channel ms (bytes_needed + (n + 1) + TIMESTAMP_SIZE))
       else message_list_size req_channel ms bytes_needed))"

text \<open>The writes of one message, lines 1090 to 1103: name, content and time stamp, each followed by a separator.\<close>

definition write_entry :: "bytes \<Rightarrow> nat \<Rightarrow> bytes \<Rightarrow> bytes \<Rightarrow> bytes \<Rightarrow> (bytes \<times> nat) result" where
  "write_entry lst offset dn mc ts =
     bindR (poke lst offset dn) (\<lambda>lst.
     bindR (poke lst (offset + length dn) [ETX]) (\<lambda>lst.
     bindR (poke lst (offset + length dn + 1) mc) (\<lambda>lst.
     bindR (poke lst (offset + length dn + 1 + length mc) [ETX]) (\<lambda>lst.
     bindR (poke lst (offset + length dn + 1 + length mc + 1) ts) (\<lambda>lst.
     bindR (poke lst (offset + length dn + 1 + length mc + 1 + length ts) [ETX]) (\<lambda>lst.
       Inr (lst, offset + length dn + 1 + length mc + 1 + length ts + 1)))))))"

fun message_list_loop ::
  "'w env \<Rightarrow> 'w \<Rightarrow> channel_info option \<Rightarrow> message_info list \<Rightarrow> nat \<Rightarrow> bytes \<Rightarrow> nat \<Rightarrow> ((bytes \<times> nat) \<times> 'w) result"
where
  "message_list_loop E w req_channel [] bytes_needed lst offset = Inr ((lst, offset), w)"
| "message_list_loop E w req_channel (m # ms) bytes_needed lst offset =
     bindR (deref req_channel) (\<lambda>c.
     bindR (strcmp_eq (ch_channel_id c) (mi_channel_id m)) (\<lambda>eq.
     if \<not> eq then message_list_loop E w req_channel ms bytes_needed lst offset
     else bindR (get_user_account_malloc_or_null E w (mi_user_id m)) (\<lambda>(account, w).
     bindR (deref account) (\<lambda>msg_sender.
     bindR (strlen (ua_display_name msg_sender)) (\<lambda>display_name_length.
     bindR (strlen (mi_message_content m)) (\<lambda>message_content_length.
     if bytes_needed \<le> offset + display_name_length + message_content_length + TIMESTAMP_SIZE + 3 then Inr ((lst, offset), w)
     else bindR (memcpy_prefix (mi_time_stamp m) TIMESTAMP_SIZE) (\<lambda>time_stamp.
     bindR (write_entry lst offset (take display_name_length (ua_display_name msg_sender))
         (take message_content_length (mi_message_content m)) time_stamp) (\<lambda>(lst, offset).
     message_list_loop E w req_channel ms bytes_needed lst offset))))))))"

definition build_message_list ::
  "'w env \<Rightarrow> 'w \<Rightarrow> message_info list \<Rightarrow> bytes \<Rightarrow> (bytes option \<times> 'w) result"
where
  "build_message_list E w messages channel_name =
     bindR (get_channel_info_malloc_or_null E w channel_name) (\<lambda>(req_channel, w).
     bindR (message_list_size req_channel messages 0) (\<lambda>bytes_needed.
     let bytes_needed = bytes_needed + 1
     in if \<not> malloc_ok E w bytes_needed then Inr (None, w)
     else bindR (message_list_loop E w req_channel messages bytes_needed (heap_junk E w bytes_needed) 0) (\<lambda>((lst, offset), w).
     bindR (poke lst offset [NUL]) (\<lambda>lst. Inr (Some lst, w)))))"

definition messages_or_empty :: "'w env \<Rightarrow> 'w \<Rightarrow> (message_info list \<times> 'w) result" where
  "messages_or_empty E w =
     bindR (get_all_messages E w) (\<lambda>(message_list, w). case message_list of
       Some ms \<Rightarrow> Inr (ms, w)
     | None \<Rightarrow> if malloc_ok E w 16 then Inr ([], w) else Inl NullDeref)"

text \<open>The answer is built in a block of 4096 bytes and copied with a size of \<open>MAX_MSG_HISTORY_RES + sizeof (char * )\<close>.\<close>

definition read_and_read_message ::
  "'w env \<Rightarrow> 'w server \<Rightarrow> int \<Rightarrow> bytes \<Rightarrow> 16 word \<Rightarrow> ((int \<times> bytes) \<times> 'w server) result"
where
  "read_and_read_message E s fd message_info_out body_size =
     bindR (read_buffer s fd body_size) (\<lambda>((nread, buffer), s).
     bindR (c_string buffer) (\<lambda>buffer.
     let (token, rest) = next_token buffer
     in bindR (copy_token (zeros TOKEN_NAME_LENGTH) token) (\<lambda>channel_name.
     let (token, rest) = next_token rest
     in bindR (copy_token (zeros TOKEN_NAME_LENGTH) token) (\<lambda>num_of_messages.
     bindR (is_number num_of_messages) (\<lambda>input_is_num.
     if \<not> input_is_num then Inr ((-1, message_info_out), s)
     else if channel_name ! 0 = NUL \<or> num_of_messages ! 0 = NUL then Inr ((-1, message_info_out), s)
     else bindR (messages_or_empty E (world s)) (\<lambda>(messages, w).
     bindR (build_message_list E w messages channel_name) (\<lambda>(message_name_list, w).
     if \<not> malloc_ok E w BIG_TOKEN_NAME_LENGTH then Inl NullDeref
     else bindR (c_string channel_name) (\<lambda>nm.
     bindR (bindR (deref message_name_list) c_string) (\<lambda>lst.
     bindR (snprintf (heap_junk E w BIG_TOKEN_NAME_LENGTH) BIG_TOKEN_NAME_LENGTH (msg nm @ msg (show_nat (length messages)) @ lst)) (\<lambda>response_body.
     bindR (strncpy message_info_out response_body (MAX_MSG_HISTORY_RES + 8)) (\<lambda>message_info_out.
       Inr ((0, message_info_out), s\<lparr>world := w\<rparr>))))))))))))"

section \<open>Lemmas on creation\<close>

text \<open>What is stored of a message: only the first eight bytes of the content are known.\<close>

definition stored_message :: "message_info \<Rightarrow> bytes \<Rightarrow> bytes \<Rightarrow> string \<Rightarrow> string \<Rightarrow> bool" where
  "stored_message m sender channel_id text ts \<longleftrightarrow> wf_message_info m \<and> uuid_text (mi_message_id m) \<and> mi_user_id m = sender \<and>
     mi_channel_id m = channel_id \<and> take 8 (mi_message_content m) = nul_pad 8 (take 8 text) \<and>
     mi_time_stamp m = nul_pad TIMESTAMP_SIZE ts"

lemma strncpy_8:
  assumes "NUL \<notin> set text" "length text < MAX_MESSAGE_SIZE" "length dst = MAX_MESSAGE_SIZE"
  shows "\<exists>r. strncpy dst (nul_pad MAX_MESSAGE_SIZE text) 8 = Inr r \<and> length r = MAX_MESSAGE_SIZE \<and>
    take 8 r = nul_pad 8 (take 8 text)"
proof -
  have "NUL \<notin> set (take 8 text)" using assms(1) by (auto dest: in_set_takeD)
  then have "cstr (take 8 (nul_pad MAX_MESSAGE_SIZE text)) = take 8 text"
    using assms(2) by (simp add: nul_pad_def cstr_append)
  then show ?thesis using assms(3) by (simp add: strncpy_def)
qed

lemma generate_message_spec:
  assumes D: "dbs E tab opn w t" and L: "login_view t tok = Some l" "length tok = TOKEN_NAME_LENGTH"
    and C: "wf_channel_info c" and F: "NUL \<notin> set text" "length text < MAX_MESSAGE_SIZE" "NUL \<notin> set ts" "length ts < TIMESTAMP_SIZE"
  shows "\<exists>m w'. generate_message_malloc_or_null E w tok c (nul_pad MAX_MESSAGE_SIZE text) (nul_pad TIMESTAMP_SIZE ts) = Inr (Some m, w') \<and>
    dbs E tab opn w' t \<and> stored_message m (ul_uuid l) (nul_pad UUID_LEN (cstr (ch_channel_id c))) text ts"
proof -
  obtain u w1 where u: "generate_random_uuid_malloc E w = (Some (lit u), w1)" "dbs E tab opn w1 t" "uuid_text (lit u)"
    using dbs_uuid [OF D] by blast
  obtain w2 where w2: "get_login_info_malloc_or_null E w1 tok = Inr (Some l, w2)" "dbs E tab opn w2 t"
    using dbs_get_login [OF u(2) L(2)] L(1) by auto
  let ?b = "zeros sizeof_user_account @ drop sizeof_user_account (heap_junk E w sizeof_message_info)"
  have "sizeof_message_info \<le> length ?b" using dbs_junk [OF D] by (simp add: sizeof_message_info_def sizeof_user_account_def)
  then obtain m where m: "decode_message_info ?b = Inr m" by (simp add: decode_message_info_def memcpy_prefix_def)
  from decode_message_info_wf [OF m] have l: "length (mi_message_id m) = UUID_LEN" "length (mi_user_id m) = UUID_LEN"
    "length (mi_channel_id m) = UUID_LEN" "length (mi_message_content m) = MAX_MESSAGE_SIZE" "length (mi_time_stamp m) = TIMESTAMP_SIZE"
    by (simp_all add: wf_message_info_def)
  obtain content where x: "strncpy (mi_message_content m) (nul_pad MAX_MESSAGE_SIZE text) 8 = Inr content"
    "length content = MAX_MESSAGE_SIZE" "take 8 content = nul_pad 8 (take 8 text)"
    using strncpy_8 [OF F(1,2) l(4)] by blast
  have "uuid_text (ul_uuid l)" using db_ok_login_view(3) [OF dbsD(4) [OF D] L(1)] by (simp add: login_strings_def)
  then have y: "strncpy (mi_user_id m) (ul_uuid l) UUID_LEN = Inr (ul_uuid l)" "length (ul_uuid l) = UUID_LEN"
    "strncpy (mi_message_id m) (lit u) UUID_LEN = Inr (lit u)" "length (lit u) = UUID_LEN"
    using u(3) l by (simp_all add: strncpy_uuid_text) (simp_all add: uuid_text_def)
  have z: "strncpy (mi_channel_id m) (ch_channel_id c) UUID_LEN = Inr (nul_pad UUID_LEN (cstr (ch_channel_id c)))"
    "length (cstr (ch_channel_id c)) \<le> UUID_LEN"
    using C l length_cstr_le [of "ch_channel_id c"] by (simp_all add: strncpy_eq_Inr wf_channel_info_def)
  let ?m = "\<lparr>mi_message_id = lit u, mi_user_id = ul_uuid l, mi_channel_id = nul_pad UUID_LEN (cstr (ch_channel_id c)),
    mi_message_content = content, mi_time_stamp = nul_pad TIMESTAMP_SIZE ts\<rparr>"
  have "stored_message ?m (ul_uuid l) (nul_pad UUID_LEN (cstr (ch_channel_id c))) text ts"
    using x y u(3) z F by (simp add: stored_message_def wf_message_info_def)
  moreover have "generate_message_malloc_or_null E w tok c (nul_pad MAX_MESSAGE_SIZE text) (nul_pad TIMESTAMP_SIZE ts) = Inr (Some ?m, w2)"
    using u(1) w2(1) m x(1) y z(1) l F dbs_malloc [OF D] by (simp add: generate_message_malloc_or_null_def clib)
  ultimately show ?thesis using w2(2) by blast
qed

lemma store_message_spec:
  assumes D: "dbs E tab opn w t" and K: "wf_cache conn" and N: "terminated nm"
    and U: "find (\<lambda>u. user_name u = cstr nm) (users conn) = Some u" "account_view (host_le E) t (cu_uuid u) = Some a"
      "ua_privilege_level a = 0 \<or> ua_privilege_level a = 1" "login_view t (cu_login_token u) = Some l"
    and C: "wf_channel_info c" and F: "NUL \<notin> set text" "length text < MAX_MESSAGE_SIZE" "NUL \<notin> set ts" "length ts < TIMESTAMP_SIZE"
  shows "\<exists>m w'. store_message E w conn nm c (nul_pad MAX_MESSAGE_SIZE text) (nul_pad TIMESTAMP_SIZE ts) = Inr (0, w') \<and>
    stored_message m (ul_uuid l) (nul_pad UUID_LEN (cstr (ch_channel_id c))) text ts \<and>
    dbs E tab opn w' (tput t DB_MESSAGE_INFO (mi_message_id m) (encode_message_info m))"
proof -
  have "uuid_text (cu_uuid u)"
    using db_ok_account_view [OF dbsD(4) [OF D] U(2)] by (auto simp: account_strings_def)
  then have id: "strncpy (zeros UUID_LEN) (cu_uuid u) UUID_LEN = Inr (cu_uuid u)" "length (cu_uuid u) = UUID_LEN"
    by (simp_all add: strncpy_uuid_text) (simp add: uuid_text_def)
  obtain w1 where w1: "get_user_account_malloc_or_null E w (cu_uuid u) = Inr (Some a, w1)" "dbs E tab opn w1 t"
    using dbs_get_account [OF D id(2)] U(2) by auto
  have tok: "length (cu_login_token u) = TOKEN_NAME_LENGTH" using db_ok_login_view(4) [OF dbsD(4) [OF D] U(4)] .
  from generate_message_spec [OF w1(2) U(4) tok C F] obtain m w2 where
    m: "generate_message_malloc_or_null E w1 (cu_login_token u) c (nul_pad MAX_MESSAGE_SIZE text) (nul_pad TIMESTAMP_SIZE ts) = Inr (Some m, w2)"
      "dbs E tab opn w2 t" "stored_message m (ul_uuid l) (nul_pad UUID_LEN (cstr (ch_channel_id c))) text ts" by blast
  from dbs_put_message [OF m(2), of m] m(3) obtain w3 where
    w3: "insert_message E w2 (Some m) = Inr (0, w3)" "dbs E tab opn w3 (tput t DB_MESSAGE_INFO (mi_message_id m) (encode_message_info m))"
    by (auto simp: stored_message_def)
  have "store_message E w conn nm c (nul_pad MAX_MESSAGE_SIZE text) (nul_pad TIMESTAMP_SIZE ts) = Inr (0, w3)"
    using get_by_name_spec [OF K N] U(1,3) id(1) w1(1) m(1) w3(1) dbs_malloc [OF D] by (simp add: store_message_def)
  with m(3) w3(2) show ?thesis by blast
qed

lemma create_message_run:
  assumes D: "dbs E tab opn (world s) t" and B: "body_at s fd n tr [nm, ch, text, ts]"
    and L: "length nm < DSPLY_NAME_LENGTH" "length ch < TOKEN_NAME_LENGTH" "length text < MAX_MESSAGE_SIZE" "length ts < TIMESTAMP_SIZE"
    and M: "nm \<noteq> ''200''" and O: "length token_out = TOKEN_NAME_LENGTH" "length forward = DEFAULT_BUFFER"
  shows "\<exists>w1 cs. dbs E tab opn w1 t \<and> table_channels t cs \<and> read_and_create_message E s fd token_out forward n =
    (case find_channel (nul_pad TOKEN_NAME_LENGTH ch) cs of
       None \<Rightarrow> Inr ((2, nul_pad TOKEN_NAME_LENGTH ch, nul_pad DEFAULT_BUFFER (join_fields tr [nm, ch, text, ts])), (consume s fd (unat n))\<lparr>world := w1\<rparr>)
     | Some c \<Rightarrow> bindR (store_message E w1 (cache s) (nul_pad DSPLY_NAME_LENGTH nm) c (nul_pad MAX_MESSAGE_SIZE text) (nul_pad TIMESTAMP_SIZE ts))
         (\<lambda>(r, w). Inr ((r, nul_pad TOKEN_NAME_LENGTH ch, nul_pad DEFAULT_BUFFER (join_fields tr [nm, ch, text, ts])),
           (consume s fd (unat n))\<lparr>world := w\<rparr>)))"
proof -
  have F: "field_ok nm" "field_ok ch" "field_ok text" "field_ok ts" using B by (simp_all add: body_at_def)
  have fwd: "strncpy forward (nul_pad DEFAULT_BUFFER (join_fields tr [nm, ch, text, ts])) DEFAULT_BUFFER =
      Inr (nul_pad DEFAULT_BUFFER (join_fields tr [nm, ch, text, ts]))"
    using B O(2) join_no_NUL [of "[nm, ch, text, ts]"] by (simp add: body_at_def)
  obtain w1 cs where w1: "get_channel_info_malloc_or_null E (world s) (nul_pad TOKEN_NAME_LENGTH ch) =
      Inr (find_channel (nul_pad TOKEN_NAME_LENGTH ch) cs, w1)" "dbs E tab opn w1 t" "table_channels t cs"
    using dbs_get_channel [OF D, of "nul_pad TOKEN_NAME_LENGTH ch"] F L by (auto simp: field_okD)
  have ts: "strncpy (zeros TIMESTAMP_SIZE) (lit ts) TIMESTAMP_SIZE = Inr (nul_pad TIMESTAMP_SIZE ts)"
    using F L by (simp add: strncpy_lit field_okD)
  have out: "strncpy token_out (nul_pad TOKEN_NAME_LENGTH ch) TOKEN_NAME_LENGTH = Inr (nul_pad TOKEN_NAME_LENGTH ch)"
    using F L O by (simp add: field_okD)
  have "read_and_create_message E s fd token_out forward n =
    (case find_channel (nul_pad TOKEN_NAME_LENGTH ch) cs of
       None \<Rightarrow> Inr ((2, nul_pad TOKEN_NAME_LENGTH ch, nul_pad DEFAULT_BUFFER (join_fields tr [nm, ch, text, ts])), (consume s fd (unat n))\<lparr>world := w1\<rparr>)
     | Some c \<Rightarrow> bindR (store_message E w1 (cache s) (nul_pad DSPLY_NAME_LENGTH nm) c (nul_pad MAX_MESSAGE_SIZE text) (nul_pad TIMESTAMP_SIZE ts))
         (\<lambda>(r, w). Inr ((r, nul_pad TOKEN_NAME_LENGTH ch, nul_pad DEFAULT_BUFFER (join_fields tr [nm, ch, text, ts])),
           (consume s fd (unat n))\<lparr>world := w\<rparr>)))"
    using B L M F fwd out ts w1(1)
    by (simp add: read_and_create_message_def field_okD strcmp_eq_terminated nul_pad_0 split: option.split)
  with w1(2,3) show ?thesis by blast
qed

section \<open>Lemmas on the list of messages\<close>

text \<open>A message that can be listed: its strings are terminated and its sender has an account.\<close>

definition message_ok :: "bool \<Rightarrow> table_state \<Rightarrow> message_info \<Rightarrow> bool" where
  "message_ok le t m \<longleftrightarrow> wf_message_info m \<and> terminated (mi_message_content m) \<and> terminated (mi_channel_id m) \<and>
     account_view le t (mi_user_id m) \<noteq> None"

definition of_channel :: "channel_info \<Rightarrow> message_info \<Rightarrow> bool" where
  "of_channel c m \<longleftrightarrow> cstr (mi_channel_id m) = cstr (ch_channel_id c)"

definition message_entry :: "bool \<Rightarrow> table_state \<Rightarrow> message_info \<Rightarrow> bytes" where
  "message_entry le t m = msg (cstr (ua_display_name (the (account_view le t (mi_user_id m))))) @
     msg (cstr (mi_message_content m)) @ mi_time_stamp m @ [ETX]"

text \<open>The entries that are written before one does not fit.\<close>

fun entries_fitting :: "nat \<Rightarrow> nat \<Rightarrow> bytes list \<Rightarrow> bytes list" where
  "entries_fitting sz off [] = []"
| "entries_fitting sz off (e # es) = (if sz \<le> off + length e then [] else e # entries_fitting sz (off + length e) es)"

definition list_space :: "message_info list \<Rightarrow> nat" where
  "list_space ms = sum_list (map (\<lambda>m. length (cstr (mi_message_content m)) + 1 + TIMESTAMP_SIZE) ms)"

lemma poke_ok:
  assumes "off + length bs \<le> length lst"
  shows "\<exists>r. poke lst off bs = Inr r \<and> length r = length lst \<and> take (off + length bs) r = take off lst @ bs"
  using assms by (simp add: poke_def)

lemma message_list_size_spec:
  assumes "list_all (message_ok le t) ms" "terminated (ch_channel_id c)"
  shows "message_list_size (Some c) ms n = Inr (n + list_space (filter (of_channel c) ms))"
  using assms(1)
proof (induction ms arbitrary: n)
  case (Cons m ms)
  then have "terminated (mi_channel_id m)" "terminated (mi_message_content m)" by (simp_all add: message_ok_def)
  with Cons assms(2) show ?case
    by (auto simp: strcmp_eq_terminated strlen_terminated of_channel_def list_space_def)
qed (simp add: list_space_def)

lemma take_cstr: "take (length (cstr x)) x = cstr x"
  unfolding cstr_def by (induction x) auto

lemma write_entry_spec:
  assumes "off + length dn + length mc + length ts + 3 < length lst"
  shows "\<exists>r. write_entry lst off dn mc ts = Inr (r, off + length (msg dn @ msg mc @ ts @ [ETX])) \<and> length r = length lst \<and>
    take (off + length (msg dn @ msg mc @ ts @ [ETX])) r = take off lst @ msg dn @ msg mc @ ts @ [ETX]"
proof -
  from assms obtain r1 where 1: "poke lst off dn = Inr r1" "length r1 = length lst" "take (off + length dn) r1 = take off lst @ dn"
    using poke_ok [of off dn lst] by auto
  from assms 1(2) obtain r2 where 2: "poke r1 (off + length dn) [ETX] = Inr r2" "length r2 = length lst"
    "take (off + length dn + 1) r2 = take (off + length dn) r1 @ [ETX]"
    using poke_ok [of "off + length dn" "[ETX]" r1] by auto
  from assms 2(2) obtain r3 where 3: "poke r2 (off + length dn + 1) mc = Inr r3" "length r3 = length lst"
    "take (off + length dn + 1 + length mc) r3 = take (off + length dn + 1) r2 @ mc"
    using poke_ok [of "off + length dn + 1" mc r2] by auto
  from assms 3(2) obtain r4 where 4: "poke r3 (off + length dn + 1 + length mc) [ETX] = Inr r4" "length r4 = length lst"
    "take (off + length dn + 1 + length mc + 1) r4 = take (off + length dn + 1 + length mc) r3 @ [ETX]"
    using poke_ok [of "off + length dn + 1 + length mc" "[ETX]" r3] by auto
  from assms 4(2) obtain r5 where 5: "poke r4 (off + length dn + 1 + length mc + 1) ts = Inr r5" "length r5 = length lst"
    "take (off + length dn + 1 + length mc + 1 + length ts) r5 = take (off + length dn + 1 + length mc + 1) r4 @ ts"
    using poke_ok [of "off + length dn + 1 + length mc + 1" ts r4] by auto
  from assms 5(2) obtain r6 where 6: "poke r5 (off + length dn + 1 + length mc + 1 + length ts) [ETX] = Inr r6" "length r6 = length lst"
    "take (off + length dn + 1 + length mc + 1 + length ts + 1) r6 = take (off + length dn + 1 + length mc + 1 + length ts) r5 @ [ETX]"
    using poke_ok [of "off + length dn + 1 + length mc + 1 + length ts" "[ETX]" r5] by auto
  have "off + length (msg dn @ msg mc @ ts @ [ETX]) = off + length dn + 1 + length mc + 1 + length ts + 1"
    by (simp add: msg_def)
  then show ?thesis
    using 1(1,3) 2(1,3) 3(1,3) 4(1,3) 5(1,3) 6 by (intro exI [of _ r6]) (simp add: write_entry_def msg_def algebra_simps)
qed

lemma length_message_entry:
  "wf_message_info m \<Longrightarrow> length (message_entry le t m) =
    length (cstr (ua_display_name (the (account_view le t (mi_user_id m))))) + length (cstr (mi_message_content m)) + TIMESTAMP_SIZE + 3"
  by (simp add: message_entry_def msg_def wf_message_info_def)

lemma message_list_loop_spec:
  assumes "dbs E tab opn w t" "list_all (message_ok (host_le E) t) ms" "terminated (ch_channel_id c)" "off < length lst"
  shows "\<exists>lst' w'. let out = concat (entries_fitting (length lst) off (map (message_entry (host_le E) t) (filter (of_channel c) ms)))
    in message_list_loop E w (Some c) ms (length lst) lst off = Inr ((lst', off + length out), w') \<and> dbs E tab opn w' t \<and>
      length lst' = length lst \<and> off + length out < length lst \<and> take (off + length out) lst' = take off lst @ out"
  using assms
proof (induction ms arbitrary: w lst off)
  case (Cons m ms)
  let ?e = "message_entry (host_le E) t m"
  have m: "message_ok (host_le E) t m" "list_all (message_ok (host_le E) t) ms" using Cons.prems(2) by simp_all
  then obtain a where a: "account_view (host_le E) t (mi_user_id m) = Some a" "wf_message_info m" "terminated (mi_channel_id m)"
    "terminated (mi_message_content m)" "length (mi_user_id m) = UUID_LEN" "length (mi_time_stamp m) = TIMESTAMP_SIZE"
    by (auto simp: message_ok_def wf_message_info_def)
  have eq: "strcmp_eq (ch_channel_id c) (mi_channel_id m) = Inr (of_channel c m)"
    using a(3) Cons.prems(3) by (auto simp: strcmp_eq_terminated of_channel_def)
  show ?case
  proof (cases "of_channel c m")
    case False
    then show ?thesis using Cons.IH [OF Cons.prems(1) m(2) Cons.prems(3,4)] eq by simp
  next
    case True
    obtain w1 where w1: "get_user_account_malloc_or_null E w (mi_user_id m) = Inr (Some a, w1)" "dbs E tab opn w1 t"
      using dbs_get_account [OF Cons.prems(1) a(5)] a(1) by auto
    let ?dn = "cstr (ua_display_name a)" and ?mc = "cstr (mi_message_content m)"
    have dn: "strlen (ua_display_name a) = Inr (length ?dn)"
      using db_ok_account_view(3) [OF dbsD(4) [OF Cons.prems(1)] a(1)] by (simp add: account_strings_def strlen_terminated)
    have mc: "strlen (mi_message_content m) = Inr (length ?mc)" using a(4) by (simp add: strlen_terminated)
    have e: "?e = msg ?dn @ msg ?mc @ mi_time_stamp m @ [ETX]" "length ?e = length ?dn + length ?mc + TIMESTAMP_SIZE + 3"
      using a(1) length_message_entry [OF a(2)] by (simp_all add: message_entry_def)
    show ?thesis
    proof (cases "length lst \<le> off + length ?e")
      case fits: True
      then have "message_list_loop E w (Some c) (m # ms) (length lst) lst off = Inr ((lst, off), w1)"
        using True eq w1(1) dn mc e(2) by simp
      with fits True w1(2) Cons.prems(4) show ?thesis by simp
    next
      case fits: False
      from fits e a(6) write_entry_spec [of off ?dn ?mc "mi_time_stamp m" lst] obtain r where
        r: "write_entry lst off ?dn ?mc (mi_time_stamp m) = Inr (r, off + length ?e)" "length r = length lst"
          "take (off + length ?e) r = take off lst @ ?e"
        by auto
      have run: "message_list_loop E w (Some c) (m # ms) (length lst) lst off =
          message_list_loop E w1 (Some c) ms (length lst) r (off + length ?e)"
        using True eq w1(1) dn mc e(2) fits a(6) r(1) by (simp add: take_cstr memcpy_prefix_def)
      have "off + length ?e < length r" using fits r(2) by simp
      from Cons.IH [OF w1(2) m(2) Cons.prems(3) this] show ?thesis
        using True fits r(2,3) run by (simp add: Let_def add.assoc)
    qed
  qed
qed simp

lemma entries_fitting_take: "entries_fitting sz off es = take (length (entries_fitting sz off es)) es"
  by (induction sz off es rule: entries_fitting.induct) auto

lemma entries_fitting_bound: "off < sz \<Longrightarrow> off + length (concat (entries_fitting sz off es)) < sz"
  by (induction sz off es rule: entries_fitting.induct) auto

text \<open>The block is smaller than all entries together, because its size counts neither the names nor two of the three
  separators: the last message never fits.\<close>

lemma entries_fitting_incomplete:
  assumes "list_all wf_message_info ms" "ms \<noteq> []"
  shows "length (entries_fitting (list_space ms + 1) 0 (map (message_entry le t) ms)) < length ms"
proof (rule ccontr)
  let ?es = "map (message_entry le t) ms"
  let ?f = "entries_fitting (list_space ms + 1) 0 ?es"
  assume "\<not> length ?f < length ms"
  then have "?f = ?es" using entries_fitting_take [of "list_space ms + 1" 0 ?es] by simp
  then have small: "length (concat ?es) < list_space ms + 1"
    using entries_fitting_bound [of 0 "list_space ms + 1" ?es] by simp
  have "list_space xs + length xs \<le> length (concat (map (message_entry le t) xs))" if "list_all wf_message_info xs" for xs
    using that by (induction xs) (simp_all add: list_space_def length_message_entry)
  from this [OF assms(1)] small assms(2) show False by (cases ms) simp_all
qed

definition listed :: "bool \<Rightarrow> table_state \<Rightarrow> message_info list \<Rightarrow> bytes list" where
  "listed le t ms = entries_fitting (list_space ms + 1) 0 (map (message_entry le t) ms)"

definition table_messages :: "table_state \<Rightarrow> message_info list \<Rightarrow> bool" where
  "table_messages t ms \<longleftrightarrow> (\<exists>keys. distinct keys \<and> set keys = dom (content t DB_MESSAGE_INFO) \<and>
     ms = msg_list (content t DB_MESSAGE_INFO) keys)"

text \<open>All messages can be listed, and the ids of all channels are terminated.\<close>

definition messages_ok :: "bool \<Rightarrow> table_state \<Rightarrow> bool" where
  "messages_ok le t \<longleftrightarrow>
     (\<forall>k v. content t DB_MESSAGE_INFO k = Some v \<longrightarrow> message_ok le t (projr (decode_message_info v))) \<and>
     (\<forall>k v. content t DB_CHANNEL_INFO k = Some v \<longrightarrow> terminated (ch_channel_id (projr (decode_channel_info v))))"

lemma messages_okD:
  assumes "messages_ok le t"
  shows "table_messages t ms \<Longrightarrow> list_all (message_ok le t) ms" "table_channels t cs \<Longrightarrow> c \<in> set cs \<Longrightarrow> terminated (ch_channel_id c)"
proof -
  show "table_messages t ms \<Longrightarrow> list_all (message_ok le t) ms"
    using assms by (fastforce simp: messages_ok_def table_messages_def msg_list_def list_all_iff)
  show "table_channels t cs \<Longrightarrow> c \<in> set cs \<Longrightarrow> terminated (ch_channel_id c)"
    using assms by (fastforce simp: messages_ok_def table_channels_def chan_list_def)
qed

lemma build_message_list_spec:
  assumes D: "dbs E tab opn w t" and M: "list_all (message_ok (host_le E) t) ms" and N: "terminated nm" and H: "has_channel t (cstr nm)"
    and I: "messages_ok (host_le E) t"
  shows "\<exists>cs c rest w'. table_channels t cs \<and> find_channel nm cs = Some c \<and>
    build_message_list E w ms nm = Inr (Some (concat (listed (host_le E) t (filter (of_channel c) ms)) @ NUL # rest), w') \<and>
    dbs E tab opn w' t"
proof -
  obtain w1 cs where w1: "get_channel_info_malloc_or_null E w nm = Inr (find_channel nm cs, w1)" "dbs E tab opn w1 t" "table_channels t cs"
    using dbs_get_channel [OF D N] by blast
  obtain c where c: "find_channel nm cs = Some c" using find_channel_has [OF w1(3), of nm] H by auto
  then have "c \<in> set cs" by (auto simp: find_channel_def find_Some_iff)
  then have id: "terminated (ch_channel_id c)" by (rule messages_okD(2) [OF I w1(3)])
  let ?ms = "filter (of_channel c) ms" and ?n = "list_space (filter (of_channel c) ms) + 1"
  let ?out = "concat (listed (host_le E) t ?ms)"
  have size: "message_list_size (Some c) ms 0 = Inr (list_space ?ms)" using message_list_size_spec [OF M id, of 0] by simp
  have len: "length (heap_junk E w1 ?n) = ?n" by (rule dbs_junk [OF D])
  from message_list_loop_spec [OF w1(2) M id, of 0 "heap_junk E w1 ?n"] obtain lst w2 where
    l: "message_list_loop E w1 (Some c) ms ?n (heap_junk E w1 ?n) 0 = Inr ((lst, length ?out), w2)" "dbs E tab opn w2 t"
      "length lst = ?n" "length ?out < ?n" "take (length ?out) lst = ?out"
    unfolding len by (auto simp: Let_def listed_def)
  then have "poke lst (length ?out) [NUL] = Inr (?out @ NUL # drop (length ?out + 1) lst)" by (simp add: poke_def)
  then have "build_message_list E w ms nm = Inr (Some (?out @ NUL # drop (length ?out + 1) lst), w2)"
    using w1(1) c size l(1) dbs_malloc [OF D] by (simp add: build_message_list_def)
  with w1(3) c l(2) show ?thesis by blast
qed

lemma messages_or_empty_spec:
  assumes D: "dbs E tab opn w t"
  shows "\<exists>ms w'. messages_or_empty E w = Inr (ms, w') \<and> dbs E tab opn w' t \<and> table_messages t ms"
proof -
  have "msg_table (content (tab w) DB_MESSAGE_INFO)" using dbsD(3,4) [OF D] by (simp add: db_ok_def)
  from get_all_messages_spec [OF dbsD(1,2) [OF D] this] dbsD(3) [OF D] obtain w1 keys where
    g: "opn w1 = []" "tab w1 = t" "distinct keys" "set keys = dom (content t DB_MESSAGE_INFO)"
      "get_all_messages E w = Inr (if t DB_MESSAGE_INFO = None then None else Some (msg_list (content t DB_MESSAGE_INFO) keys), w1)"
    by auto
  then have "table_messages t (msg_list (content t DB_MESSAGE_INFO) keys)" "dbs E tab opn w1 t"
    using dbsI [OF D g(1,2) dbsD(4) [OF D]] by (auto simp: table_messages_def)
  moreover have "t DB_MESSAGE_INFO = None \<Longrightarrow> keys = []" using g(4) by (simp add: content_def)
  ultimately show ?thesis
    using g(5) dbs_malloc [OF D] by (cases "t DB_MESSAGE_INFO = None") (auto simp: messages_or_empty_def)
qed

lemma read_buffer_at:
  assumes "body_at s fd n tr fs"
  shows "read_buffer s fd n = Inr ((unat n, nul_pad DEFAULT_BUFFER (join_fields tr fs)), consume s fd (unat n))"
proof -
  have "take (unat n) (pending s fd) = join_fields tr fs" "unat n = length (join_fields tr fs)" "unat n < DEFAULT_BUFFER"
    using assms unfolding body_at_def by blast+
  moreover from this have "length (join_fields tr fs) \<le> length (pending s fd)" by (metis length_take min.cobounded1)
  ultimately show ?thesis by (simp add: read_buffer_def sys_read_eq)
qed

definition history_text :: "bool \<Rightarrow> table_state \<Rightarrow> string \<Rightarrow> channel_info \<Rightarrow> message_info list \<Rightarrow> string" where
  "history_text le t ch c ms = take (BIG_TOKEN_NAME_LENGTH - 1)
     (msg ch @ msg (show_nat (length ms)) @ cstr (concat (listed le t (filter (of_channel c) ms)) @ [NUL]))"

lemma cstr_at_NUL: "cstr (a @ NUL # b) = cstr (a @ [NUL])"
  unfolding cstr_def by (induction a) auto

lemma read_message_run:
  assumes D: "dbs E tab opn (world s) t" and B: "body_at s fd n tr [ch, num]" and L: "length ch < TOKEN_NAME_LENGTH" "length num < TOKEN_NAME_LENGTH"
    and N: "list_all isdigit num" and H: "has_channel t ch" and M: "messages_ok (host_le E) t"
  shows "\<exists>cs c ms response w'. table_channels t cs \<and> find_channel (nul_pad TOKEN_NAME_LENGTH ch) cs = Some c \<and> table_messages t ms \<and>
    terminated response \<and> length response = BIG_TOKEN_NAME_LENGTH \<and> cstr response = history_text (host_le E) t ch c ms \<and> dbs E tab opn w' t \<and>
    read_and_read_message E s fd out n = bindR (strncpy out response (MAX_MSG_HISTORY_RES + 8)) (\<lambda>out.
      Inr ((0, out), (consume s fd (unat n))\<lparr>world := w'\<rparr>))"
proof -
  let ?ch = "nul_pad TOKEN_NAME_LENGTH ch" and ?num = "nul_pad TOKEN_NAME_LENGTH num"
  have F: "field_ok ch" "field_ok num" using B by (simp_all add: body_at_def)
  obtain ms w1 where w1: "messages_or_empty E (world s) = Inr (ms, w1)" "dbs E tab opn w1 t" "table_messages t ms"
    using messages_or_empty_spec [OF D] by blast
  have ch: "terminated ?ch" "cstr ?ch = ch" "c_string ?ch = Inr ch" "is_number ?num = Inr True"
    using F L N by (simp_all add: field_okD is_number_spec)
  from build_message_list_spec [OF w1(2) messages_okD(1) [OF M w1(3)] ch(1) _ M] H ch(2)
  obtain cs c rest w2 where b: "table_channels t cs" "find_channel ?ch cs = Some c"
    "build_message_list E w1 ms ?ch = Inr (Some (concat (listed (host_le E) t (filter (of_channel c) ms)) @ NUL # rest), w2)" "dbs E tab opn w2 t"
    by auto
  let ?lst = "concat (listed (host_le E) t (filter (of_channel c) ms)) @ NUL # rest"
  let ?text = "msg ch @ msg (show_nat (length ms)) @ cstr ?lst"
  have t: "NUL \<notin> set (history_text (host_le E) t ch c ms)"
    using F by (auto simp: history_text_def field_okD msg_def dest!: in_set_takeD)
  have h: "take (BIG_TOKEN_NAME_LENGTH - 1) ?text = history_text (host_le E) t ch c ms"
    unfolding history_text_def by (subst cstr_at_NUL) (rule refl)
  have "length (history_text (host_le E) t ch c ms) < BIG_TOKEN_NAME_LENGTH" by (simp add: history_text_def)
  from sprintf_fits [OF t, of "heap_junk E w2 BIG_TOKEN_NAME_LENGTH"] this dbs_junk [OF D] obtain r where
    r: "sprintf (heap_junk E w2 BIG_TOKEN_NAME_LENGTH) (history_text (host_le E) t ch c ms) = Inr r"
      "length r = BIG_TOKEN_NAME_LENGTH" "terminated r" "cstr r = history_text (host_le E) t ch c ms" by auto
  then have "snprintf (heap_junk E w2 BIG_TOKEN_NAME_LENGTH) BIG_TOKEN_NAME_LENGTH ?text = Inr r"
    using h by (simp add: snprintf_def sprintf_def)
  then have "read_and_read_message E s fd out n = bindR (strncpy out r (MAX_MSG_HISTORY_RES + 8)) (\<lambda>out.
      Inr ((0, out), (consume s fd (unat n))\<lparr>world := w2\<rparr>))"
    using B F L ch(3,4) w1(1) b(3) dbs_malloc [OF D] read_buffer_at [OF B] join_no_NUL [of "[ch, num]"]
    by (simp add: read_and_read_message_def c_string_terminated field_okD nul_pad_0 body_at_def)
  with b r w1(3) show ?thesis by blast
qed

section \<open>Properties\<close>

lemma read_and_create_message_spec:
  assumes "dbs E tab opn (world s) t" and "body_at s fd n tr [nm, ch, text, ts]" and "wf_cache (cache s)"
    and "length nm < DSPLY_NAME_LENGTH" "length ch < TOKEN_NAME_LENGTH" "length text < MAX_MESSAGE_SIZE" "length ts < TIMESTAMP_SIZE"
    and "nm \<noteq> ''200''" and "length token_out = TOKEN_NAME_LENGTH" "length forward = DEFAULT_BUFFER"
    and "find (\<lambda>u. user_name u = nm) (users (cache s)) = Some u" "account_view (host_le E) t (cu_uuid u) = Some a"
      "ua_privilege_level a = 0 \<or> ua_privilege_level a = 1" "login_view t (cu_login_token u) = Some l"
  shows "\<exists>r s' t'. read_and_create_message E s fd token_out forward n =
      Inr ((r, nul_pad TOKEN_NAME_LENGTH ch, nul_pad DEFAULT_BUFFER (join_fields tr [nm, ch, text, ts])), s') \<and>
    dbs E tab opn (world s') t' \<and> cache s' = cache s \<and> sent s' = sent s \<and> closed s' = closed s \<and>
    (if \<not> has_channel t ch then r = 2 \<and> t' = t
     else r = 0 \<and> (\<exists>cs c m. table_channels t cs \<and> find_channel (nul_pad TOKEN_NAME_LENGTH ch) cs = Some c \<and>
       stored_message m (ul_uuid l) (nul_pad UUID_LEN (cstr (ch_channel_id c))) text ts \<and>
       t' = tput t DB_MESSAGE_INFO (mi_message_id m) (encode_message_info m)))"
proof -
  have F: "NUL \<notin> set nm" "NUL \<notin> set ch" "NUL \<notin> set text" "NUL \<notin> set ts" using assms(2) by (simp_all add: body_at_def field_ok_def)
  let ?ch = "nul_pad TOKEN_NAME_LENGTH ch" and ?dn = "nul_pad DSPLY_NAME_LENGTH nm" and ?s = "consume s fd (unat n)"
  let ?fwd = "nul_pad DEFAULT_BUFFER (join_fields tr [nm, ch, text, ts])"
  from create_message_run [OF assms(1,2,4-10)] obtain w1 cs where w1: "dbs E tab opn w1 t" "table_channels t cs"
    and run: "read_and_create_message E s fd token_out forward n = (case find_channel ?ch cs of
       None \<Rightarrow> Inr ((2, ?ch, ?fwd), ?s\<lparr>world := w1\<rparr>)
     | Some c \<Rightarrow> bindR (store_message E w1 (cache s) ?dn c (nul_pad MAX_MESSAGE_SIZE text) (nul_pad TIMESTAMP_SIZE ts))
         (\<lambda>(r, w). Inr ((r, ?ch, ?fwd), ?s\<lparr>world := w\<rparr>)))" by blast
  have h: "find_channel ?ch cs = None \<longleftrightarrow> \<not> has_channel t ch"
    using find_channel_has [OF w1(2), of ?ch] F by (cases "find_channel ?ch cs") simp_all
  show ?thesis
  proof (cases "find_channel ?ch cs")
    case None
    then show ?thesis using run h w1(1) by auto
  next
    case (Some c)
    then have "c \<in> set cs" by (auto simp: find_channel_def find_Some_iff)
    then have c: "wf_channel_info c" by (rule table_channels_wf [OF dbsD(4) [OF assms(1)] w1(2)])
    have n: "terminated ?dn" "find (\<lambda>u. user_name u = cstr ?dn) (users (cache s)) = Some u" using F assms(4,11) by simp_all
    from store_message_spec [OF w1(1) assms(3) n assms(12-14) c F(3) assms(6) F(4) assms(7)] obtain m w2 where
      "store_message E w1 (cache s) ?dn c (nul_pad MAX_MESSAGE_SIZE text) (nul_pad TIMESTAMP_SIZE ts) = Inr (0, w2)"
      "stored_message m (ul_uuid l) (nul_pad UUID_LEN (cstr (ch_channel_id c))) text ts"
      "dbs E tab opn w2 (tput t DB_MESSAGE_INFO (mi_message_id m) (encode_message_info m))" by blast
    with Some run h w1(2) show ?thesis by auto
  qed
qed




lemma demo_message_simps:
  "mi_user_id demo_message = demo_uuid" "mi_channel_id demo_message = lit (replicate 36 CHR ''B'')"
  "mi_message_content demo_message = nul_pad 974 ''hello''"
  by (simp_all add: demo_message_def sample_message_def)

lemma demo_messages_ok [simp]: "messages_ok True demo_tables"
  unfolding messages_ok_def demo_content by (auto simp: message_ok_def demo_message_simps)

lemma demo_message_only: "table_messages demo_tables [demo_message]"
  unfolding table_messages_def demo_content by (intro exI [of _ "[lit (replicate 36 CHR ''C'')]"]) simp


text \<open>The answer to a request for the history of a channel is copied with \<open>MAX_MSG_HISTORY_RES + 8\<close> bytes, and
  \<^verbatim>\<open>strncpy\<close> fills all of them: with the array of \<open>MAX_MSG_HISTORY_RES\<close> bytes that \<^verbatim>\<open>handle_request\<close> passes, every
  well formed request for an existing channel writes eight bytes behind the array. An array with eight more bytes
  gets the channel name, the number of messages of all channels, and the first listed messages up to the end of the
  first time stamp that is shorter than its array.\<close>

lemma read_message_overflow:
  assumes "dbs E tab opn (world s) t" and "body_at s fd n tr [ch, num]" and "length ch < TOKEN_NAME_LENGTH" "length num < TOKEN_NAME_LENGTH"
    and "list_all isdigit num" and "has_channel t ch" and "messages_ok (host_le E) t"
  shows "if length out < MAX_MSG_HISTORY_RES + 8 then read_and_read_message E s fd out n = Inl BufferOverflow
    else \<exists>cs c ms out' s'. read_and_read_message E s fd out n = Inr ((0, out'), s') \<and> dbs E tab opn (world s') t \<and>
      table_channels t cs \<and> find_channel (nul_pad TOKEN_NAME_LENGTH ch) cs = Some c \<and> table_messages t ms \<and>
      cstr out' = history_text (host_le E) t ch c ms"
proof -
  from read_message_run [OF assms, of out] obtain cs c ms response w' where
    r: "table_channels t cs" "find_channel (nul_pad TOKEN_NAME_LENGTH ch) cs = Some c" "table_messages t ms"
      "terminated response" "length response = BIG_TOKEN_NAME_LENGTH" "cstr response = history_text (host_le E) t ch c ms" "dbs E tab opn w' t"
      "read_and_read_message E s fd out n = bindR (strncpy out response (MAX_MSG_HISTORY_RES + 8)) (\<lambda>out.
        Inr ((0, out), (consume s fd (unat n))\<lparr>world := w'\<rparr>))" by blast
  show ?thesis
  proof (cases "length out < MAX_MSG_HISTORY_RES + 8")
    case True
    then have "strncpy out response (MAX_MSG_HISTORY_RES + 8) = Inl BufferOverflow" using r(4) by (simp add: strncpy_def Let_def)
    with True r(8) show ?thesis by simp
  next
    case False
    have "length (cstr response) < BIG_TOKEN_NAME_LENGTH" using length_cstr_less [OF r(4)] r(5) by simp
    then have "strncpy out response (MAX_MSG_HISTORY_RES + 8) = Inr (nul_pad (MAX_MSG_HISTORY_RES + 8) (cstr response) @ drop (MAX_MSG_HISTORY_RES + 8) out)"
      "cstr (nul_pad (MAX_MSG_HISTORY_RES + 8) (cstr response) @ drop (MAX_MSG_HISTORY_RES + 8) out) = cstr response"
      using False r(4,5) by (simp_all add: strncpy_eq_Inr)
    with False r show ?thesis by auto
  qed
qed

end
