(* ===== verification/Dispatch.thy ===== *)
theory Dispatch
  imports ChannelUpdate Messages
begin

text \<open>
  \<^verbatim>\<open>handle_request\<close> of \<^verbatim>\<open>src/server.c\<close>: the header of a request selects a handler, whose result code and output array
  go to the matching response; a created message is forwarded to the connected members of its channel. The four
  definitions \<open>handle_user\<close> to \<open>handle_auth\<close> are the cases of the switch over the object.
\<close>

section \<open>Operations\<close>

abbreviation TYPE_CREATE :: "4 word" where "TYPE_CREATE \<equiv> 1"

abbreviation TYPE_READ :: "4 word" where "TYPE_READ \<equiv> 2"

abbreviation TYPE_UPDATE :: "4 word" where "TYPE_UPDATE \<equiv> 3"

abbreviation TYPE_DESTROY :: "4 word" where "TYPE_DESTROY \<equiv> 4"

abbreviation OBJECT_USER :: "8 word" where "OBJECT_USER \<equiv> 1"

abbreviation OBJECT_CHANNEL :: "8 word" where "OBJECT_CHANNEL \<equiv> 2"

abbreviation OBJECT_MESSAGE :: "8 word" where "OBJECT_MESSAGE \<equiv> 3"

abbreviation OBJECT_AUTH :: "8 word" where "OBJECT_AUTH \<equiv> 4"

definition handle_user :: "'w env \<Rightarrow> 'w server \<Rightarrow> int \<Rightarrow> chat_header \<Rightarrow> 'w server result" where
  "handle_user E s fd header =
     (if h_type header = TYPE_CREATE
      then bindR (read_and_create_user E s fd (zeros TOKEN_NAME_LENGTH) (h_body_size header)) (\<lambda>((r, token), s).
        bindR (send_create_user_response E s fd header r token) (\<lambda>(_, s). Inr s))
      else if h_type header = TYPE_READ \<or> h_type header = TYPE_UPDATE then Inr s
      else if h_type header = TYPE_DESTROY
      then bindR (read_and_destroy_user E s fd (zeros TOKEN_NAME_LENGTH) (h_body_size header)) (\<lambda>((r, token), s).
        bindR (send_destroy_user_response E s fd header r token) (\<lambda>(_, s).
        bindR (get_connected_user_by_fd (cache s) fd) (\<lambda>found.
        bindR (deref found) (\<lambda>req_sender.
          Inr (if cu_privilege_level req_sender = 0 then sys_close fd s else s)))))
      else Inl AssertFailed)"

definition handle_channel :: "'w env \<Rightarrow> 'w server \<Rightarrow> int \<Rightarrow> chat_header \<Rightarrow> bytes \<Rightarrow> 'w server result" where
  "handle_channel E s fd header clnt_addr =
     (if h_type header = TYPE_CREATE
      then bindR (read_and_create_channel E s fd (zeros TOKEN_NAME_LENGTH) (h_body_size header) clnt_addr) (\<lambda>((r, token), s).
        bindR (send_create_channel_response E s fd header r token) (\<lambda>(_, s). Inr s))
      else if h_type header = TYPE_READ
      then bindR (read_and_read_channel E s fd (zeros TEMP_CHANNEL_INFO_LENGTH) (h_body_size header)) (\<lambda>((r, info), s).
        bindR (send_read_channel_response E s fd header r info) (\<lambda>(_, s). Inr s))
      else if h_type header = TYPE_UPDATE
      then bindR (read_and_update_channel E s fd (zeros TEMP_CHANNEL_INFO_LENGTH) (h_body_size header)) (\<lambda>((r, info), s).
        bindR (send_update_channel_response E s fd header r info) (\<lambda>(_, s). Inr s))
      else if h_type header = TYPE_DESTROY then Inr s
      else Inl AssertFailed)"

text \<open>The loop over the connected users: each one that is a member of the channel gets the message.\<close>

fun forward_loop ::
  "'w env \<Rightarrow> 'w server \<Rightarrow> chat_header \<Rightarrow> bytes \<Rightarrow> channel_info option \<Rightarrow> connected_user list \<Rightarrow> 'w server result"
where
  "forward_loop E s header forward_token channel [] = Inr s"
| "forward_loop E s header forward_token channel (u # us) =
     bindR (check_if_user_in_channel (cu_dsply_name u) channel) (\<lambda>is_member.
     bindR (if is_member then send_create_message_response E s (cu_fd u) header 5 forward_token else Inr (0, s)) (\<lambda>(_, s).
       forward_loop E s header forward_token channel us))"

text \<open>The array \<^verbatim>\<open>forward_token\<close> is not initialised.\<close>

definition handle_message :: "'w env \<Rightarrow> 'w server \<Rightarrow> int \<Rightarrow> chat_header \<Rightarrow> 'w server result" where
  "handle_message E s fd header =
     (if h_type header = TYPE_CREATE
      then bindR (read_and_create_message E s fd (zeros TOKEN_NAME_LENGTH) (heap_junk E (world s) DEFAULT_BUFFER)
          (h_body_size header)) (\<lambda>((r, token, forward_token), s).
        if r = 69 then Inr s
        else bindR (send_create_message_response E s fd header r token) (\<lambda>(_, s).
        bindR (get_channel_info_malloc_or_null E (world s) token) (\<lambda>(current_channel, w).
        bindR (get_num_connected_users (cache s)) (\<lambda>n.
          forward_loop E (s\<lparr>world := w\<rparr>) header forward_token current_channel (take n (cache s))))))
      else if h_type header = TYPE_READ
      then bindR (read_and_read_message E s fd (zeros MAX_MSG_HISTORY_RES) (h_body_size header)) (\<lambda>((r, xl_token), s).
        bindR (send_read_message_response E s fd header r xl_token) (\<lambda>(_, s). Inr s))
      else if h_type header = TYPE_UPDATE \<or> h_type header = TYPE_DESTROY then Inr s
      else Inl AssertFailed)"

definition handle_auth :: "'w env \<Rightarrow> 'w server \<Rightarrow> int \<Rightarrow> chat_header \<Rightarrow> bytes \<Rightarrow> 'w server result" where
  "handle_auth E s fd header clnt_addr =
     (if h_type header = TYPE_CREATE
      then bindR (read_and_login_user E s fd (zeros BIG_TOKEN_NAME_LENGTH) clnt_addr (h_body_size header)) (\<lambda>((r, big_token), s).
        bindR (send_login_user_response E s fd header r big_token) (\<lambda>(_, s). Inr s))
      else if h_type header = TYPE_UPDATE then Inr s
      else if h_type header = TYPE_DESTROY
      then bindR (read_and_logout_user E s fd (zeros TOKEN_NAME_LENGTH) clnt_addr (h_body_size header)) (\<lambda>((r, token), s).
        bindR (send_logout_user_response E s fd header r token) (\<lambda>(_, s). Inr s))
      else Inl AssertFailed)"

definition handle_request :: "'w env \<Rightarrow> 'w server \<Rightarrow> int \<Rightarrow> bytes \<Rightarrow> (int \<times> 'w server) result" where
  "handle_request E s fd clnt_addr =
     bindR (read_header E s fd) (\<lambda>((r, header), s).
       if r < 0 then Inr (-1, s)
       else if h_version header \<noteq> CURRENT_VERSION then Inr (2, s)
       else bindR (if h_object header = OBJECT_USER then handle_user E s fd header
         else if h_object header = OBJECT_CHANNEL then handle_channel E s fd header clnt_addr
         else if h_object header = OBJECT_MESSAGE then handle_message E s fd header
         else if h_object header = OBJECT_AUTH then handle_auth E s fd header clnt_addr
         else Inr s) (\<lambda>s. Inr (0, s)))"

section \<open>Lemmas\<close>

text \<open>A whole request waits on a descriptor: its header, of the current version, and the fields of its body.\<close>

definition frame_at :: "'w server \<Rightarrow> int \<Rightarrow> chat_header \<Rightarrow> bool \<Rightarrow> string list \<Rightarrow> bool" where
  "frame_at s fd h tr fs \<longleftrightarrow> pending s fd = wire_header h @ join_fields tr fs \<and> list_all field_ok fs \<and> fs \<noteq> [] \<and>
     unat (h_body_size h) = length (join_fields tr fs) \<and> length (join_fields tr fs) < DEFAULT_BUFFER \<and> h_version h = CURRENT_VERSION"

definition after_header :: "'w server \<Rightarrow> int \<Rightarrow> 'w server" where
  "after_header s fd = consume (consume s fd 1) fd 3"

lemma after_header_simps [simp]:
  "world (after_header s fd) = world s" "sent (after_header s fd) = sent s" "closed (after_header s fd) = closed s"
  "cache (after_header s fd) = cache s"
  by (simp_all add: after_header_def)

lemma frame_read:
  assumes "frame_at s fd h tr fs"
  shows "read_header E s fd = Inr ((0, h), after_header s fd)" "body_at (after_header s fd) fd (h_body_size h) tr fs"
proof -
  have p: "pending s fd = wire_header h @ join_fields tr fs" "join_fields tr fs \<noteq> []"
    using assms by (cases fs; auto simp: frame_at_def join_nonempty)+
  show "read_header E s fd = Inr ((0, h), after_header s fd)"
    unfolding after_header_def by (rule read_header_spec [OF p(1)])
  have "pending (consume s fd 1) fd = drop 1 (wire_header h) @ join_fields tr fs"
    using p pending_consume [of 1 s fd] by simp
  then have "pending (after_header s fd) fd = join_fields tr fs"
    using p pending_consume [of 3 "consume s fd 1" fd] by (simp add: after_header_def)
  then show "body_at (after_header s fd) fd (h_body_size h) tr fs"
    using assms by (auto simp: frame_at_def body_at_def)
qed

lemma handle_request_frame:
  assumes "frame_at s fd h tr fs"
  shows "handle_request E s fd addr = bindR (let s = after_header s fd in
      if h_object h = OBJECT_USER then handle_user E s fd h
      else if h_object h = OBJECT_CHANNEL then handle_channel E s fd h addr
      else if h_object h = OBJECT_MESSAGE then handle_message E s fd h
      else if h_object h = OBJECT_AUTH then handle_auth E s fd h addr else Inr s) (\<lambda>s. Inr (0, s))"
  using frame_read(1) [OF assms, of E] assms by (simp add: handle_request_def frame_at_def Let_def)

subsection \<open>Forwarding\<close>

definition is_member :: "channel_info \<Rightarrow> connected_user \<Rightarrow> bool" where
  "is_member c u \<longleftrightarrow> user_name u \<in> cstr ` set (ch_user_list c)"

lemma in_user_list_spec:
  assumes "names_ok xs" "terminated nm" "cstr nm \<noteq> []"
  shows "in_user_list nm xs = Inr (cstr nm \<in> cstr ` set xs)"
  using assms(1)
proof (induction xs)
  case (Cons x xs)
  have x: "length x = TOKEN_NAME_LENGTH" "terminated x" "names_ok xs" "x \<noteq> []" using Cons.prems by auto
  have e: "x ! 0 = NUL \<longleftrightarrow> cstr x = []" using x(4) by (cases x) auto
  from Cons.IH [OF x(3)] x(2,4) e assms(2,3) show ?case by (auto simp: strcmp_eq_terminated)
qed simp

lemma check_member_spec:
  assumes "channel_strings c" "wf_user u" "used u"
  shows "check_if_user_in_channel (cu_dsply_name u) (Some c) = Inr (is_member c u)"
  using assms by (simp add: check_if_user_in_channel_def in_user_list_spec channel_strings_def wf_user_def used_def is_member_def)

lemma forward_loop_spec:
  assumes C: "channel_strings c" and U: "\<And>u. u \<in> set us \<Longrightarrow> wf_user u \<and> used u"
    and F: "terminated fwd" "length (cstr fwd) + 4 < DEFAULT_BUFFER" and W: "\<And>u. u \<in> set us \<Longrightarrow> can_write E s (cu_fd u)"
  shows "forward_loop E s h fwd (Some c) us = Inr (s\<lparr>sent := sent s @
    concat (map (\<lambda>u. framed h (cu_fd u) (msg ''200'' @ cstr fwd)) (filter (is_member c) us))\<rparr>)"
  using U W
proof (induction us arbitrary: s)
  case (Cons u us)
  have m: "check_if_user_in_channel (cu_dsply_name u) (Some c) = Inr (is_member c u)"
    using check_member_spec [OF C] Cons.prems(1) by simp
  let ?s = "s\<lparr>sent := sent s @ framed h (cu_fd u) (msg ''200'' @ cstr fwd)\<rparr>"
  have d: "send_create_message_response E s (cu_fd u) h 5 fwd = Inr (0, ?s)"
    using r_create_message.delivered [of E s "cu_fd u" fwd 5 "msg ''200'' @ cstr fwd" h] Cons.prems(2) F
    by (simp add: create_message_reply_def keep_open_def)
  have w: "can_write E ?s (cu_fd v)" if "v \<in> set us" for v
    using Cons.prems(2) that by (simp add: can_write_def)
  show ?case using m d Cons.IH [of s] Cons.IH [of ?s] Cons.prems w by simp
qed simp

lemma forward_loop_survives:
  assumes C: "channel_strings c" and U: "\<And>u. u \<in> set us \<Longrightarrow> wf_user u \<and> used u"
    and F: "terminated fwd" "length (cstr fwd) + 4 < DEFAULT_BUFFER"
  shows "\<exists>s'. forward_loop E s h fwd (Some c) us = Inr s' \<and> world s' = world s \<and> cache s' = cache s"
  using U
proof (induction us arbitrary: s)
  case (Cons u us)
  have m: "check_if_user_in_channel (cu_dsply_name u) (Some c) = Inr (is_member c u)"
    using check_member_spec [OF C] Cons.prems(1) by simp
  obtain q s1 where s1: "send_create_message_response E s (cu_fd u) h 5 fwd = Inr (q, s1)" "world s1 = world s" "cache s1 = cache s"
    using r_create_message.survives [of fwd 5 "msg ''200'' @ cstr fwd" E s "cu_fd u" h] F by (auto simp: create_message_reply_def)
  obtain s2 where "forward_loop E s1 h fwd (Some c) us = Inr s2" "world s2 = world s1" "cache s2 = cache s1"
    using Cons.IH [of s1] Cons.prems by auto
  moreover obtain s3 where "forward_loop E s h fwd (Some c) us = Inr s3" "world s3 = world s" "cache s3 = cache s"
    using Cons.IH [of s] Cons.prems by auto
  ultimately show ?case using m s1 by (cases "is_member c u") auto
qed simp

lemma table_channels_cong: "content t' DB_CHANNEL_INFO = content t DB_CHANNEL_INFO \<Longrightarrow> table_channels t' cs \<longleftrightarrow> table_channels t cs"
  by (simp add: table_channels_def)

lemma has_channel_cong: "content t' DB_CHANNEL_INFO = content t DB_CHANNEL_INFO \<Longrightarrow> has_channel t' ch \<longleftrightarrow> has_channel t ch"
  by (simp add: has_channel_def)

text \<open>The request of a connected sender with login and account, whose body and answers fit their arrays.\<close>

definition message_request ::
  "'w env \<Rightarrow> 'w server \<Rightarrow> table_state \<Rightarrow> int \<Rightarrow> chat_header \<Rightarrow> bool \<Rightarrow> string \<Rightarrow> string \<Rightarrow> string \<Rightarrow> string \<Rightarrow> user_login \<Rightarrow> bool"
where
  "message_request E s t fd h tr nm ch text ts l \<longleftrightarrow> frame_at s fd h tr [nm, ch, text, ts] \<and> h_object h = OBJECT_MESSAGE \<and> h_type h = TYPE_CREATE \<and>
     length nm < DSPLY_NAME_LENGTH \<and> length ch < TOKEN_NAME_LENGTH \<and> length text < MAX_MESSAGE_SIZE \<and> length ts < TIMESTAMP_SIZE \<and>
     length (join_fields tr [nm, ch, text, ts]) + 4 < DEFAULT_BUFFER \<and> nm \<noteq> ''200'' \<and>
     (\<exists>u a. find (\<lambda>u. user_name u = nm) (users (cache s)) = Some u \<and> account_view (host_le E) t (cu_uuid u) = Some a \<and>
       (ua_privilege_level a = 0 \<or> ua_privilege_level a = 1) \<and> login_view t (cu_login_token u) = Some l)"

lemma message_created:
  assumes D: "dbs E tab opn (world s) t" and K: "wf_cache (cache s)" and M: "message_request E s t fd h tr nm ch text ts l"
  shows "\<exists>r s1 t'. read_and_create_message E (after_header s fd) fd (zeros TOKEN_NAME_LENGTH) (heap_junk E (world s) DEFAULT_BUFFER) (h_body_size h) =
      Inr ((r, nul_pad TOKEN_NAME_LENGTH ch, nul_pad DEFAULT_BUFFER (join_fields tr [nm, ch, text, ts])), s1) \<and>
    dbs E tab opn (world s1) t' \<and> cache s1 = cache s \<and> sent s1 = sent s \<and> closed s1 = closed s \<and>
    (if \<not> has_channel t ch then r = 2 \<and> t' = t
     else r = 0 \<and> (\<exists>cs c m. table_channels t cs \<and> find_channel (nul_pad TOKEN_NAME_LENGTH ch) cs = Some c \<and>
       stored_message m (ul_uuid l) (nul_pad UUID_LEN (cstr (ch_channel_id c))) text ts \<and>
       t' = tput t DB_MESSAGE_INFO (mi_message_id m) (encode_message_info m)))"
proof -
  from M obtain u a where u: "find (\<lambda>u. user_name u = nm) (users (cache s)) = Some u" "account_view (host_le E) t (cu_uuid u) = Some a"
    "ua_privilege_level a = 0 \<or> ua_privilege_level a = 1" "login_view t (cu_login_token u) = Some l" "frame_at s fd h tr [nm, ch, text, ts]"
    by (auto simp: message_request_def)
  have "length (heap_junk E (world s) DEFAULT_BUFFER) = DEFAULT_BUFFER" by (rule dbs_junk [OF D])
  with read_and_create_message_spec [of E tab opn "after_header s fd" t fd "h_body_size h" tr nm ch "text" ts "zeros TOKEN_NAME_LENGTH"
      "heap_junk E (world s) DEFAULT_BUFFER" u a l] D K M u frame_read(2) [OF u(5)]
  show ?thesis by (simp add: message_request_def)
qed

lemma message_handled:
  assumes D: "dbs E tab opn (world s) t" and K: "wf_cache (cache s)" and M: "message_request E s t fd h tr nm ch text ts l"
  shows "\<exists>s1 t'. dbs E tab opn (world s1) t' \<and> cache s1 = cache s \<and> sent s1 = sent s \<and> closed s1 = closed s \<and>
    content t' DB_CHANNEL_INFO = content t DB_CHANNEL_INFO \<and> (if \<not> has_channel t ch then t' = t
      else \<exists>cs c m. table_channels t cs \<and> find_channel (nul_pad TOKEN_NAME_LENGTH ch) cs = Some c \<and>
       stored_message m (ul_uuid l) (nul_pad UUID_LEN (cstr (ch_channel_id c))) text ts \<and>
       t' = tput t DB_MESSAGE_INFO (mi_message_id m) (encode_message_info m)) \<and>
    handle_request E s fd addr = bindR (bindR
      (send_create_message_response E s1 fd h (if has_channel t ch then 0 else 2) (nul_pad TOKEN_NAME_LENGTH ch)) (\<lambda>(_, s).
        bindR (get_channel_info_malloc_or_null E (world s) (nul_pad TOKEN_NAME_LENGTH ch)) (\<lambda>(current_channel, w).
        bindR (get_num_connected_users (cache s)) (\<lambda>n.
          forward_loop E (s\<lparr>world := w\<rparr>) h (nul_pad DEFAULT_BUFFER (join_fields tr [nm, ch, text, ts])) current_channel (take n (cache s))))))
      (\<lambda>s. Inr (0, s))"
proof -
  from message_created [OF assms] obtain r s1 t' where
    c: "read_and_create_message E (after_header s fd) fd (zeros TOKEN_NAME_LENGTH) (heap_junk E (world s) DEFAULT_BUFFER) (h_body_size h) =
      Inr ((r, nul_pad TOKEN_NAME_LENGTH ch, nul_pad DEFAULT_BUFFER (join_fields tr [nm, ch, text, ts])), s1)"
    "dbs E tab opn (world s1) t'" "cache s1 = cache s" "sent s1 = sent s" "closed s1 = closed s"
    and t: "if \<not> has_channel t ch then r = 2 \<and> t' = t
     else r = 0 \<and> (\<exists>cs c m. table_channels t cs \<and> find_channel (nul_pad TOKEN_NAME_LENGTH ch) cs = Some c \<and>
       stored_message m (ul_uuid l) (nul_pad UUID_LEN (cstr (ch_channel_id c))) text ts \<and>
       t' = tput t DB_MESSAGE_INFO (mi_message_id m) (encode_message_info m))" by blast
  have r: "r = (if has_channel t ch then 0 else 2)" "r \<noteq> 69" using t by (auto split: if_splits)
  have k: "content t' DB_CHANNEL_INFO = content t DB_CHANNEL_INFO" using t by (auto split: if_splits)
  have f: "frame_at s fd h tr [nm, ch, text, ts]" "h_object h = OBJECT_MESSAGE" "h_type h = TYPE_CREATE"
    using M by (simp_all add: message_request_def)
  have "handle_request E s fd addr = bindR (bindR
      (send_create_message_response E s1 fd h r (nul_pad TOKEN_NAME_LENGTH ch)) (\<lambda>(_, s).
        bindR (get_channel_info_malloc_or_null E (world s) (nul_pad TOKEN_NAME_LENGTH ch)) (\<lambda>(current_channel, w).
        bindR (get_num_connected_users (cache s)) (\<lambda>n.
          forward_loop E (s\<lparr>world := w\<rparr>) h (nul_pad DEFAULT_BUFFER (join_fields tr [nm, ch, text, ts])) current_channel (take n (cache s))))))
      (\<lambda>s. Inr (0, s))"
    unfolding handle_request_frame [OF f(1)] using f(2,3) c(1) r(2) by (simp add: handle_message_def Let_def)
  with c(2-5) k t show ?thesis unfolding r(1)
    by (intro exI [of _ s1] exI [of _ t']) (auto split: if_splits)
qed

lemma channel_for_forwarding:
  assumes "dbs E tab opn w t'" and "content t' DB_CHANNEL_INFO = content t DB_CHANNEL_INFO" and "NUL \<notin> set ch" "length ch < TOKEN_NAME_LENGTH"
  shows "\<exists>w' cs. get_channel_info_malloc_or_null E w (nul_pad TOKEN_NAME_LENGTH ch) = Inr (find_channel (nul_pad TOKEN_NAME_LENGTH ch) cs, w') \<and>
    dbs E tab opn w' t' \<and> table_channels t cs \<and> (find_channel (nul_pad TOKEN_NAME_LENGTH ch) cs \<noteq> None \<longleftrightarrow> has_channel t ch)"
proof -
  have "terminated (nul_pad TOKEN_NAME_LENGTH ch)" "cstr (nul_pad TOKEN_NAME_LENGTH ch) = ch" using assms(3,4) by simp_all
  with dbs_get_channel [OF assms(1)] table_channels_cong [OF assms(2)] find_channel_has show ?thesis by metis
qed

lemma wf_cache_users:
  assumes "wf_cache c" "u \<in> set (users c)"
  shows "wf_user u \<and> used u"
  using assms wf_users by (auto simp: users_def dest: set_takeWhileD)

section \<open>Properties\<close>


definition demo_message_request :: "string \<Rightarrow> mem_world server" where
  "demo_message_request ch =
     demo_state (wire_header \<lparr>h_version = 1, h_type = 1, h_object = 3, h_body_size = word_of_nat (25 + length ch)\<rparr> @
       join_fields False [''benny'', ch, ''good morning'', ''12:00''])"

lemma demo_message_request:
  assumes "field_ok ch" "length ch < TOKEN_NAME_LENGTH"
  shows "message_request mem_env (demo_message_request ch) demo_tables 5
    \<lparr>h_version = 1, h_type = 1, h_object = 3, h_body_size = word_of_nat (25 + length ch)\<rparr> False ''benny'' ch ''good morning'' ''12:00'' demo_login"
proof -
  have "unat (word_of_nat (25 + length ch) :: 16 word) = 25 + length ch" using assms(2) by (simp add: unat_of_nat del: of_nat_add)
  with assms show ?thesis
    by (auto simp: message_request_def demo_message_request_def frame_at_def field_ok_def join_fields.simps)
qed

lemma demo_message_request_simps [simp]:
  "world (demo_message_request ch) = demo_world" "cache (demo_message_request ch) = demo_cache" "closed (demo_message_request ch) = []"
  "sent (demo_message_request ch) = []"
  by (simp_all add: demo_message_request_def)


text \<open>A message to a channel that does not exist. The sender is answered 404, but the loop that forwards the
  message then reads the members of the channel that was not found: with any user connected, and the sender is one,
  the server dies of a NULL pointer.\<close>

lemma message_to_missing_channel:
  assumes "dbs E tab opn (world s) t" and "wf_cache (cache s)" and "message_request E s t fd h tr nm ch text ts l" and "\<not> has_channel t ch"
  shows "handle_request E s fd addr = Inl NullDeref"
proof -
  let ?ch = "nul_pad TOKEN_NAME_LENGTH ch" and ?fwd = "nul_pad DEFAULT_BUFFER (join_fields tr [nm, ch, text, ts])"
  have f: "NUL \<notin> set ch" "length ch < TOKEN_NAME_LENGTH"
    using assms(3) by (auto simp: message_request_def frame_at_def field_ok_def)
  from message_handled [OF assms(1-3), where addr = addr] assms(4) obtain s1 where
    s1: "dbs E tab opn (world s1) t" "cache s1 = cache s"
    and run: "handle_request E s fd addr = bindR (bindR (send_create_message_response E s1 fd h 2 ?ch) (\<lambda>(_, s).
        bindR (get_channel_info_malloc_or_null E (world s) ?ch) (\<lambda>(current_channel, w).
        bindR (get_num_connected_users (cache s)) (\<lambda>n.
          forward_loop E (s\<lparr>world := w\<rparr>) h ?fwd current_channel (take n (cache s)))))) (\<lambda>s. Inr (0, s))"
    by (auto split: if_splits)
  obtain q s2 where s2: "send_create_message_response E s1 fd h 2 ?ch = Inr (q, s2)" "world s2 = world s1" "cache s2 = cache s"
    using r_create_message.survives [of ?ch 2 "msg ''404'' @ ''Channel does not exist'' @ ch" E s1 fd h] f s1(2)
    by (auto simp: create_message_reply_def msg_def)
  obtain w' where c: "get_channel_info_malloc_or_null E (world s1) ?ch = Inr (None, w')"
    using channel_for_forwarding [OF s1(1) refl f] assms(4) by metis
  have "users (cache s) \<noteq> []" using assms(3) by (auto simp: message_request_def)
  then obtain u us where u: "take (length (users (cache s))) (cache s) = u # us"
    by (cases "users (cache s)") (simp_all add: users_def takeWhile_eq_take [symmetric])
  show ?thesis using run s2 c u assms(2) by (simp add: check_if_user_in_channel_def)
qed

text \<open>C40: the dispatch itself. A request of another protocol version is refused with code 2 after its header, its body
  stays unread; a request about an unknown object is silently accepted, also unread; an unknown operation on a known
  object, and reading an authentication, stops the server at an assertion. None of them reaches the databases.\<close>

theorem handle_request_rejects:
  assumes "pending s fd = wire_header h @ rest"
  shows "(h_version h \<noteq> CURRENT_VERSION \<longrightarrow> handle_request E s fd addr = Inr (2, after_header s fd)) \<and>
    (h_version h = CURRENT_VERSION \<and> h_object h \<notin> {OBJECT_USER, OBJECT_CHANNEL, OBJECT_MESSAGE, OBJECT_AUTH} \<longrightarrow>
      handle_request E s fd addr = Inr (0, after_header s fd)) \<and>
    (h_version h = CURRENT_VERSION \<and> h_object h \<in> {OBJECT_USER, OBJECT_CHANNEL, OBJECT_MESSAGE, OBJECT_AUTH} \<and>
      (h_type h \<notin> {TYPE_CREATE, TYPE_READ, TYPE_UPDATE, TYPE_DESTROY} \<or> h_object h = OBJECT_AUTH \<and> h_type h = TYPE_READ) \<longrightarrow>
      handle_request E s fd addr = Inl AssertFailed)"
  using read_header_spec [OF assms, of E, folded after_header_def]
  by (auto simp: handle_request_def handle_user_def handle_channel_def handle_message_def handle_auth_def)

theorem handle_request_rejects_witness:
  "(\<exists>s'. handle_request mem_env (demo_state (wire_header \<lparr>h_version = 2, h_type = 1, h_object = 3, h_body_size = 4\<rparr> @ ''abcd'')) 5 [] = Inr (2, s')) \<and>
   handle_request mem_env (demo_state (wire_header \<lparr>h_version = 1, h_type = 2, h_object = 4, h_body_size = 4\<rparr> @ ''abcd'')) 5 [] = Inl AssertFailed"
  using handle_request_rejects [of "demo_state (wire_header \<lparr>h_version = 2, h_type = 1, h_object = 3, h_body_size = 4\<rparr> @ ''abcd'')" 5
      "\<lparr>h_version = 2, h_type = 1, h_object = 3, h_body_size = 4\<rparr>" "''abcd''" mem_env "[]"]
    handle_request_rejects [of "demo_state (wire_header \<lparr>h_version = 1, h_type = 2, h_object = 4, h_body_size = 4\<rparr> @ ''abcd'')" 5
      "\<lparr>h_version = 1, h_type = 2, h_object = 4, h_body_size = 4\<rparr>" "''abcd''" mem_env "[]"]
  by simp

end
