(* ===== verification/Init.thy ===== *)
theory Init
  imports Channels
begin

text \<open>
  The initial content of the databases: \<^verbatim>\<open>create_admin\<close> and \<^verbatim>\<open>create_global_channel\<close> of \<^verbatim>\<open>src/my_ndbm.c\<close>, which
  \<^verbatim>\<open>run_server\<close> calls before its loop. The theorems describe the effect on the tables and show that a restart
  changes nothing.
\<close>

section \<open>Operations\<close>

definition admin_uuid :: string where
  "admin_uuid = ''00000000-0000-0000-0000-000000000000''"

definition create_admin :: "'w env \<Rightarrow> 'w \<Rightarrow> (int \<times> 'w) result" where
  "create_admin E w =
     (if \<not> malloc_ok E w UUID_LEN then Inl NullDeref
      else bindR (strncpy (heap_junk E w UUID_LEN) (lit admin_uuid) UUID_LEN) (\<lambda>uuid_string.
        let admin_name = nul_pad TOKEN_NAME_LENGTH ''admin''
        in bindR (check_duplicate_display_name E w admin_name) (\<lambda>(is_display_name_duplicates, w).
        if is_display_name_duplicates then Inr (-1, w)
        else
          let admin_login = \<lparr>ul_login_token = nul_pad TOKEN_NAME_LENGTH ''admin'', ul_password = nul_pad PSWD_MAX_LENGTH ''admin'',
                ul_uuid = nul_pad UUID_LEN admin_uuid\<rparr>
          in bindR (generate_user_account_malloc_or_null E w (Some (lit admin_uuid)) (lit ''admin'')) (\<lambda>admin_account.
          bindR (insert_display_name E w admin_name uuid_string) (\<lambda>(display_name_result, w).
          bindR (insert_user_login E w admin_login) (\<lambda>(login_result, w).
          bindR (bindR (deref admin_account) (insert_user_account E w)) (\<lambda>(account_result, w).
          bindR (assertR (account_result = 0 \<and> login_result = 0 \<and> display_name_result = 0)) (\<lambda>_. Inr (0, w)))))))))"

definition create_global_channel :: "'w env \<Rightarrow> 'w \<Rightarrow> (int \<times> 'w) result" where
  "create_global_channel E w =
     bindR (create_channel_or_null_malloc E w (lit ''global'') (lit ''admin'') False) (\<lambda>(channel, w).
     bindR (check_duplicate_channel_name E w (lit ''global'')) (\<lambda>(dup, w).
     if dup then Inr (-1, w)
     else bindR (assertR (channel \<noteq> None)) (\<lambda>_.
     bindR (bindR (deref channel) (insert_channel_info E w)) (\<lambda>(r, w).
     if r \<noteq> 0 then Inr (-1, w) else Inr (0, w)))))"

text \<open>Lines 226 to 229 of \<^verbatim>\<open>run_server\<close>.\<close>

definition init_databases :: "'w env \<Rightarrow> 'w \<Rightarrow> 'w result" where
  "init_databases E w =
     bindR (create_admin E w) (\<lambda>(_, w). bindR (create_global_channel E w) (\<lambda>(_, w). Inr w))"

section \<open>Lemmas\<close>

abbreviation admin_key :: bytes where "admin_key \<equiv> nul_pad TOKEN_NAME_LENGTH ''admin''"

lemma admin_uuid_text [simp]: "uuid_text (lit admin_uuid)" "length (lit admin_uuid) = UUID_LEN" "nul_pad UUID_LEN admin_uuid = lit admin_uuid"
  by (simp_all add: uuid_text_def admin_uuid_def lit_def nul_pad_def zeros_def cstr_append)

definition admin_tables :: "bool \<Rightarrow> table_state \<Rightarrow> table_state" where
  "admin_tables le t = tput (tput (tput t DB_DISPLAY_NAMES admin_key (lit admin_uuid))
     DB_LOGIN_INFO admin_key (encode_user_login (new_login ''admin'' ''admin'' (lit admin_uuid))))
     DB_USER_ACCOUNT (lit admin_uuid) (encode_user_account le (new_account (lit admin_uuid) ''admin''))"

lemma admin_fields [simp]: "field_ok ''admin''" "field_ok ''global''"
  by (simp_all add: field_ok_def)

lemma create_admin_spec:
  assumes D: "dbs E tab opn w t"
  shows "\<exists>w'. if name_view t admin_key \<noteq> None then create_admin E w = Inr (-1, w') \<and> dbs E tab opn w' t
    else create_admin E w = Inr (0, w') \<and> dbs E tab opn w' (admin_tables (host_le E) t)"
proof -
  have u: "strncpy (heap_junk E w UUID_LEN) (lit admin_uuid) UUID_LEN = Inr (lit admin_uuid)"
    using dbs_junk [OF D] by (simp add: strncpy_uuid_text)
  obtain w1 where w1: "check_duplicate_display_name E w admin_key = Inr (name_view t admin_key \<noteq> None, w1)" "dbs E tab opn w1 t"
    using dbs_check_name [OF D, of admin_key] by auto
  have F: "field_ok ''admin''" by simp
  note l = new_login_ok [OF F F, of "lit admin_uuid"] and a = new_account_ok [OF F, of "lit admin_uuid"]
  obtain w2 where w2: "insert_display_name E w1 admin_key (lit admin_uuid) = Inr (0, w2)"
    "dbs E tab opn w2 (tput t DB_DISPLAY_NAMES admin_key (lit admin_uuid))"
    using dbs_put_name [OF w1(2), of admin_key "lit admin_uuid"] by auto
  obtain w3 where w3: "insert_user_login E w2 (new_login ''admin'' ''admin'' (lit admin_uuid)) = Inr (0, w3)"
    "dbs E tab opn w3 (tput (tput t DB_DISPLAY_NAMES admin_key (lit admin_uuid))
      DB_LOGIN_INFO admin_key (encode_user_login (new_login ''admin'' ''admin'' (lit admin_uuid))))"
    using dbs_put_login [OF w2(2), of "new_login ''admin'' ''admin'' (lit admin_uuid)"] l by (auto simp: new_login_def)
  obtain w4 where w4: "insert_user_account E w3 (new_account (lit admin_uuid) ''admin'') = Inr (0, w4)"
    "dbs E tab opn w4 (admin_tables (host_le E) t)"
    using dbs_put_account [OF w3(2), of "new_account (lit admin_uuid) ''admin''"] a by (auto simp: new_account_def admin_tables_def)
  have g: "generate_user_account_malloc_or_null E w1 (Some (lit admin_uuid)) (lit ''admin'') = Inr (Some (new_account (lit admin_uuid) ''admin''))"
    using dbs_malloc [OF D]
    by (simp add: generate_user_account_malloc_or_null_def new_account_def strncpy_uuid_text clib)
  have n: "\<lparr>ul_login_token = admin_key, ul_password = nul_pad PSWD_MAX_LENGTH ''admin'', ul_uuid = nul_pad UUID_LEN admin_uuid\<rparr> =
      new_login ''admin'' ''admin'' (lit admin_uuid)"
    by (simp add: new_login_def)
  show ?thesis
  proof (cases "name_view t admin_key")
    case None
    then have "create_admin E w = Inr (0, w4)"
      using u w1(1) w2(1) w3(1) w4(1) g n dbs_malloc [OF D] by (simp add: create_admin_def Let_def)
    with None w4(2) show ?thesis by auto
  next
    case (Some x)
    then have "create_admin E w = Inr (-1, w1)"
      using u w1(1) dbs_malloc [OF D] by (simp add: create_admin_def Let_def)
    with Some w1(2) show ?thesis by auto
  qed
qed

lemma create_global_spec:
  assumes D: "dbs E tab opn w t"
  shows "\<exists>w' uuid. if has_channel t ''global'' then create_global_channel E w = Inr (-1, w') \<and> dbs E tab opn w' t
    else create_global_channel E w = Inr (0, w') \<and> uuid_text uuid \<and>
      dbs E tab opn w' (tput t DB_CHANNEL_INFO uuid (encode_channel_info (new_channel uuid ''global'' ''admin'' False)))"
proof -
  obtain u w1 where u: "generate_random_uuid_malloc E w = (Some (lit u), w1)" "dbs E tab opn w1 t" "uuid_text (lit u)"
    using dbs_uuid [OF D] by blast
  have c: "create_channel_or_null_malloc E w (lit ''global'') (lit ''admin'') False = Inr (Some (new_channel (lit u) ''global'' ''admin'' False), w1)"
    using u dbs_malloc [OF D]
    by (simp add: create_channel_or_null_malloc_def new_channel_def strncpy_uuid_text Let_def clib)
  obtain w2 where w2: "check_duplicate_channel_name E w1 (lit ''global'') = Inr (has_channel t ''global'', w2)" "dbs E tab opn w2 t"
    using dbs_check_channel [OF u(2), of "lit ''global''"] find_channel_has by fastforce
  note n = new_channel_ok [OF u(3), of "''global''" "''admin''" False]
  obtain w3 where w3: "insert_channel_info E w2 (new_channel (lit u) ''global'' ''admin'' False) = Inr (0, w3)"
    "dbs E tab opn w3 (tput t DB_CHANNEL_INFO (lit u) (encode_channel_info (new_channel (lit u) ''global'' ''admin'' False)))"
    using dbs_put_channel [OF w2(2), of "new_channel (lit u) ''global'' ''admin'' False"] n by auto
  show ?thesis
  proof (cases "has_channel t ''global''")
    case True
    then have "create_global_channel E w = Inr (-1, w2)" using c w2(1) by (simp add: create_global_channel_def)
    with True w2(2) show ?thesis by auto
  next
    case False
    then have "create_global_channel E w = Inr (0, w3)" using c w2(1) w3(1) by (simp add: create_global_channel_def)
    with False w3(2) u(3) show ?thesis by auto
  qed
qed

lemma admin_views:
  shows "name_view (admin_tables le t) = (name_view t)(admin_key \<mapsto> lit admin_uuid)"
    "login_view (admin_tables le t) = (login_view t)(admin_key \<mapsto> new_login ''admin'' ''admin'' (lit admin_uuid))"
    "account_view le (admin_tables le t) = (account_view le t)(lit admin_uuid \<mapsto> new_account (lit admin_uuid) ''admin'')"
  using new_login_ok [of "''admin''" "''admin''" "lit admin_uuid"] new_account_ok [of "''admin''" "lit admin_uuid"]
  by (simp_all add: admin_tables_def)

lemma has_new_channel:
  assumes "uuid_text u" "field_ok ch" "field_ok nm" "length ch < TOKEN_NAME_LENGTH" "length nm < TOKEN_NAME_LENGTH"
  shows "has_channel (tput t DB_CHANNEL_INFO u (encode_channel_info (new_channel u ch nm publ))) ch"
proof -
  have "wf_channel_info (new_channel u ch nm publ)" using new_channel_ok(1) [OF assms(1)] assms(2-5) by (simp add: field_okD)
  moreover have "cstr (ch_channel_name (new_channel u ch nm publ)) = ch" using assms(2) by (simp add: new_channel_def Let_def field_okD)
  ultimately show ?thesis
    unfolding has_channel_def by (intro exI [of _ u] exI [of _ "encode_channel_info (new_channel u ch nm publ)"]) (simp add: tput_def content_def)
qed

lemma init_run:
  assumes D: "dbs E tab opn w t"
  shows "\<exists>w' u. uuid_text u \<and> init_databases E w = Inr w' \<and>
    (let t1 = (if name_view t admin_key \<noteq> None then t else admin_tables (host_le E) t)
     in dbs E tab opn w' (if has_channel t ''global'' then t1
        else tput t1 DB_CHANNEL_INFO u (encode_channel_info (new_channel u ''global'' ''admin'' False))))"
proof -
  let ?t1 = "if name_view t admin_key \<noteq> None then t else admin_tables (host_le E) t"
  obtain r w1 where w1: "create_admin E w = Inr (r, w1)" "dbs E tab opn w1 ?t1"
    using create_admin_spec [OF D] by (auto split: if_splits)
  have h: "has_channel ?t1 ''global'' = has_channel t ''global''"
    by (simp add: has_channel_def admin_tables_def tput_def content_def)
  obtain r' w2 u where "uuid_text u" "create_global_channel E w1 = Inr (r', w2)"
    "dbs E tab opn w2 (if has_channel t ''global'' then ?t1
      else tput ?t1 DB_CHANNEL_INFO u (encode_channel_info (new_channel u ''global'' ''admin'' False)))"
    using create_global_spec [OF w1(2)] unfolding h
    by (cases "has_channel t ''global''") (auto intro: admin_uuid_text(1))
  with w1(1) show ?thesis
    by (intro exI [of _ w2] exI [of _ u]) (simp add: init_databases_def Let_def del: not_None_eq)
qed

section \<open>Properties\<close>

text \<open>C27: the start of the server. Initialisation always ends, creates the administrator (login and password
  \<open>admin\<close>, privilege level 1) unless the display name is taken and the channel \<open>global\<close> unless it exists, keeps
  every other login and account, and a second initialisation, after a restart, changes nothing.\<close>

theorem init_databases_correct:
  assumes "dbs E tab opn w t"
  shows "\<exists>w' t' w''. init_databases E w = Inr w' \<and> dbs E tab opn w' t' \<and> name_view t' admin_key \<noteq> None \<and> has_channel t' ''global'' \<and>
    (name_view t admin_key = None \<longrightarrow>
       login_view t' = (login_view t)(admin_key \<mapsto> new_login ''admin'' ''admin'' (lit admin_uuid)) \<and>
       account_view (host_le E) t' = (account_view (host_le E) t)(lit admin_uuid \<mapsto> new_account (lit admin_uuid) ''admin'') \<and>
       ua_privilege_level (new_account (lit admin_uuid) ''admin'') = 1) \<and>
    (name_view t admin_key \<noteq> None \<longrightarrow> login_view t' = login_view t \<and> account_view (host_le E) t' = account_view (host_le E) t) \<and>
    init_databases E w' = Inr w'' \<and> dbs E tab opn w'' t'"
proof -
  let ?t1 = "if name_view t admin_key \<noteq> None then t else admin_tables (host_le E) t"
  obtain w' u where i: "uuid_text u" "init_databases E w = Inr w'"
    "dbs E tab opn w' (if has_channel t ''global'' then ?t1
      else tput ?t1 DB_CHANNEL_INFO u (encode_channel_info (new_channel u ''global'' ''admin'' False)))" (is "dbs _ _ _ _ ?t'")
    using init_run [OF assms] unfolding Let_def by blast
  have n: "name_view ?t' admin_key \<noteq> None"
    by (cases "has_channel t ''global''"; cases "name_view t admin_key") (simp_all add: admin_views)
  have "has_channel ?t1 ''global'' = has_channel t ''global''"
    by (simp add: has_channel_def admin_tables_def tput_def content_def)
  then have g: "has_channel ?t' ''global''" using has_new_channel [OF i(1)] by simp
  have v: "login_view ?t' = login_view ?t1" "account_view (host_le E) ?t' = account_view (host_le E) ?t1" by simp_all
  obtain w'' where "init_databases E w' = Inr w''" "dbs E tab opn w'' ?t'"
    using init_run [OF i(3)] n g by (auto simp: Let_def)
  with i(2,3) n g v show ?thesis
    by (intro exI [of _ w'] exI [of _ ?t'] exI [of _ w'']) (simp add: admin_views new_account_def)
qed

theorem init_databases_correct_witness:
  "\<exists>w'. init_databases mem_env mem_empty = Inr w' \<and> has_channel (mem_tab w') ''global'' \<and>
    login_view (mem_tab w') = [admin_key \<mapsto> new_login ''admin'' ''admin'' (lit admin_uuid)]"
proof -
  have "login_view (\<lambda>d. None) = Map.empty" by (rule ext) simp
  then show ?thesis
    using init_databases_correct [OF dbs_mem_empty] dbsD(3) by fastforce
qed

end
