(* ===== verification/Service.thy ===== *)
theory Service
  imports Dispatch Init
begin

text \<open>
  The server as a state machine: which requests it can serve, and that serving them keeps the state in order.
  \<open>serviceable\<close> is the invariant of the running server (databases, cache and their agreement), \<open>admissible\<close> says
  which requests are free of the faults shown in the component theories, and \<open>service_step\<close> is the step relation of
  arriving data, new connections and served requests.
\<close>

section \<open>The invariant\<close>

text \<open>Display names are terminated, accounts have a name and a known privilege level, every login has an account, and every
  connected user has both.\<close>

definition people_ok :: "bool \<Rightarrow> table_state \<Rightarrow> connected_user list \<Rightarrow> bool" where
  "people_ok le t us \<longleftrightarrow> (\<forall>k. name_view t k \<noteq> None \<longrightarrow> terminated k) \<and>
     (\<forall>k a. account_view le t k = Some a \<longrightarrow> (ua_privilege_level a = 0 \<or> ua_privilege_level a = 1) \<and> cstr (ua_display_name a) \<noteq> []) \<and>
     (\<forall>k l. login_view t k = Some l \<longrightarrow> account_view le t (ul_uuid l) \<noteq> None) \<and>
     (\<forall>u \<in> set us. login_view t (cu_login_token u) \<noteq> None \<and> account_view le t (cu_uuid u) \<noteq> None)"

definition serviceable :: "'w env \<Rightarrow> 'w tables \<Rightarrow> 'w handles \<Rightarrow> 'w server \<Rightarrow> table_state \<Rightarrow> bool" where
  "serviceable E tab opn s t \<longleftrightarrow> dbs E tab opn (world s) t \<and> wf_cache (cache s) \<and> channels_terminated t \<and>
     people_ok (host_le E) t (users (cache s))"

lemma serviceableD:
  assumes "serviceable E tab opn s t"
  shows "dbs E tab opn (world s) t" "wf_cache (cache s)" "channels_terminated t" "people_ok (host_le E) t (users (cache s))"
  using assms by (simp_all add: serviceable_def)

lemma serviceable_cong: "serviceable E tab opn s t \<Longrightarrow> world s' = world s \<Longrightarrow> cache s' = cache s \<Longrightarrow> serviceable E tab opn s' t"
  by (simp add: serviceable_def)

lemma serviceable_header: "serviceable E tab opn s t \<Longrightarrow> serviceable E tab opn (after_header s fd) t"
  by (simp add: serviceable_def)

lemma channels_terminated_kept: "talk_kept t t' \<Longrightarrow> channels_terminated t' \<longleftrightarrow> channels_terminated t"
  by (simp add: talk_kept_def channels_terminated_def)

lemma people_ok_kept:
  "people_ok le t us \<Longrightarrow> login_view t' = login_view t \<Longrightarrow> account_view le t' = account_view le t \<Longrightarrow>
     name_view t' = name_view t \<Longrightarrow> people_ok le t' us"
  by (simp add: people_ok_def)

lemma people_ok_account:
  assumes "people_ok le t us" "account_view le t' = (account_view le t)(k \<mapsto> a)" "login_view t' = login_view t" "name_view t' = name_view t"
    "ua_privilege_level a = 0 \<or> ua_privilege_level a = 1" "cstr (ua_display_name a) \<noteq> []"
  shows "people_ok le t' us"
  using assms by (auto simp: people_ok_def)

lemma people_ok_new:
  assumes "people_ok le t us" "account_view le t' = (account_view le t)(ul_uuid l \<mapsto> a)" "login_view t' = (login_view t)(k \<mapsto> l)"
    "name_view t' = (name_view t)(n \<mapsto> i)" "terminated n"
    "ua_privilege_level a = 0 \<or> ua_privilege_level a = 1" "cstr (ua_display_name a) \<noteq> []"
  shows "people_ok le t' us"
  using assms by (auto simp: people_ok_def)

lemma people_ok_subset: "people_ok le t us \<Longrightarrow> set vs \<subseteq> set us \<Longrightarrow> people_ok le t vs"
  by (auto simp: people_ok_def)

section \<open>Requests\<close>

datatype request =
    Create_User string string string
  | Login string string
  | Logout string
  | Create_Channel string string string
  | Read_Channel string "string list"
  | Change_Settings string "string option" "string option" "string list \<times> string list" "string list \<times> string list"
  | Add_Members string "string list \<times> string list" "string list \<times> string list" "string list \<times> string list"
  | Post string string string string

fun request_fields :: "request \<Rightarrow> string list" where
  "request_fields (Create_User tok nm pw) = [tok, nm, pw]"
| "request_fields (Login tok pw) = [tok, pw]"
| "request_fields (Logout nm) = [nm]"
| "request_fields (Create_Channel ch nm publ) = [ch, nm, publ]"
| "request_fields (Read_Channel ch fs) = ch # fs"
| "request_fields (Change_Settings ch new publ ads bans) = update_fields ch new publ ([], []) ads bans"
| "request_fields (Add_Members ch us ads bans) = update_fields ch None None us ads bans"
| "request_fields (Post nm ch text ts) = [nm, ch, text, ts]"

fun request_kind :: "request \<Rightarrow> 8 word \<times> 4 word" where
  "request_kind (Create_User _ _ _) = (OBJECT_USER, TYPE_CREATE)"
| "request_kind (Login _ _) = (OBJECT_AUTH, TYPE_CREATE)"
| "request_kind (Logout _) = (OBJECT_AUTH, TYPE_DESTROY)"
| "request_kind (Create_Channel _ _ _) = (OBJECT_CHANNEL, TYPE_CREATE)"
| "request_kind (Read_Channel _ _) = (OBJECT_CHANNEL, TYPE_READ)"
| "request_kind (Change_Settings _ _ _ _ _) = (OBJECT_CHANNEL, TYPE_UPDATE)"
| "request_kind (Add_Members _ _ _ _) = (OBJECT_CHANNEL, TYPE_UPDATE)"
| "request_kind (Post _ _ _ _) = (OBJECT_MESSAGE, TYPE_CREATE)"

definition request_at :: "'w server \<Rightarrow> int \<Rightarrow> chat_header \<Rightarrow> request \<Rightarrow> bool" where
  "request_at s fd h q \<longleftrightarrow> (\<exists>tr. frame_at s fd h tr (request_fields q)) \<and> (h_object h, h_type h) = request_kind q"

text \<open>A login with the right password needs room in the cache and in the answer, and a user who is not online elsewhere.\<close>

definition login_admissible :: "'w env \<Rightarrow> 'w server \<Rightarrow> table_state \<Rightarrow> bytes \<Rightarrow> string \<Rightarrow> string \<Rightarrow> bool" where
  "login_admissible E s t addr tok pw \<longleftrightarrow>
     (\<forall>l a. login_view t (nul_pad TOKEN_NAME_LENGTH tok) = Some l \<longrightarrow> account_view (host_le E) t (ul_uuid l) = Some a \<longrightarrow>
       filter (\<lambda>c. \<not> isspace c) (cstr (ul_password l)) = filter (\<lambda>c. \<not> isspace c) pw \<longrightarrow>
       length (users (cache s)) < MAX_CLIENTS \<and>
       (\<forall>u \<in> set (users (cache s)). user_name u = cstr (ua_display_name a) \<longrightarrow> cstr (cu_ip_address u) = cstr addr \<or> \<not> ua_online_status a) \<and>
       (\<forall>cs. table_channels t cs \<longrightarrow>
         length (login_text (cstr (ua_display_name a)) (ua_privilege_level (logged_in a addr)) cs) + 4 < DEFAULT_BUFFER))"

text \<open>The names fit their arrays (a channel name leaves room for the separator), and a message comes from a connected user
  and goes to an existing channel.\<close>

fun admissible :: "'w env \<Rightarrow> 'w server \<Rightarrow> table_state \<Rightarrow> bytes \<Rightarrow> request \<Rightarrow> bool" where
  "admissible E s t addr (Create_User tok nm pw) \<longleftrightarrow>
     length tok < TOKEN_NAME_LENGTH \<and> length nm < TOKEN_NAME_LENGTH \<and> length pw < PSWD_MAX_LENGTH"
| "admissible E s t addr (Login tok pw) \<longleftrightarrow>
     length tok < TOKEN_NAME_LENGTH \<and> length pw < PSWD_MAX_LENGTH \<and> login_admissible E s t addr tok pw"
| "admissible E s t addr (Logout nm) \<longleftrightarrow> length nm < TOKEN_NAME_LENGTH"
| "admissible E s t addr (Create_Channel ch nm publ) \<longleftrightarrow>
     length ch < TOKEN_NAME_LENGTH - 1 \<and> length nm < TOKEN_NAME_LENGTH \<and> length publ = 1"
| "admissible E s t addr (Read_Channel ch fs) \<longleftrightarrow> length ch < TOKEN_NAME_LENGTH \<and> length fs \<le> 3"
| "admissible E s t addr (Change_Settings ch new publ ads bans) \<longleftrightarrow>
     length ch < TOKEN_NAME_LENGTH \<and> fits new \<and> request_pair ads \<and> request_pair bans \<and> (new \<noteq> None \<or> publ \<noteq> None)"
| "admissible E s t addr (Add_Members ch us ads bans) \<longleftrightarrow>
     length ch < TOKEN_NAME_LENGTH \<and> request_pair us \<and> request_pair ads \<and> request_pair bans \<and> us \<noteq> ([], [])"
| "admissible E s t addr (Post nm ch text ts) \<longleftrightarrow>
     length nm < DSPLY_NAME_LENGTH \<and> length ch < TOKEN_NAME_LENGTH \<and> length text < MAX_MESSAGE_SIZE \<and> length ts < TIMESTAMP_SIZE \<and>
     length (join_fields True [nm, ch, text, ts]) + 4 < DEFAULT_BUFFER \<and> nm \<noteq> ''200'' \<and>
     nm \<in> user_name ` set (users (cache s)) \<and> has_channel t ch"

definition served :: "'w env \<Rightarrow> 'w tables \<Rightarrow> 'w handles \<Rightarrow> 'w server \<Rightarrow> int \<Rightarrow> bytes \<Rightarrow> bool" where
  "served E tab opn s fd addr \<longleftrightarrow> (\<exists>s' t'. handle_request E s fd addr = Inr (0, s') \<and> serviceable E tab opn s' t')"

section \<open>Each kind of request\<close>

lemma request_atD:
  assumes "request_at s fd h q"
  shows "\<exists>tr. body_at (after_header s fd) fd (h_body_size h) tr (request_fields q)" "(h_object h, h_type h) = request_kind q"
    "handle_request E s fd addr = bindR (let s = after_header s fd in
      if h_object h = OBJECT_USER then handle_user E s fd h
      else if h_object h = OBJECT_CHANNEL then handle_channel E s fd h addr
      else if h_object h = OBJECT_MESSAGE then handle_message E s fd h
      else if h_object h = OBJECT_AUTH then handle_auth E s fd h addr else Inr s) (\<lambda>s. Inr (0, s))"
  using assms frame_read(2) handle_request_frame by (fastforce simp: request_at_def)+

lemma serve_create_user:
  assumes S: "serviceable E tab opn s t" and Q: "request_at s fd h (Create_User tok nm pw)"
    and A: "admissible E s t addr (Create_User tok nm pw)"
  shows "served E tab opn s fd addr"
proof -
  note D = serviceableD [OF S]
  let ?tk = "nul_pad TOKEN_NAME_LENGTH tok" and ?dn = "nul_pad TOKEN_NAME_LENGTH nm"
  obtain tr where b: "body_at (after_header s fd) fd (h_body_size h) tr [tok, nm, pw]" using request_atD(1) [OF Q] by auto
  have k: "h_object h = OBJECT_USER" "h_type h = TYPE_CREATE" using request_atD(2) [OF Q] by simp_all
  have f: "NUL \<notin> set tok" "NUL \<notin> set nm" "nm \<noteq> []" using b by (simp_all add: body_at_def field_ok_def)
  from A have "length tok < TOKEN_NAME_LENGTH" "length nm < TOKEN_NAME_LENGTH" "length pw < PSWD_MAX_LENGTH" by simp_all
  from read_and_create_user_spec [OF _ b this, of E tab opn t "zeros TOKEN_NAME_LENGTH"] D(1)
  obtain r out s1 t' where run: "read_and_create_user E (after_header s fd) fd (zeros TOKEN_NAME_LENGTH) (h_body_size h) = Inr ((r, out), s1)"
    and s1: "dbs E tab opn (world s1) t'" "cache s1 = cache s" and
    c: "if login_view t ?tk \<noteq> None \<or> name_view t ?dn \<noteq> None
        then r = (if login_view t ?tk \<noteq> None \<and> name_view t ?dn \<noteq> None then 3 else if login_view t ?tk \<noteq> None then 1 else 2) \<and>
          t' = t \<and> out = zeros TOKEN_NAME_LENGTH
        else r = 0 \<and> out = ?tk \<and> (\<exists>uuid. uuid_text uuid \<and> login_view t' = (login_view t)(?tk \<mapsto> new_login tok pw uuid) \<and>
          name_view t' = (name_view t)(?dn \<mapsto> uuid) \<and>
          account_view (host_le E) t' = (account_view (host_le E) t)(uuid \<mapsto> new_account uuid nm) \<and> talk_kept t t')"
    by (simp only: Let_def after_header_simps length_zeros simp_thms) blast
  have p: "people_ok (host_le E) t' (users (cache s))" "channels_terminated t'"
    using c D f people_ok_new [of "host_le E" t "users (cache s)" t' "new_login tok pw uuid" "new_account uuid nm" _ ?dn uuid for uuid]
      A channels_terminated_kept [of t t'] by (auto simp: new_login_def new_account_def split: if_splits)
  obtain x where "terminated out" "create_user_reply r (cstr out) = Some x" "length x < DEFAULT_BUFFER"
    using c A f by (auto simp: create_user_reply_def msg_def split: if_splits)
  from r_create_user.survives [OF this] obtain z s2 where "send_create_user_response E s1 fd h r out = Inr (z, s2)"
    "world s2 = world s1" "cache s2 = cache s1" by blast
  with k run s1 p D(2) show ?thesis
    unfolding served_def request_atD(3) [OF Q] by (auto simp: handle_user_def Let_def serviceable_def)
qed

text \<open>After the handler the answer goes out, whatever becomes of it.\<close>

lemma serviceable_after:
  assumes "dbs E tab opn (world s1) t'" "wf_cache (cache s1)" "channels_terminated t'" "people_ok (host_le E) t' (users (cache s1))"
    "world s2 = world s1" "cache s2 = cache s1"
  shows "serviceable E tab opn s2 t'"
  using assms by (simp add: serviceable_def)

lemma serve_login_rejected:
  assumes S: "serviceable E tab opn s t" and Q: "request_at s fd h (Login tok pw)" and A: "admissible E s t addr (Login tok pw)"
    and N: "\<And>l. login_view t (nul_pad TOKEN_NAME_LENGTH tok) = Some l \<Longrightarrow>
      filter (\<lambda>c. \<not> isspace c) (cstr (ul_password l)) \<noteq> filter (\<lambda>c. \<not> isspace c) pw"
  shows "served E tab opn s fd addr"
proof -
  note D = serviceableD [OF S]
  obtain tr where b: "body_at (after_header s fd) fd (h_body_size h) tr [tok, pw]" using request_atD(1) [OF Q] by auto
  have k: "h_object h = OBJECT_AUTH" "h_type h = TYPE_CREATE" using request_atD(2) [OF Q] by simp_all
  from A have "length tok < TOKEN_NAME_LENGTH" "length pw < PSWD_MAX_LENGTH" by simp_all
  from read_and_login_user_rejects_spec [OF _ b this N, of E tab opn t "zeros BIG_TOKEN_NAME_LENGTH" addr] D(1)
  obtain r s1 where s1: "read_and_login_user E (after_header s fd) fd (zeros BIG_TOKEN_NAME_LENGTH) addr (h_body_size h) =
      Inr ((r, zeros BIG_TOKEN_NAME_LENGTH), s1)" "r = 1 \<or> r = 2" "dbs E tab opn (world s1) t" "cache s1 = cache s"
    by (cases "login_view t (nul_pad TOKEN_NAME_LENGTH tok)") auto
  obtain x where "terminated (zeros BIG_TOKEN_NAME_LENGTH)" "login_user_reply r (cstr (zeros BIG_TOKEN_NAME_LENGTH)) = Some x" "length x < DEFAULT_BUFFER"
    using s1(2) by (auto simp: login_user_reply_def msg_def)
  from r_login.survives [OF this] obtain z s2 where "send_login_user_response E s1 fd h r (zeros BIG_TOKEN_NAME_LENGTH) = Inr (z, s2)"
    "world s2 = world s1" "cache s2 = cache s1" by blast
  with k s1 D show ?thesis
    unfolding served_def request_atD(3) [OF Q] by (auto simp: handle_auth_def Let_def serviceable_def)
qed

lemma people_ok_login:
  assumes D: "dbs E tab opn w t" and P: "people_ok (host_le E) t us" and K: "k = nul_pad TOKEN_NAME_LENGTH tok" "NUL \<notin> set tok"
    and l: "login_view t k = Some l" and a: "account_view (host_le E) t (ul_uuid l) = Some a"
    and v: "account_view (host_le E) t' = (account_view (host_le E) t)(ul_uuid l \<mapsto> logged_in a addr)" "login_view t' = login_view t"
      "name_view t' = name_view t"
  shows "people_ok (host_le E) t' us" "people_ok (host_le E) t' (us @ [cache_entry E w' (fd, logged_in a addr, l)])"
proof -
  note L = db_ok_login_view [OF dbsD(4) [OF D] l] and A = db_ok_account_view [OF dbsD(4) [OF D] a]
  have "(ua_privilege_level (logged_in a addr) = 0 \<or> ua_privilege_level (logged_in a addr) = 1) \<and> cstr (ua_display_name (logged_in a addr)) \<noteq> []"
    using P a by (auto simp: people_ok_def logged_in_def)
  then show p: "people_ok (host_le E) t' us" using people_ok_account [OF P v] by blast
  have "cu_login_token (cache_entry E w' (fd, logged_in a addr, l)) = k" "cu_uuid (cache_entry E w' (fd, logged_in a addr, l)) = ul_uuid l"
    using L A K by (simp_all add: cache_entry_def logged_in_def login_strings_def account_strings_def uuid_text_def nul_pad_eq)
  then show "people_ok (host_le E) t' (us @ [cache_entry E w' (fd, logged_in a addr, l)])"
    using p v l by (simp add: people_ok_def)
qed

lemma serve_login_accepted:
  assumes S: "serviceable E tab opn s t" and Q: "request_at s fd h (Login tok pw)" and A: "admissible E s t addr (Login tok pw)" and R: "addr_ok addr"
    and l: "login_view t (nul_pad TOKEN_NAME_LENGTH tok) = Some l"
      "filter (\<lambda>c. \<not> isspace c) (cstr (ul_password l)) = filter (\<lambda>c. \<not> isspace c) pw"
  shows "served E tab opn s fd addr"
proof -
  note D = serviceableD [OF S]
  obtain tr where b: "body_at (after_header s fd) fd (h_body_size h) tr [tok, pw]" using request_atD(1) [OF Q] by auto
  have k: "h_object h = OBJECT_AUTH" "h_type h = TYPE_CREATE" using request_atD(2) [OF Q] by simp_all
  obtain a where a: "account_view (host_le E) t (ul_uuid l) = Some a" "cstr (ua_display_name a) \<noteq> []"
    using D(4) l by (force simp: people_ok_def)
  have f: "length tok < TOKEN_NAME_LENGTH" "length pw < PSWD_MAX_LENGTH" "NUL \<notin> set tok" "length (users (cache s)) < MAX_CLIENTS"
    and e: "\<And>u. u \<in> set (users (cache s)) \<Longrightarrow> user_name u = cstr (ua_display_name a) \<Longrightarrow>
      cstr (cu_ip_address u) = cstr addr \<or> \<not> ua_online_status a"
    and n: "\<And>cs. table_channels t cs \<Longrightarrow>
      length (login_text (cstr (ua_display_name a)) (ua_privilege_level (logged_in a addr)) cs) + 4 < DEFAULT_BUFFER"
    using A l a b by (auto simp: login_admissible_def body_at_def field_ok_def)
  from read_and_login_user_accepts_spec [OF _ b f(1,2) l _ a(2) R, of E tab opn "zeros BIG_TOKEN_NAME_LENGTH"] D(1,2) a(1) f(4) e
  obtain out s1 t' cs w where run: "read_and_login_user E (after_header s fd) fd (zeros BIG_TOKEN_NAME_LENGTH) addr (h_body_size h) = Inr ((0, out), s1)"
    and s1: "dbs E tab opn (world s1) t'" "wf_cache (cache s1)"
    and v: "account_view (host_le E) t' = (account_view (host_le E) t)(ul_uuid l \<mapsto> logged_in a addr)" "login_view t' = login_view t"
      "name_view t' = name_view t" "talk_kept t t'"
    and o: "terminated out" "table_channels t' cs"
      "cstr out = take 1023 (login_text (cstr (ua_display_name a)) (ua_privilege_level (logged_in a addr)) cs)"
    and u: "users (cache s1) = users (cache s) \<or> users (cache s1) = users (cache s) @ [cache_entry E w (fd, logged_in a addr, l)]"
    by (simp only: after_header_simps length_zeros) metis
  have p: "people_ok (host_le E) t' (users (cache s1))" "channels_terminated t'"
    using u people_ok_login [OF D(1,4) refl f(3) l(1) a(1) v(1-3)] channels_terminated_kept [OF v(4)] D(3) by auto
  have "table_channels t cs" using o(2) v(4) table_channels_cong unfolding talk_kept_def by blast
  with n o(3) have "length (msg ''200'' @ cstr out) < DEFAULT_BUFFER" by (fastforce simp: msg_def)
  from r_login.survives [OF o(1) _ this, of 0 E s1 fd h] obtain z s2 where "send_login_user_response E s1 fd h 0 out = Inr (z, s2)"
    "world s2 = world s1" "cache s2 = cache s1" by (auto simp: login_user_reply_def)
  with k run s1 p show ?thesis
    unfolding served_def request_atD(3) [OF Q] by (auto simp: handle_auth_def Let_def serviceable_def)
qed

lemma serve_logout:
  assumes S: "serviceable E tab opn s t" and Q: "request_at s fd h (Logout nm)" and A: "admissible E s t addr (Logout nm)" and R: "addr_ok addr"
  shows "served E tab opn s fd addr"
proof -
  note D = serviceableD [OF S]
  obtain tr where b: "body_at (after_header s fd) fd (h_body_size h) tr [nm]" using request_atD(1) [OF Q] by auto
  have k: "h_object h = OBJECT_AUTH" "h_type h = TYPE_DESTROY" using request_atD(2) [OF Q] by simp_all
  have pr: "ua_privilege_level a \<in> {0, 1}" "cstr (ua_display_name a) \<noteq> []" "terminated (ua_display_name a)"
    "length (ua_display_name a) = TOKEN_NAME_LENGTH" if "account_view (host_le E) t k = Some a" for k a
    using that D(4) db_ok_account_view [OF dbsD(4) [OF D(1)] that] by (auto simp: people_ok_def account_strings_def wf_user_account_def)
  have d: "dbs E tab opn (world (after_header s fd)) t" "wf_cache (cache (after_header s fd))" "length nm < TOKEN_NAME_LENGTH"
    using D A by simp_all
  obtain r out s1 t' where run: "read_and_logout_user E (after_header s fd) fd (zeros TOKEN_NAME_LENGTH) addr (h_body_size h) = Inr ((r, out), s1)"
    and s1: "dbs E tab opn (world s1) t'" "wf_cache (cache s1)"
    and c: "(r = 500 \<or> r = 2 \<or> r = 4) \<and> out = zeros TOKEN_NAME_LENGTH \<and> t' = t \<and> cache s1 = cache s \<or>
      (\<exists>a uuid. account_view (host_le E) t uuid = Some a \<and> r = 0 \<and> out = nul_pad TOKEN_NAME_LENGTH (cstr (ua_display_name a)) \<and>
        account_view (host_le E) t' = (account_view (host_le E) t)(ua_user_id a \<mapsto> logged_out a) \<and>
        login_view t' = login_view t \<and> name_view t' = name_view t \<and> talk_kept t t' \<and>
        users (cache s1) = remove_first (\<lambda>u. user_name u = cstr (ua_display_name a)) (users (cache s)))"
    by (rule read_and_logout_user_spec [THEN exE, OF d(1) b d(3) R length_zeros d(2)], rule pr(1), assumption)
      (elim exE conjE, rule that, assumption+, auto simp: Let_def split: option.splits Option.bind_splits if_splits)
  have p: "people_ok (host_le E) t' (users (cache s1)) \<and> channels_terminated t'"
    using c
  proof (elim disjE exE conjE)
    fix a uuid assume a: "account_view (host_le E) t uuid = Some a" "account_view (host_le E) t' = (account_view (host_le E) t)(ua_user_id a \<mapsto> logged_out a)"
      "login_view t' = login_view t" "name_view t' = name_view t" "talk_kept t t'" "users (cache s1) = remove_first (\<lambda>u. user_name u = cstr (ua_display_name a)) (users (cache s))"
    have "people_ok (host_le E) t' (users (cache s))"
      by (rule people_ok_account [OF D(4) a(2-4)]) (use pr [OF a(1)] in \<open>auto simp: logged_out_def\<close>)
    with a(6) set_remove_first have "people_ok (host_le E) t' (users (cache s1))" by (metis people_ok_subset)
    then show ?thesis using D(3) channels_terminated_kept [OF a(5)] by simp
  qed (use D in auto)
  have "terminated out \<and> length (cstr out) < TOKEN_NAME_LENGTH \<and> (r = 0 \<or> r = 2 \<or> r = 4 \<or> r = 500)"
    using c
  proof (elim disjE exE conjE)
    fix a uuid assume a: "account_view (host_le E) t uuid = Some a" "out = nul_pad TOKEN_NAME_LENGTH (cstr (ua_display_name a))" "r = 0"
    show ?thesis using length_cstr_less [OF pr(3) [OF a(1)]] pr(4) [OF a(1)] a(2,3) by simp
  qed simp_all
  then obtain x where "terminated out" "logout_user_reply r (cstr out) = Some x" "length x < DEFAULT_BUFFER"
    by (auto simp: logout_user_reply_def msg_def)
  from r_logout.survives [OF this] obtain z s2 where "send_logout_user_response E s1 fd h r out = Inr (z, s2)"
    "world s2 = world s1" "cache s2 = cache s1" by blast
  with k run s1 p show ?thesis
    unfolding served_def request_atD(3) [OF Q] by (auto simp: handle_auth_def Let_def serviceable_def)
qed

lemma new_channel_strings:
  assumes "NUL \<notin> set ch" "NUL \<notin> set nm" "length ch < TOKEN_NAME_LENGTH" "length nm < TOKEN_NAME_LENGTH"
  shows "channel_strings (new_channel uuid ch nm publ)"
  using assms by (auto simp: channel_strings_def new_channel_def Let_def names_ok_def list_all_iff in_set_conv_nth nth_list_update)

lemma serve_create_channel:
  assumes S: "serviceable E tab opn s t" and Q: "request_at s fd h (Create_Channel ch nm publ)"
    and A: "admissible E s t addr (Create_Channel ch nm publ)" and R: "addr_ok addr"
  shows "served E tab opn s fd addr"
proof -
  note D = serviceableD [OF S]
  obtain tr where b: "body_at (after_header s fd) fd (h_body_size h) tr [ch, nm, publ]" using request_atD(1) [OF Q] by auto
  have k: "h_object h = OBJECT_CHANNEL" "h_type h = TYPE_CREATE" using request_atD(2) [OF Q] by simp_all
  have f: "length ch < TOKEN_NAME_LENGTH - 1" "length nm < TOKEN_NAME_LENGTH" "length publ = 1" "NUL \<notin> set ch" "NUL \<notin> set nm"
    using A b by (simp_all add: body_at_def field_ok_def)
  note h = serviceableD [OF serviceable_header [OF S, of fd]]
  have "terminated addr" using R by (simp add: addr_ok_def)
  from read_and_create_channel_spec [OF h(1) b h(2) f(1-3) this, of "zeros TOKEN_NAME_LENGTH", unfolded after_header_simps]
  obtain r out s1 t' where run: "read_and_create_channel E (after_header s fd) fd (zeros TOKEN_NAME_LENGTH) (h_body_size h) addr = Inr ((r, out), s1)"
    and s1: "dbs E tab opn (world s1) t'" "cache s1 = cache s"
    and c: "(r = 500 \<or> r = 404 \<or> r = 409) \<and> t' = t \<and> out = zeros TOKEN_NAME_LENGTH \<or>
      r = 0 \<and> terminated out \<and> cstr out = msg ch \<and> (\<exists>uuid. uuid_text uuid \<and>
       t' = tput t DB_CHANNEL_INFO uuid (encode_channel_info (new_channel uuid ch nm (publ = ''1''))))"
    by (elim exE conjE) (rule that, assumption+, simp split: if_splits)
  have p: "people_ok (host_le E) t' (users (cache s))" "channels_terminated t'"
    using c D(3,4) people_ok_kept [of "host_le E" t _ t'] channels_terminated_tput [OF D(3)] new_channel_ok [of _ ch nm "publ = ''1''"]
      new_channel_strings [of ch nm _ "publ = ''1''"] f
    by auto
  obtain x where "terminated out" "create_channel_reply r (cstr out) = Some x" "length x < DEFAULT_BUFFER"
    using c f(1) by (auto simp: create_channel_reply_def msg_def)
  from r_create_channel.survives [OF this] obtain z s2 where "send_create_channel_response E s1 fd h r out = Inr (z, s2)"
    "world s2 = world s1" "cache s2 = cache s1" by blast
  with k run s1 p D(2) show ?thesis
    unfolding served_def request_atD(3) [OF Q] by (auto simp: handle_channel_def Let_def serviceable_def)
qed

text \<open>The answers that describe a channel are short.\<close>

lemma head_text_bound:
  assumes "wf_channel_info c" "channel_strings c"
  shows "length (head_text c) \<le> 44"
proof -
  have "length (cstr (ch_channel_name c)) < TOKEN_NAME_LENGTH" "length (cstr (ch_creator c)) < TOKEN_NAME_LENGTH"
    using assms length_cstr_less by (fastforce simp: wf_channel_info_def channel_strings_def)+
  then show ?thesis by (simp add: head_text_def msg_def)
qed

lemma section_text_bound:
  assumes "wf_channel_info c" "channel_strings c"
  shows "length (section_text p (ch_user_list c) (ch_user_list c)) \<le> 25" "length (section_text p (ch_admin_list c) (ch_admin_list c)) \<le> 25"
    "length (section_text p (ch_banned_list c) (ch_admin_list c)) \<le> 25" "length (section_text p (ch_banned_list c) (ch_banned_list c)) \<le> 25"
  using assms list_text_bound by (simp_all add: section_text_def wf_channel_info_def wf_names_def channel_strings_def)

lemma channel_found:
  assumes "dbs E tab opn w t" "channels_terminated t" "table_channels t cs" "find_channel nm cs = Some c"
  shows "wf_channel_info c" "channel_strings c"
proof -
  have "c \<in> set cs" using assms(4) by (auto simp: find_channel_def find_Some_iff)
  then show "wf_channel_info c" "channel_strings c"
    using table_channels_wf(1) [OF dbsD(4) [OF assms(1)] assms(3)] channels_terminatedD [OF assms(2,3)] by blast+
qed

lemma serve_read_channel:
  assumes S: "serviceable E tab opn s t" and Q: "request_at s fd h (Read_Channel ch fs)" and A: "admissible E s t addr (Read_Channel ch fs)"
  shows "served E tab opn s fd addr"
proof -
  note h = serviceableD [OF serviceable_header [OF S, of fd]]
  obtain tr where b: "body_at (after_header s fd) fd (h_body_size h) tr (ch # fs)" using request_atD(1) [OF Q] by auto
  have k: "h_object h = OBJECT_CHANNEL" "h_type h = TYPE_READ" using request_atD(2) [OF Q] by simp_all
  from A have f: "length ch < TOKEN_NAME_LENGTH" "length fs \<le> 3" by simp_all
  from read_and_read_channel_spec [OF h(1) b f h(3), of "zeros TEMP_CHANNEL_INFO_LENGTH", unfolded after_header_simps]
  obtain r out s1 where run: "read_and_read_channel E (after_header s fd) fd (zeros TEMP_CHANNEL_INFO_LENGTH) (h_body_size h) = Inr ((r, out), s1)"
    and s1: "dbs E tab opn (world s1) t" "cache s1 = cache s"
    and c: "(r = 400 \<or> r = 404) \<and> out = zeros TEMP_CHANNEL_INFO_LENGTH \<or>
      r = 0 \<and> terminated out \<and> (\<exists>cs c. table_channels t cs \<and> find_channel (nul_pad TOKEN_NAME_LENGTH ch) cs = Some c \<and>
       cstr out = head_text c @ section_text (fs ! 0 = ''1'') (ch_user_list c) (ch_user_list c) @
         section_text (fs ! 1 = ''1'') (ch_admin_list c) (ch_admin_list c) @
         section_text (fs ! 2 = ''1'') (ch_banned_list c) (ch_admin_list c))"
    by (elim exE conjE) (rule that, assumption+, simp split: if_splits)
  have "length (cstr out) \<le> 119"
    using c
  proof (elim disjE exE conjE)
    fix cs c assume c: "table_channels t cs" "find_channel (nul_pad TOKEN_NAME_LENGTH ch) cs = Some c"
      "cstr out = head_text c @ section_text (fs ! 0 = ''1'') (ch_user_list c) (ch_user_list c) @
         section_text (fs ! 1 = ''1'') (ch_admin_list c) (ch_admin_list c) @ section_text (fs ! 2 = ''1'') (ch_banned_list c) (ch_admin_list c)"
    note ok = channel_found [OF h(1,3) c(1,2)]
    show ?thesis unfolding c(3) length_append
      using head_text_bound [OF ok] section_text_bound(1) [OF ok, of "fs ! 0 = ''1''"] section_text_bound(2) [OF ok, of "fs ! 1 = ''1''"]
        section_text_bound(3) [OF ok, of "fs ! 2 = ''1''"] by linarith
  qed simp_all
  then obtain x where "terminated out" "read_channel_reply r (cstr out) = Some x" "length x < TEMP_CHANNEL_INFO_LENGTH"
    using c by (auto simp: read_channel_reply_def msg_def)
  from r_read_channel.survives [OF this] obtain z s2 where "send_read_channel_response E s1 fd h r out = Inr (z, s2)"
    "world s2 = world s1" "cache s2 = cache s1" by blast
  with k run s1 h show ?thesis
    unfolding served_def request_atD(3) [OF Q] by (auto simp: handle_channel_def Let_def serviceable_def)
qed

lemma channel_text_bound: "wf_channel_info c \<Longrightarrow> channel_strings c \<Longrightarrow> length (channel_text c) \<le> 119"
  using head_text_bound [of c] section_text_bound [of c True] by (simp add: channel_text_def section_text_def)

lemma answer_bound:
  assumes "dbs E tab opn w t" "channels_terminated t" "answer_for t q r out" "terminated out"
  shows "\<exists>x. update_channel_reply r (cstr out) = Some x \<and> length x < TEMP_CHANNEL_INFO_LENGTH"
proof (cases "has_channel t q")
  case True
  with assms(3) obtain cs c where c: "r = 0" "table_channels t cs" "find_channel (nul_pad TOKEN_NAME_LENGTH q) cs = Some c" "cstr out = channel_text c"
    by (auto simp: answer_for_def)
  then show ?thesis using channel_text_bound [OF channel_found [OF assms(1,2) c(2,3)]] by (simp add: update_channel_reply_def msg_def)
next
  case False
  with assms(3) have "r = 500" by (simp add: answer_for_def)
  then show ?thesis by (simp add: update_channel_reply_def msg_def)
qed

text \<open>The two kinds of update end in the same way.\<close>

lemma serve_update:
  assumes S: "serviceable E tab opn s t" and Q: "request_at s fd h q" and k: "request_kind q = (OBJECT_CHANNEL, TYPE_UPDATE)"
    and run: "read_and_update_channel E (after_header s fd) fd (zeros TEMP_CHANNEL_INFO_LENGTH) (h_body_size h) = Inr ((r, out), s1)"
    and s1: "dbs E tab opn (world s1) t'" "cache s1 = cache s" "terminated out"
    and c: "r = 404 \<and> t' = t \<or> answer_for t' v r out \<and> (\<exists>cs c. table_channels t cs \<and> find_channel nm cs = Some c \<and>
      t' = tput t DB_CHANNEL_INFO (ch_channel_id c) (encode_channel_info (upd c)))"
    and U: "\<And>c. wf_channel_info c \<Longrightarrow> channel_strings c \<Longrightarrow> wf_channel_info (upd c) \<and> channel_strings (upd c)"
  shows "served E tab opn s fd addr"
proof -
  note D = serviceableD [OF S]
  have p: "channels_terminated t'" "people_ok (host_le E) t' (users (cache s))"
    using c D(3,4) channels_terminated_tput [OF D(3)] channel_found [OF D(1,3)] people_ok_kept [OF D(4)] U by auto
  have "\<exists>x. update_channel_reply r (cstr out) = Some x \<and> length x < TEMP_CHANNEL_INFO_LENGTH"
  proof (cases "r = 404")
    case False
    with c show ?thesis using answer_bound [OF s1(1) p(1) _ s1(3)] by blast
  qed (simp add: update_channel_reply_def msg_def)
  then obtain z s2 where "send_update_channel_response E s1 fd h r out = Inr (z, s2)" "world s2 = world s1" "cache s2 = cache s1"
    using r_update_channel.survives [OF s1(3)] by metis
  with request_atD(2) [OF Q] k run s1 p D(2) show ?thesis
    unfolding served_def request_atD(3) [OF Q] by (auto simp: handle_channel_def Let_def serviceable_def)
qed

lemma serve_change_settings:
  assumes S: "serviceable E tab opn s t" and O: "reopen_law E tab opn" and Q: "request_at s fd h (Change_Settings ch new publ ads bans)"
    and A: "admissible E s t addr (Change_Settings ch new publ ads bans)"
  shows "served E tab opn s fd addr"
proof -
  note h = serviceableD [OF serviceable_header [OF S, of fd]]
  obtain tr where b: "body_at (after_header s fd) fd (h_body_size h) tr (update_fields ch new publ ([], []) ads bans)" using request_atD(1) [OF Q] by auto
  from A have f: "length ch < TOKEN_NAME_LENGTH" "fits new" "request_pair ads" "request_pair bans" "new \<noteq> None \<or> publ \<noteq> None" by simp_all
  have n: "\<And>v. new = Some v \<Longrightarrow> NUL \<notin> set v"
    using b by (auto simp: body_at_def update_fields_def setting_fields_def field_ok_def)
  from update_settings_run [OF h(1) O h(3) b f, of "zeros TEMP_CHANNEL_INFO_LENGTH", unfolded after_header_simps]
  obtain r out s1 t' where u: "read_and_update_channel E (after_header s fd) fd (zeros TEMP_CHANNEL_INFO_LENGTH) (h_body_size h) = Inr ((r, out), s1)"
    "dbs E tab opn (world s1) t'" "cache s1 = cache s" "terminated (zeros TEMP_CHANNEL_INFO_LENGTH) \<longrightarrow> terminated out"
    and c: "r = 404 \<and> t' = t \<or> (\<exists>cs c. table_channels t cs \<and> find_channel (nul_pad TOKEN_NAME_LENGTH ch) cs = Some c \<and>
       t' = tput t DB_CHANNEL_INFO (ch_channel_id c) (encode_channel_info (with_settings c new publ)) \<and>
       answer_for t' (case new of None \<Rightarrow> ch | Some v \<Rightarrow> v) r out)"
    by (elim exE conjE) (rule that, assumption+, simp split: if_splits)
  have "terminated out" using u(4) by simp
  show ?thesis
    by (rule serve_update [OF S Q _ u(1-3) \<open>terminated out\<close>, where upd = "\<lambda>c. with_settings c new publ"])
      (use c with_settings_ok(1,2) [OF _ _ n f(2)] in auto)
qed

lemma serve_add_members:
  assumes S: "serviceable E tab opn s t" and O: "reopen_law E tab opn" and Q: "request_at s fd h (Add_Members ch us ads bans)"
    and A: "admissible E s t addr (Add_Members ch us ads bans)"
  shows "served E tab opn s fd addr"
proof -
  note h = serviceableD [OF serviceable_header [OF S, of fd]]
  obtain tr where b: "body_at (after_header s fd) fd (h_body_size h) tr (update_fields ch None None us ads bans)" using request_atD(1) [OF Q] by auto
  from A have f: "length ch < TOKEN_NAME_LENGTH" "request_pair us" "request_pair ads" "request_pair bans" "us \<noteq> ([], [])" by simp_all
  from update_users_spec [OF h(1) O h(3) b f, of "zeros TEMP_CHANNEL_INFO_LENGTH", unfolded after_header_simps]
  obtain r out s1 t' where u: "read_and_update_channel E (after_header s fd) fd (zeros TEMP_CHANNEL_INFO_LENGTH) (h_body_size h) = Inr ((r, out), s1)"
    "dbs E tab opn (world s1) t'" "cache s1 = cache s" "terminated (zeros TEMP_CHANNEL_INFO_LENGTH) \<longrightarrow> terminated out"
    and c: "r = 404 \<and> t' = t \<or> answer_for t' ch r out \<and> (\<exists>cs c. table_channels t cs \<and> find_channel (nul_pad TOKEN_NAME_LENGTH ch) cs = Some c \<and>
       t' = tput t DB_CHANNEL_INFO (ch_channel_id c) (encode_channel_info (c\<lparr>ch_user_list := with_members (ch_user_list c) (fst us)\<rparr>)))"
    by (elim exE conjE) (rule that, assumption+, simp split: if_splits)
  have "terminated out" "request_names (fst us)" using u(4) f(2) by (simp_all add: request_pair_def)
  note ok = this
  show ?thesis
    by (rule serve_update [OF S Q _ u(1-3) ok(1), where upd = "\<lambda>c. c\<lparr>ch_user_list := with_members (ch_user_list c) (fst us)\<rparr>"])
      (use c with_members_channel [OF _ _ ok(2)] in auto)
qed

lemma serve_post:
  assumes S: "serviceable E tab opn s t" and Q: "request_at s fd h (Post nm ch text ts)" and A: "admissible E s t addr (Post nm ch text ts)"
  shows "served E tab opn s fd addr"
proof -
  note D = serviceableD [OF S]
  obtain tr where F: "frame_at s fd h tr [nm, ch, text, ts]" using Q by (auto simp: request_at_def)
  let ?ch = "nul_pad TOKEN_NAME_LENGTH ch" and ?fwd = "nul_pad DEFAULT_BUFFER (join_fields tr [nm, ch, text, ts])"
  obtain u where u: "find (\<lambda>u. user_name u = nm) (users (cache s)) = Some u"
    using A find_isSome [of "\<lambda>u. user_name u = nm" "users (cache s)"] by auto
  then have "u \<in> set (users (cache s))" by (auto simp: find_Some_iff)
  with D(4) obtain a l where al: "account_view (host_le E) t (cu_uuid u) = Some a" "ua_privilege_level a = 0 \<or> ua_privilege_level a = 1"
    "login_view t (cu_login_token u) = Some l" by (force simp: people_ok_def)
  have "length (join_fields tr [nm, ch, text, ts]) \<le> length (join_fields True [nm, ch, text, ts])" by (simp add: join_fields.simps)
  then have M: "message_request E s t fd h tr nm ch text ts l"
    using Q A F u al unfolding message_request_def request_at_def by auto
  have f: "NUL \<notin> set ch" "length ch < TOKEN_NAME_LENGTH" "NUL \<notin> set (join_fields tr [nm, ch, text, ts])"
    "length (join_fields tr [nm, ch, text, ts]) + 4 < DEFAULT_BUFFER"
    using M join_no_NUL [of "[nm, ch, text, ts]" tr] by (auto simp: message_request_def frame_at_def field_ok_def)
  have g: "has_channel t ch" using A by simp
  from message_handled [OF D(1,2) M, where addr = addr] g obtain s1 t' id v where
    s1: "dbs E tab opn (world s1) t'" "cache s1 = cache s" "t' = tput t DB_MESSAGE_INFO id v"
    and run: "handle_request E s fd addr = bindR (bindR (send_create_message_response E s1 fd h 0 ?ch) (\<lambda>(_, s).
        bindR (get_channel_info_malloc_or_null E (world s) ?ch) (\<lambda>(current_channel, w).
        bindR (get_num_connected_users (cache s)) (\<lambda>n.
          forward_loop E (s\<lparr>world := w\<rparr>) h ?fwd current_channel (take n (cache s)))))) (\<lambda>s. Inr (0, s))"
    by (auto split: if_splits)
  obtain z s2 where s2: "send_create_message_response E s1 fd h 0 ?ch = Inr (z, s2)" "world s2 = world s1" "cache s2 = cache s"
    using r_create_message.survives [of ?ch 0 "msg ''201'' @ ch" E s1 fd h] f s1(2) by (auto simp: create_message_reply_def msg_def)
  have k: "content t' DB_CHANNEL_INFO = content t DB_CHANNEL_INFO" using s1(3) by simp
  from channel_for_forwarding [OF s1(1) k f(1,2)] g obtain w' cs c where
    c: "get_channel_info_malloc_or_null E (world s1) ?ch = Inr (Some c, w')" "dbs E tab opn w' t'" "table_channels t cs" "find_channel ?ch cs = Some c"
    by (metis not_None_eq)
  have "length (cstr ?fwd) + 4 < DEFAULT_BUFFER" "terminated ?fwd" using f(3,4) by simp_all
  with forward_loop_survives [of c "users (cache s)" ?fwd E "s2\<lparr>world := w'\<rparr>" h] channel_found(2) [OF D(1,3) c(3,4)] wf_cache_users [OF D(2)]
  obtain s3 where s3: "forward_loop E (s2\<lparr>world := w'\<rparr>) h ?fwd (Some c) (users (cache s)) = Inr s3" "world s3 = w'" "cache s3 = cache s"
    using s2(3) by auto
  have "serviceable E tab opn s3 t'"
    using D s1(3) s3(2,3) c(2) k people_ok_kept [OF D(4), of t'] by (simp add: serviceable_def channels_terminated_def)
  moreover have "handle_request E s fd addr = Inr (0, s3)" using run s2 c(1) s3(1) D(2) by simp
  ultimately show ?thesis unfolding served_def by blast
qed

lemma serve_login:
  assumes "serviceable E tab opn s t" and "request_at s fd h (Login tok pw)" and "admissible E s t addr (Login tok pw)" and "addr_ok addr"
  shows "served E tab opn s fd addr"
proof (cases "\<exists>l. login_view t (nul_pad TOKEN_NAME_LENGTH tok) = Some l \<and>
    filter (\<lambda>c. \<not> isspace c) (cstr (ul_password l)) = filter (\<lambda>c. \<not> isspace c) pw")
  case True
  then show ?thesis using serve_login_accepted [OF assms] by blast
next
  case False
  then show ?thesis using serve_login_rejected [OF assms(1-3)] by blast
qed

lemma serve_request:
  assumes "serviceable E tab opn s t" and "reopen_law E tab opn" and "request_at s fd h q" and "admissible E s t addr q" and "addr_ok addr"
  shows "served E tab opn s fd addr"
  using assms(3,4)
  by (cases q; hypsubst)
    (rule serve_create_user [OF assms(1)] serve_login [OF assms(1) _ _ assms(5)] serve_logout [OF assms(1) _ _ assms(5)]
      serve_create_channel [OF assms(1) _ _ assms(5)] serve_read_channel [OF assms(1)] serve_change_settings [OF assms(1,2)]
      serve_add_members [OF assms(1,2)] serve_post [OF assms(1)]; assumption)+

section \<open>The running server\<close>

text \<open>Data arrives, a descriptor is opened anew, time passes without a change of the databases, a request of another
  version or about another object is skipped, an admissible request is served.\<close>

inductive service_step :: "'w env \<Rightarrow> 'w tables \<Rightarrow> 'w handles \<Rightarrow> 'w server \<Rightarrow> 'w server \<Rightarrow> bool"
  for E :: "'w env" and tab :: "'w tables" and opn :: "'w handles"
where
  arrive: "service_step E tab opn s (s\<lparr>inq := (inq s)(fd := segs)\<rparr>)"
| connect: "service_step E tab opn s (s\<lparr>closed := removeAll fd (closed s), inq := (inq s)(fd := [])\<rparr>)"
| elapse: "tab w = tab (world s) \<Longrightarrow> opn w = opn (world s) \<Longrightarrow> service_step E tab opn s (s\<lparr>world := w\<rparr>)"
| skip: "pending s fd = wire_header h @ rest \<Longrightarrow>
    h_version h \<noteq> CURRENT_VERSION \<or> h_object h \<notin> {OBJECT_USER, OBJECT_CHANNEL, OBJECT_MESSAGE, OBJECT_AUTH} \<Longrightarrow>
    handle_request E s fd addr = Inr (r, s') \<Longrightarrow> service_step E tab opn s s'"
| serve: "request_at s fd h q \<Longrightarrow> addr_ok addr \<Longrightarrow> admissible E s (tab (world s)) addr q \<Longrightarrow>
    handle_request E s fd addr = Inr (r, s') \<Longrightarrow> service_step E tab opn s s'"

inductive_cases service_stepE: "service_step E tab opn s s'"

lemma skipped_request:
  assumes "pending s fd = wire_header h @ rest" "handle_request E s fd addr = Inr (r, s')"
    "h_version h \<noteq> CURRENT_VERSION \<or> h_object h \<notin> {OBJECT_USER, OBJECT_CHANNEL, OBJECT_MESSAGE, OBJECT_AUTH}"
  shows "world s' = world s" "cache s' = cache s"
  using assms(2,3) read_header_spec [OF assms(1), of E, folded after_header_def]
  by (auto simp: handle_request_def split: if_splits)

definition in_service :: "'w env \<Rightarrow> 'w tables \<Rightarrow> 'w handles \<Rightarrow> 'w server \<Rightarrow> bool" where
  "in_service E tab opn s \<longleftrightarrow> serviceable E tab opn s (tab (world s))"

lemma serviceable_tab: "serviceable E tab opn s t \<Longrightarrow> t = tab (world s)"
  using dbsD(3) [OF serviceableD(1)] by blast

lemma service_step_keeps:
  assumes "service_step E tab opn s s'" "reopen_law E tab opn" "in_service E tab opn s"
  shows "in_service E tab opn s'"
  using assms
proof (induction rule: service_step.induct)
  case (elapse w s)
  then show ?case using dbsI [of E tab opn "world s" "tab (world s)" w "tab w"] dbsD(2,4) [of E tab opn "world s"]
    by (auto simp: in_service_def serviceable_def)
next
  case (skip s fd h rest addr r s')
  then show ?case using skipped_request [OF skip(1,3,2)] by (simp add: in_service_def serviceable_def)
next
  case (serve s fd h q addr r s')
  then have "served E tab opn s fd addr" using serve_request in_service_def by blast
  with serve(4) show ?case using serviceable_tab unfolding served_def in_service_def by fastforce
qed (simp_all add: in_service_def serviceable_def)

lemma service_reachable:
  assumes "(service_step E tab opn)\<^sup>*\<^sup>* s s'" "reopen_law E tab opn" "in_service E tab opn s"
  shows "in_service E tab opn s'"
  using assms by (induction rule: rtranclp_induct) (auto intro: service_step_keeps)

lemma service_start:
  assumes D: "dbs E tab opn w t" and C: "channels_terminated t" and P: "people_ok (host_le E) t (users c)" and W: "wf_cache c"
  shows "\<exists>w'. init_databases E w = Inr w' \<and> (\<forall>s. world s = w' \<and> cache s = c \<longrightarrow> in_service E tab opn s)"
proof -
  let ?t1 = "if name_view t admin_key \<noteq> None then t else admin_tables (host_le E) t"
  obtain w' u where i: "uuid_text u" "init_databases E w = Inr w'"
    "dbs E tab opn w' (if has_channel t ''global'' then ?t1
      else tput ?t1 DB_CHANNEL_INFO u (encode_channel_info (new_channel u ''global'' ''admin'' False)))" (is "dbs _ _ _ _ ?t'")
    using init_run [OF D] unfolding Let_def by blast
  have a: "people_ok (host_le E) (admin_tables (host_le E) t) (users c)"
    by (rule people_ok_new [OF P, where l = "new_login ''admin'' ''admin'' (lit admin_uuid)" and a = "new_account (lit admin_uuid) ''admin''"
        and n = admin_key])
      (simp_all add: admin_views, simp_all add: new_login_def new_account_def)
  then have p: "people_ok (host_le E) ?t' (users c)" using P by (auto intro: people_ok_kept)
  have "channels_terminated ?t1" using C by (simp add: channels_terminated_def admin_tables_def)
  then have c: "channels_terminated ?t'"
    using channels_terminated_tput [of ?t1] new_channel_ok(1) [OF i(1)] new_channel_strings by simp
  with i(2,3) p W dbsD(3) [OF i(3)] show ?thesis
    by (intro exI [of _ w']) (simp add: in_service_def serviceable_def)
qed

section \<open>Properties\<close>


definition demo_create :: "mem_world \<Rightarrow> mem_world server" where
  "demo_create w = state_with (wire_header \<lparr>h_version = 1, h_type = 1, h_object = 1, h_body_size = 22\<rparr> @
     join_fields False [''bennychao'', ''benny'', ''monkey'']) w"


end
