(* ===== verification/Address.thy ===== *)
theory Address
  imports CLib
begin

text \<open>
  \<^verbatim>\<open>get_ip_str\<close> of \<^verbatim>\<open>src/util.c\<close>: the address of a client as text. The handlers compare these texts to tell
  clients apart and copy them into arrays of 16 bytes, so what matters is that the text always fits and that different
  addresses have different texts.
\<close>

section \<open>Operations\<close>

abbreviation MAX_IP_ADD_STR_LENGTH :: nat where "MAX_IP_ADD_STR_LENGTH \<equiv> 16"

text \<open>\<^verbatim>\<open>struct sockaddr\<close> by its family.\<close>

datatype sockaddr =
    AF_INET "8 word" "8 word" "8 word" "8 word"
  | AF_INET6 "8 word list"
  | AF_OTHER

text \<open>The text \<^verbatim>\<open>inet_ntop\<close> prints of an IPv4 address.\<close>

definition dotted :: "8 word \<Rightarrow> 8 word \<Rightarrow> 8 word \<Rightarrow> 8 word \<Rightarrow> string" where
  "dotted a b c d = show_nat (unat a) @ CHR ''.'' # show_nat (unat b) @ CHR ''.'' # show_nat (unat c) @ CHR ''.'' # show_nat (unat d)"

text \<open>\<^verbatim>\<open>inet_ntop\<close> copies the text with its NUL if it fits the given size and otherwise leaves the array as it is; the
  rest of the array is kept. The text of an IPv6 address, \<open>ntop6\<close>, is a parameter: the server only opens IPv4 sockets.\<close>

definition inet_ntop :: "string \<Rightarrow> bytes \<Rightarrow> nat \<Rightarrow> bytes result" where
  "inet_ntop txt dst n =
     (if n < Suc (length txt) then Inr dst
      else if length dst < Suc (length txt) then Inl BufferOverflow
      else Inr (lit txt @ drop (Suc (length txt)) dst))"

definition get_ip_str :: "(8 word list \<Rightarrow> string) \<Rightarrow> sockaddr \<Rightarrow> bytes \<Rightarrow> bytes result" where
  "get_ip_str ntop6 sa out_str =
     (case sa of
        AF_INET a b c d \<Rightarrow> inet_ntop (dotted a b c d) out_str MAX_IP_ADD_STR_LENGTH
      | AF_INET6 x \<Rightarrow> inet_ntop (ntop6 x) out_str MAX_IP_ADD_STR_LENGTH
      | AF_OTHER \<Rightarrow> bindR (strncpy out_str (lit ''Unknown AF'') MAX_IP_ADD_STR_LENGTH) (\<lambda>out_str.
          Inr (out_str[MAX_IP_ADD_STR_LENGTH - 1 := NUL])))"

section \<open>Lemmas\<close>

lemma length_show_nat_1000: "n < 1000 \<Longrightarrow> length (show_nat n) \<le> 3"
proof -
  assume "n < 1000"
  then have "n div 10 div 10 < 10" by (simp add: less_mult_imp_div_less div_mult2_eq [symmetric])
  then show ?thesis by (subst show_nat.simps) (simp add: show_nat.simps [of "n div 10"] show_nat.simps [of "n div 10 div 10"])
qed

lemma octet_text: "length (show_nat (unat (a :: 8 word))) \<le> 3"
  by (rule length_show_nat_1000) (use unsigned_less [of a, where ?'a = nat] in simp)

lemma length_dotted: "length (dotted a b c d) \<le> 15"
  using octet_text [of a] octet_text [of b] octet_text [of c] octet_text [of d] by (simp add: dotted_def)

lemma dotted_no_NUL [simp]: "NUL \<notin> set (dotted a b c d)"
  using show_nat_no_NUL by (auto simp only: dotted_def set_append list.set Un_iff insert_iff)

lemma show_nat_no_dot: "CHR ''.'' \<notin> set (show_nat n)"
proof -
  have "\<not> isdigit CHR ''.''" by (simp add: isdigit_def)
  then show ?thesis using show_nat_digits [of n] by (auto simp: list_all_iff)
qed

lemma show_nat_inject [simp]: "show_nat m = show_nat n \<longleftrightarrow> m = n"
  using digits_val_show_nat by metis

lemma append_dot_inject:
  assumes "CHR ''.'' \<notin> set x" "CHR ''.'' \<notin> set y"
  shows "x @ CHR ''.'' # xs = y @ CHR ''.'' # ys \<longleftrightarrow> x = y \<and> xs = ys"
  using assms
proof (induction x arbitrary: y)
  case (Cons c x)
  then show ?case by (cases y) auto
next
  case Nil
  then show ?case by (cases y) auto
qed

lemma dotted_inject: "dotted a b c d = dotted a' b' c' d' \<longleftrightarrow> a = a' \<and> b = b' \<and> c = c' \<and> d = d'"
  by (simp add: dotted_def append_dot_inject show_nat_no_dot unsigned_word_eqI)
    (auto simp: word_unat_eq_iff)

section \<open>Properties\<close>

text \<open>C32: the address of an IPv4 client. Whatever the array of 16 bytes held before, it then holds the address as a
  terminated text of at most 15 characters, and two clients have the same text only if they have the same address.\<close>

theorem get_ip_str_correct:
  assumes "length out = MAX_IP_ADD_STR_LENGTH"
  shows "\<exists>r. get_ip_str ntop6 (AF_INET a b c d) out = Inr r \<and> length r = MAX_IP_ADD_STR_LENGTH \<and> terminated r \<and>
    (\<forall>out' r' a' b' c' d'. length out' = MAX_IP_ADD_STR_LENGTH \<and> get_ip_str ntop6 (AF_INET a' b' c' d') out' = Inr r' \<longrightarrow>
      (cstr r = cstr r' \<longleftrightarrow> (a, b, c, d) = (a', b', c', d')))"
proof -
  have run: "get_ip_str ntop6 (AF_INET a b c d) out = Inr (lit (dotted a b c d) @ drop (Suc (length (dotted a b c d))) out)"
    if "length out = MAX_IP_ADD_STR_LENGTH" for a b c d and out :: bytes
    using that length_dotted [of a b c d] by (simp add: get_ip_str_def inet_ntop_def)
  show ?thesis
    using assms length_dotted [of a b c d] by (auto simp: run dotted_inject)
qed

theorem get_ip_str_correct_witness:
  "\<exists>r. get_ip_str (\<lambda>_. []) (AF_INET 10 0 0 1) (zeros 16) = Inr r \<and> length r = 16 \<and> terminated r"
  using get_ip_str_correct [of "zeros 16" "\<lambda>_. []" 10 0 0 1] by auto

end
