(* ===== verification/PollLoop.thy ===== *)
theory PollLoop
  imports Service Address
begin

text \<open>
  \<^verbatim>\<open>init_pollfd\<close> and \<^verbatim>\<open>run_server\<close> of \<^verbatim>\<open>src/main-chat-server.c\<close>: the array of polled descriptors, the array of client
  addresses and the loop around \<^verbatim>\<open>poll\<close>. What the operating system returns is input of the model: the results of the calls
  that open the server socket (\<open>net\<close>), and for each round the data that arrived, the events \<^verbatim>\<open>poll\<close> reports and the
  connection \<^verbatim>\<open>accept\<close> returns (\<open>round\<close>). The loop runs as many rounds as it is given, since it ends when the user
  interface clears \<^verbatim>\<open>server_running\<close>.
\<close>

section \<open>Operations\<close>

abbreviation POLLIN :: int where "POLLIN \<equiv> 1"

record pollfd =
  pf_fd :: int
  pf_events :: int
  pf_revents :: int

text \<open>The array is not initialised before, only its first element is cleared.\<close>

definition init_pollfd :: "pollfd list \<Rightarrow> int \<Rightarrow> pollfd list" where
  "init_pollfd pollfds server_sock =
     (let pollfds = pollfds[0 := \<lparr>pf_fd = 0, pf_events = 0, pf_revents = 0\<rparr>];
          pollfds = pollfds[0 := \<lparr>pf_fd = server_sock, pf_events = POLLIN, pf_revents = 0\<rparr>]
      in fold (\<lambda>i pollfds. pollfds[i := (pollfds ! i)\<lparr>pf_fd := -1\<rparr>]) [1..<MAX_CLIENTS] pollfds)"

record 'w loop_state =
  lp_pollfds :: "pollfd list"
  lp_addrs :: "bytes list"
  lp_server :: "'w server"

record round =
  rd_arrived :: "int \<Rightarrow> bytes list"
  rd_result :: int
  rd_revents :: "int list"
  rd_client :: int
  rd_addr :: sockaddr

text \<open>The search for a free slot; a client for whom there is none is forgotten.\<close>

fun add_client ::
  "(8 word list \<Rightarrow> string) \<Rightarrow> nat list \<Rightarrow> int \<Rightarrow> sockaddr \<Rightarrow> pollfd list \<Rightarrow> bytes list \<Rightarrow> (pollfd list \<times> bytes list) result"
where
  "add_client ntop6 [] client_sock sa pollfds addrs = Inr (pollfds, addrs)"
| "add_client ntop6 (i # is) client_sock sa pollfds addrs =
     (if pf_fd (pollfds ! i) = -1
      then bindR (get_ip_str ntop6 sa (addrs ! i)) (\<lambda>a.
        Inr (pollfds[i := \<lparr>pf_fd = client_sock, pf_events = POLLIN, pf_revents = 0\<rparr>], addrs[i := a]))
      else add_client ntop6 is client_sock sa pollfds addrs)"

text \<open>A descriptor that \<^verbatim>\<open>accept\<close> returns is open, without data.\<close>

definition sys_accept :: "int \<Rightarrow> 'w server \<Rightarrow> 'w server" where
  "sys_accept fd s = s\<lparr>closed := removeAll fd (closed s), inq := (inq s)(fd := [])\<rparr>"

text \<open>The switch over \<^verbatim>\<open>revents\<close>: only \<^verbatim>\<open>POLLIN\<close> has an effect, and the result of \<^verbatim>\<open>handle_request\<close> has none.\<close>

fun clients_loop :: "'w env \<Rightarrow> nat list \<Rightarrow> pollfd list \<Rightarrow> bytes list \<Rightarrow> 'w server \<Rightarrow> 'w server result" where
  "clients_loop E [] pollfds addrs s = Inr s"
| "clients_loop E (i # is) pollfds addrs s =
     (if pf_revents (pollfds ! i) = POLLIN
      then bindR (handle_request E s (pf_fd (pollfds ! i)) (addrs ! i)) (\<lambda>(_, s). clients_loop E is pollfds addrs s)
      else clients_loop E is pollfds addrs s)"

definition set_revents :: "int list \<Rightarrow> pollfd list \<Rightarrow> pollfd list" where
  "set_revents rs pollfds = map2 (\<lambda>r p. p\<lparr>pf_revents := r\<rparr>) rs pollfds"

definition accept_client ::
  "(8 word list \<Rightarrow> string) \<Rightarrow> round \<Rightarrow> pollfd list \<times> bytes list \<times> 'w server \<Rightarrow> (pollfd list \<times> bytes list \<times> 'w server) result"
where
  "accept_client ntop6 x = (\<lambda>(pollfds, addrs, s).
     if pf_revents (pollfds ! 0) = POLLIN
     then if rd_client x < 0 then Inl (Exited 2)
       else bindR (add_client ntop6 [1..<MAX_CLIENTS] (rd_client x) (rd_addr x) pollfds addrs) (\<lambda>(pollfds, addrs).
         Inr (pollfds, addrs, sys_accept (rd_client x) s))
     else Inr (pollfds, addrs, s))"

definition poll_round ::
  "(8 word list \<Rightarrow> string) \<Rightarrow> 'w env \<Rightarrow> 'w loop_state \<Rightarrow> round \<Rightarrow> 'w loop_state result"
where
  "poll_round ntop6 E lp x =
     (let s = (lp_server lp)\<lparr>inq := \<lambda>fd. inq (lp_server lp) fd @ rd_arrived x fd\<rparr>;
          pollfds = set_revents (rd_revents x) (lp_pollfds lp)
      in if rd_result x > 0
         then bindR (accept_client ntop6 x (pollfds, lp_addrs lp, s)) (\<lambda>(pollfds, addrs, s).
           bindR (clients_loop E [1..<MAX_CLIENTS] pollfds addrs s) (\<lambda>s.
             Inr \<lparr>lp_pollfds = pollfds, lp_addrs = addrs, lp_server = s\<rparr>))
         else Inr \<lparr>lp_pollfds = pollfds, lp_addrs = lp_addrs lp, lp_server = s\<rparr>)"

fun run_loop ::
  "(8 word list \<Rightarrow> string) \<Rightarrow> 'w env \<Rightarrow> 'w loop_state \<Rightarrow> round list \<Rightarrow> 'w loop_state result"
where
  "run_loop ntop6 E lp [] = Inr lp"
| "run_loop ntop6 E lp (x # xs) = bindR (poll_round ntop6 E lp x) (\<lambda>lp. run_loop ntop6 E lp xs)"

record net =
  nt_socket :: int
  nt_setsockopt :: int
  nt_bind :: int
  nt_listen :: int

text \<open>After the loop every slot is closed, the free ones included, and the server socket.\<close>

definition close_all :: "pollfd list \<Rightarrow> int \<Rightarrow> 'w server \<Rightarrow> 'w server" where
  "close_all pollfds server_sock s =
     sys_close server_sock (fold (\<lambda>i s. sys_close (pf_fd (pollfds ! i)) s) [1..<MAX_CLIENTS] s)"

definition start_state :: "pollfd list \<Rightarrow> int \<Rightarrow> 'w server \<Rightarrow> 'w loop_state" where
  "start_state junk server_sock s =
     \<lparr>lp_pollfds = init_pollfd junk server_sock, lp_addrs = replicate MAX_CLIENTS (zeros MAX_IP_ADD_STR_LENGTH), lp_server = s\<rparr>"

definition run_server ::
  "(8 word list \<Rightarrow> string) \<Rightarrow> 'w env \<Rightarrow> net \<Rightarrow> pollfd list \<Rightarrow> round list \<Rightarrow> 'w server \<Rightarrow> (int \<times> 'w server) result"
where
  "run_server ntop6 E net junk rounds s =
     (let server_sock = nt_socket net
      in if server_sock < 0 then Inr (-1, s)
         else if nt_setsockopt net < 0 \<or> nt_bind net < 0 \<or> nt_listen net < 0 then Inr (-1, sys_close server_sock s)
         else bindR (init_databases E (world s)) (\<lambda>w.
           bindR (run_loop ntop6 E (start_state junk server_sock (s\<lparr>world := w\<rparr>)) rounds) (\<lambda>lp.
             Inr (0, close_all (lp_pollfds lp) server_sock (lp_server lp)))))"

section \<open>Lemmas\<close>

subsection \<open>The slots\<close>

text \<open>The descriptors of the array: the server socket, then the clients in the order of their arrival as far as there is room.\<close>

definition slots :: "int \<Rightarrow> int list \<Rightarrow> int list" where
  "slots server_sock clients = server_sock # take (MAX_CLIENTS - 1) clients @ replicate (MAX_CLIENTS - 1 - length clients) (-1)"

lemma length_slots [simp]: "length (slots sock cs) = MAX_CLIENTS"
  by (simp add: slots_def)

lemma nth_slots:
  "slots sock cs ! 0 = sock" "i < MAX_CLIENTS - 1 \<Longrightarrow> slots sock cs ! Suc i = (if i < length cs then cs ! i else -1)"
  by (simp_all add: slots_def nth_append)

lemma slots_snoc:
  assumes "length cs < MAX_CLIENTS - 1"
  shows "(slots sock cs)[Suc (length cs) := c] = slots sock (cs @ [c])"
proof (rule nth_equalityI)
  fix i assume "i < length ((slots sock cs)[Suc (length cs) := c])"
  then show "(slots sock cs)[Suc (length cs) := c] ! i = slots sock (cs @ [c]) ! i"
    using assms by (cases i) (auto simp: nth_slots nth_list_update nth_append)
qed simp

lemma slots_full: "MAX_CLIENTS - 1 \<le> length cs \<Longrightarrow> slots sock (cs @ [c]) = slots sock cs"
  by (simp add: slots_def)

lemma find_free:
  assumes "-1 \<notin> set cs"
  shows "find (\<lambda>i. slots sock cs ! i = -1) [1..<MAX_CLIENTS] = (if length cs < MAX_CLIENTS - 1 then Some (Suc (length cs)) else None)"
proof (cases "length cs < MAX_CLIENTS - 1")
  case True
  have "slots sock cs ! Suc i \<noteq> -1" if "i < length cs" for i
    using that assms True by (auto simp: nth_slots in_set_conv_nth)
  with True show ?thesis
    by (auto simp: find_Some_iff nth_slots intro!: exI [of _ "length cs"])
next
  case False
  have "slots sock cs ! i \<noteq> -1" if i: "i \<in> set [1..<MAX_CLIENTS]" for i
  proof -
    from i have "1 \<le> i" "i < MAX_CLIENTS" unfolding set_upt by simp_all
    then obtain j where j: "i = Suc j" "j < MAX_CLIENTS - 1" by (cases i) simp_all
    have "cs ! j \<in> set cs" by (rule nth_mem) (use j False in simp)
    then have "cs ! j \<noteq> -1" using assms by metis
    then show ?thesis using j False by (simp add: nth_slots)
  qed
  with False show ?thesis by (auto simp: find_None_iff)
qed

lemma add_client_find:
  "add_client ntop6 is c sa pollfds addrs = (case find (\<lambda>i. pf_fd (pollfds ! i) = -1) is of
     None \<Rightarrow> Inr (pollfds, addrs)
   | Some i \<Rightarrow> bindR (get_ip_str ntop6 sa (addrs ! i)) (\<lambda>a.
       Inr (pollfds[i := \<lparr>pf_fd = c, pf_events = POLLIN, pf_revents = 0\<rparr>], addrs[i := a])))"
  by (induction "is") auto

lemma get_ip_ok:
  assumes "addr_ok out"
  shows "\<exists>r. get_ip_str ntop6 sa out = Inr r \<and> addr_ok r \<and> (\<forall>a b c d. sa = AF_INET a b c d \<longrightarrow> cstr r = dotted a b c d)"
proof (cases sa)
  case (AF_INET a b c d)
  then show ?thesis using assms length_dotted [of a b c d] by (auto simp: get_ip_str_def inet_ntop_def addr_ok_def)
next
  case (AF_INET6 x)
  then show ?thesis using assms by (auto simp: get_ip_str_def inet_ntop_def addr_ok_def)
next
  case AF_OTHER
  then show ?thesis using assms by (simp add: get_ip_str_def addr_ok_def clib terminated_def set_update_memI)
qed

text \<open>The rounds in which a client connects, and the state of the arrays after them.\<close>

definition accepts :: "round \<Rightarrow> bool" where
  "accepts x \<longleftrightarrow> rd_result x > 0 \<and> rd_revents x ! 0 = POLLIN"

definition arrays_ok :: "int \<Rightarrow> round list \<Rightarrow> pollfd list \<Rightarrow> bytes list \<Rightarrow> bool" where
  "arrays_ok sock ys pollfds addrs \<longleftrightarrow> map pf_fd pollfds = slots sock (map rd_client ys) \<and> (\<forall>y \<in> set ys. 0 \<le> rd_client y) \<and>
     length addrs = MAX_CLIENTS \<and> list_all addr_ok addrs \<and>
     (\<forall>i a b c d. i < length ys \<and> i < MAX_CLIENTS - 1 \<and> rd_addr (ys ! i) = AF_INET a b c d \<longrightarrow> cstr (addrs ! Suc i) = dotted a b c d)"

lemma arrays_okD:
  assumes "arrays_ok sock ys pollfds addrs"
  shows "length pollfds = MAX_CLIENTS" "i < MAX_CLIENTS \<Longrightarrow> pf_fd (pollfds ! i) = slots sock (map rd_client ys) ! i"
    "length addrs = MAX_CLIENTS" "i < MAX_CLIENTS \<Longrightarrow> addr_ok (addrs ! i)"
proof -
  from assms have m: "map pf_fd pollfds = slots sock (map rd_client ys)" by (simp add: arrays_ok_def)
  from arg_cong [OF this, of length] show l: "length pollfds = MAX_CLIENTS" by simp
  show "i < MAX_CLIENTS \<Longrightarrow> pf_fd (pollfds ! i) = slots sock (map rd_client ys) ! i" using l arg_cong [OF m, of "\<lambda>x. x ! i"] by simp
qed (use assms in \<open>auto simp: arrays_ok_def list_all_iff\<close>)

lemma arrays_ok_add:
  assumes A: "arrays_ok sock ys pollfds addrs" and C: "0 \<le> rd_client x"
  shows "\<exists>pollfds' addrs'. add_client ntop6 [1..<MAX_CLIENTS] (rd_client x) (rd_addr x) pollfds addrs = Inr (pollfds', addrs') \<and>
    arrays_ok sock (ys @ [x]) pollfds' addrs'"
proof -
  let ?cs = "map rd_client ys"
  note D = arrays_okD [OF A]
  have n: "-1 \<notin> set ?cs" using A by (force simp: arrays_ok_def)
  have "find (\<lambda>i. pf_fd (pollfds ! i) = -1) [1..<MAX_CLIENTS] = find (\<lambda>i. slots sock ?cs ! i = -1) [1..<MAX_CLIENTS]"
    by (rule find_cong) (use D(2) in auto)
  also note find_free [OF n]
  finally have f: "find (\<lambda>i. pf_fd (pollfds ! i) = -1) [1..<MAX_CLIENTS] = (if length ys < MAX_CLIENTS - 1 then Some (Suc (length ys)) else None)"
    by simp
  show ?thesis
  proof (cases "length ys < MAX_CLIENTS - 1")
    case True
    then obtain r where r: "get_ip_str ntop6 (rd_addr x) (addrs ! Suc (length ys)) = Inr r" "addr_ok r"
      "\<And>a b c d. rd_addr x = AF_INET a b c d \<Longrightarrow> cstr r = dotted a b c d"
      using get_ip_ok [OF D(4)] by (metis Suc_less_eq Suc_diff_1 zero_less_numeral)
    have "map pf_fd (pollfds[Suc (length ys) := \<lparr>pf_fd = rd_client x, pf_events = POLLIN, pf_revents = 0\<rparr>]) = slots sock (map rd_client (ys @ [x]))"
      using A True slots_snoc [of ?cs sock "rd_client x"] by (simp add: arrays_ok_def map_update)
    then have "arrays_ok sock (ys @ [x]) (pollfds[Suc (length ys) := \<lparr>pf_fd = rd_client x, pf_events = POLLIN, pf_revents = 0\<rparr>]) (addrs[Suc (length ys) := r])"
      using A C D(3) True r(2,3) by (auto simp: arrays_ok_def list_all_update nth_append less_Suc_eq)
    then show ?thesis using True f r(1) by (simp add: add_client_find del: upt_Suc upt_conv_Cons)
  next
    case False
    then have "arrays_ok sock (ys @ [x]) pollfds addrs"
      using A C slots_full [of ?cs sock "rd_client x"] by (auto simp: arrays_ok_def nth_append)
    then show ?thesis using False f by (simp add: add_client_find)
  qed
qed

lemma arrays_ok_revents: "arrays_ok sock ys pollfds addrs \<Longrightarrow> length rs = MAX_CLIENTS \<Longrightarrow> arrays_ok sock ys (set_revents rs pollfds) addrs"
proof -
  assume A: "arrays_ok sock ys pollfds addrs" and R: "length rs = MAX_CLIENTS"
  have "map pf_fd (set_revents rs pollfds) = map pf_fd pollfds"
    by (rule nth_equalityI) (use arrays_okD(1) [OF A] R in \<open>auto simp: set_revents_def\<close>)
  with A show ?thesis by (simp add: arrays_ok_def)
qed

lemma nth_set_revents: "i < length rs \<Longrightarrow> i < length pollfds \<Longrightarrow> pf_revents (set_revents rs pollfds ! i) = rs ! i"
  by (simp add: set_revents_def)

lemma accept_client_spec:
  assumes A: "arrays_ok sock ys pollfds addrs" and R: "length (rd_revents x) = MAX_CLIENTS" and X: "rd_result x > 0"
  shows "accept_client ntop6 x (set_revents (rd_revents x) pollfds, addrs, s) = Inl (Exited 2) \<and> accepts x \<and> rd_client x < 0 \<or>
    (\<exists>pollfds' addrs'. accept_client ntop6 x (set_revents (rd_revents x) pollfds, addrs, s) =
        Inr (pollfds', addrs', if accepts x then sys_accept (rd_client x) s else s) \<and>
      arrays_ok sock (if accepts x then ys @ [x] else ys) pollfds' addrs' \<and> (accepts x \<longrightarrow> 0 \<le> rd_client x))"
proof -
  note B = arrays_ok_revents [OF A R]
  have "pf_revents (set_revents (rd_revents x) pollfds ! 0) = rd_revents x ! 0"
    by (rule nth_set_revents) (use arrays_okD(1) [OF A] R in simp_all)
  then show ?thesis
    using B arrays_ok_add [OF B, of x ntop6] X by (cases "rd_client x < 0") (auto simp: accept_client_def accepts_def)
qed

lemma poll_round_arrays:
  assumes "arrays_ok sock ys (lp_pollfds lp) (lp_addrs lp)" "length (rd_revents x) = MAX_CLIENTS" "poll_round ntop6 E lp x = Inr lp'"
  shows "arrays_ok sock (if accepts x then ys @ [x] else ys) (lp_pollfds lp') (lp_addrs lp')"
proof (cases "rd_result x > 0")
  case True
  show ?thesis
    using accept_client_spec [OF assms(1,2) True, of ntop6 "(lp_server lp)\<lparr>inq := \<lambda>fd. inq (lp_server lp) fd @ rd_arrived x fd\<rparr>"] assms(3) True
    by (fastforce simp: poll_round_def Let_def bindR_eq_Inr)
next
  case False
  then show ?thesis using assms arrays_ok_revents [OF assms(1,2)] by (auto simp: poll_round_def Let_def accepts_def)
qed

lemma run_loop_arrays:
  assumes "arrays_ok sock ys (lp_pollfds lp) (lp_addrs lp)" "\<And>x. x \<in> set xs \<Longrightarrow> length (rd_revents x) = MAX_CLIENTS"
    "run_loop ntop6 E lp xs = Inr lp'"
  shows "arrays_ok sock (ys @ filter accepts xs) (lp_pollfds lp') (lp_addrs lp')"
  using assms
proof (induction xs arbitrary: ys lp)
  case (Cons x xs)
  from Cons.prems(3) obtain lp1 where lp1: "poll_round ntop6 E lp x = Inr lp1" "run_loop ntop6 E lp1 xs = Inr lp'"
    by (auto simp: bindR_eq_Inr)
  have "arrays_ok sock (if accepts x then ys @ [x] else ys) (lp_pollfds lp1) (lp_addrs lp1)"
    using poll_round_arrays [OF Cons.prems(1) _ lp1(1)] Cons.prems(2) by simp
  from Cons.IH [OF this _ lp1(2)] Cons.prems(2) show ?case by (cases "accepts x") simp_all
qed simp

lemma init_pollfd_slots:
  assumes "length junk = MAX_CLIENTS"
  shows "map pf_fd (init_pollfd junk sock) = slots sock []"
proof -
  have f: "map pf_fd (fold (\<lambda>i pollfds. pollfds[i := (pollfds ! i)\<lparr>pf_fd := -1\<rparr>]) [1..<Suc n] ps) =
      map pf_fd (take 1 ps) @ replicate n (-1) @ map pf_fd (drop (Suc n) ps)" if "n < length ps" for n and ps :: "pollfd list"
    using that
  proof (induction n)
    case (Suc n)
    then show ?case
      by (simp add: map_update list_update_append nth_append Cons_nth_drop_Suc [symmetric] replicate_append_same del: upt_conv_Cons)
  qed (cases ps; simp)
  from f [of 254 "junk[0 := \<lparr>pf_fd = sock, pf_events = POLLIN, pf_revents = 0\<rparr>]"] assms show ?thesis
    by (cases junk) (simp_all add: init_pollfd_def slots_def Let_def)
qed

subsection \<open>Service\<close>

text \<open>Every ready slot has an admissible request when its turn comes.\<close>

fun clients_ok :: "'w env \<Rightarrow> 'w tables \<Rightarrow> nat list \<Rightarrow> pollfd list \<Rightarrow> bytes list \<Rightarrow> 'w server \<Rightarrow> bool" where
  "clients_ok E tab [] pollfds addrs s \<longleftrightarrow> True"
| "clients_ok E tab (i # is) pollfds addrs s \<longleftrightarrow>
     (if pf_revents (pollfds ! i) = POLLIN
      then (\<exists>h q. request_at s (pf_fd (pollfds ! i)) h q \<and> admissible E s (tab (world s)) (addrs ! i) q) \<and>
        (\<forall>r s'. handle_request E s (pf_fd (pollfds ! i)) (addrs ! i) = Inr (r, s') \<longrightarrow> clients_ok E tab is pollfds addrs s')
      else clients_ok E tab is pollfds addrs s)"

definition with_arrivals :: "'w server \<Rightarrow> round \<Rightarrow> 'w server" where
  "with_arrivals s x = s\<lparr>inq := \<lambda>fd. inq s fd @ rd_arrived x fd\<rparr>"

fun rounds_ok ::
  "(8 word list \<Rightarrow> string) \<Rightarrow> 'w env \<Rightarrow> 'w tables \<Rightarrow> 'w loop_state \<Rightarrow> round list \<Rightarrow> bool"
where
  "rounds_ok ntop6 E tab lp [] \<longleftrightarrow> True"
| "rounds_ok ntop6 E tab lp (x # xs) \<longleftrightarrow> length (rd_revents x) = MAX_CLIENTS \<and> (accepts x \<longrightarrow> 0 \<le> rd_client x) \<and>
     (\<forall>pollfds addrs s. rd_result x > 0 \<and>
       accept_client ntop6 x (set_revents (rd_revents x) (lp_pollfds lp), lp_addrs lp, with_arrivals (lp_server lp) x) = Inr (pollfds, addrs, s) \<longrightarrow>
       clients_ok E tab [1..<MAX_CLIENTS] pollfds addrs s) \<and>
     (\<forall>lp'. poll_round ntop6 E lp x = Inr lp' \<longrightarrow> rounds_ok ntop6 E tab lp' xs)"

lemma in_service_cong: "world s' = world s \<Longrightarrow> cache s' = cache s \<Longrightarrow> in_service E tab opn s' \<longleftrightarrow> in_service E tab opn s"
  by (simp add: in_service_def serviceable_def)

lemma in_service_env [simp]:
  "in_service E tab opn (sys_accept fd s) \<longleftrightarrow> in_service E tab opn s" "in_service E tab opn (with_arrivals s x) \<longleftrightarrow> in_service E tab opn s"
  "in_service E tab opn (sys_close fd s) \<longleftrightarrow> in_service E tab opn s"
  by (simp_all add: in_service_def serviceable_def sys_accept_def with_arrivals_def sys_close_def)

lemma clients_loop_serves:
  assumes "reopen_law E tab opn" "in_service E tab opn s" "clients_ok E tab is pollfds addrs s" "\<And>i. i \<in> set is \<Longrightarrow> addr_ok (addrs ! i)"
  shows "\<exists>s'. clients_loop E is pollfds addrs s = Inr s' \<and> in_service E tab opn s'"
  using assms(2-)
proof (induction "is" arbitrary: s)
  case (Cons i "is")
  show ?case
  proof (cases "pf_revents (pollfds ! i) = POLLIN")
    case True
    with Cons.prems(2) obtain h q where q: "request_at s (pf_fd (pollfds ! i)) h q" "admissible E s (tab (world s)) (addrs ! i) q" by auto
    have "served E tab opn s (pf_fd (pollfds ! i)) (addrs ! i)"
      using serve_request [OF Cons.prems(1) [unfolded in_service_def] assms(1) q] Cons.prems(3) by simp
    then obtain s' t' where s': "handle_request E s (pf_fd (pollfds ! i)) (addrs ! i) = Inr (0, s')" "serviceable E tab opn s' t'"
      by (auto simp: served_def)
    then have "in_service E tab opn s'" using serviceable_tab unfolding in_service_def by fastforce
    with Cons.IH [of s'] Cons.prems s'(1) True show ?thesis by auto
  qed (use Cons in auto)
qed simp

lemma poll_round_serves:
  assumes A: "arrays_ok sock ys (lp_pollfds lp) (lp_addrs lp)" and R: "reopen_law E tab opn" and S: "in_service E tab opn (lp_server lp)"
    and O: "rounds_ok ntop6 E tab lp (x # xs)"
  shows "\<exists>lp'. poll_round ntop6 E lp x = Inr lp' \<and> in_service E tab opn (lp_server lp') \<and> rounds_ok ntop6 E tab lp' xs"
proof -
  from O have x: "length (rd_revents x) = MAX_CLIENTS" "accepts x \<Longrightarrow> 0 \<le> rd_client x" by auto
  have "\<exists>lp'. poll_round ntop6 E lp x = Inr lp' \<and> in_service E tab opn (lp_server lp')"
  proof (cases "rd_result x > 0")
    case True
    from accept_client_spec [OF A x(1) True, of ntop6 "with_arrivals (lp_server lp) x"] x(2) obtain p a where
      a: "accept_client ntop6 x (set_revents (rd_revents x) (lp_pollfds lp), lp_addrs lp, with_arrivals (lp_server lp) x) =
          Inr (p, a, if accepts x then sys_accept (rd_client x) (with_arrivals (lp_server lp) x) else with_arrivals (lp_server lp) x)" (is "_ = Inr (p, a, ?s)")
        "arrays_ok sock (if accepts x then ys @ [x] else ys) p a" by fastforce
    have "clients_ok E tab [1..<MAX_CLIENTS] p a ?s" using O True a(1) by auto
    moreover have "addr_ok (a ! i)" if "i \<in> set [1..<MAX_CLIENTS]" for i using arrays_okD(4) [OF a(2)] that unfolding set_upt by simp
    moreover have "in_service E tab opn ?s" using S by simp
    ultimately obtain s' where "clients_loop E [1..<MAX_CLIENTS] p a ?s = Inr s'" "in_service E tab opn s'"
      using clients_loop_serves [OF R] by blast
    with True a(1) show ?thesis by (simp add: poll_round_def Let_def with_arrivals_def [symmetric])
  next
    case False
    then show ?thesis using S by (simp add: poll_round_def Let_def with_arrivals_def [symmetric])
  qed
  with O show ?thesis by auto
qed

lemma run_loop_serves:
  assumes "arrays_ok sock ys (lp_pollfds lp) (lp_addrs lp)" "reopen_law E tab opn" "in_service E tab opn (lp_server lp)" "rounds_ok ntop6 E tab lp xs"
  shows "\<exists>lp'. run_loop ntop6 E lp xs = Inr lp' \<and> in_service E tab opn (lp_server lp')"
  using assms
proof (induction xs arbitrary: ys lp)
  case (Cons x xs)
  from poll_round_serves [OF Cons.prems] obtain lp1 where
    lp1: "poll_round ntop6 E lp x = Inr lp1" "in_service E tab opn (lp_server lp1)" "rounds_ok ntop6 E tab lp1 xs" by blast
  have "arrays_ok sock (if accepts x then ys @ [x] else ys) (lp_pollfds lp1) (lp_addrs lp1)"
    using poll_round_arrays [OF Cons.prems(1) _ lp1(1)] Cons.prems(4) by simp
  from Cons.IH [OF this assms(2) lp1(2,3)] lp1(1) show ?case by auto
qed auto

lemma start_arrays:
  assumes "length junk = MAX_CLIENTS"
  shows "arrays_ok sock [] (lp_pollfds (start_state junk sock s)) (lp_addrs (start_state junk sock s))"
  using init_pollfd_slots [OF assms] by (simp add: arrays_ok_def start_state_def list_all_iff addr_ok_def del: upt_Suc)

lemma in_service_close_all [simp]: "in_service E tab opn (close_all pollfds sock s) \<longleftrightarrow> in_service E tab opn s"
proof -
  have "in_service E tab opn (fold (\<lambda>i s. sys_close (pf_fd (pollfds ! i)) s) is s) \<longleftrightarrow> in_service E tab opn s" for "is" s
    by (induction "is" arbitrary: s) simp_all
  then show ?thesis by (simp add: close_all_def)
qed

subsection \<open>Quiet slots\<close>

lemma clients_quiet:
  assumes "\<And>i. i \<in> set is \<Longrightarrow> pf_revents (pollfds ! i) \<noteq> POLLIN"
  shows "clients_ok E tab is pollfds addrs s" "clients_loop E is pollfds addrs s = Inr s"
  using assms by (induction "is") auto

lemma accept_revents:
  assumes "accept_client ntop6 x (set_revents (rd_revents x) pollfds, addrs, s) = Inr (p, a, s')"
    "length (rd_revents x) = MAX_CLIENTS" "length pollfds = MAX_CLIENTS" "i < MAX_CLIENTS"
  shows "pf_revents (p ! i) = rd_revents x ! i \<or> pf_revents (p ! i) = 0"
proof -
  let ?p = "set_revents (rd_revents x) pollfds"
  have "p = ?p \<or> (\<exists>j. p = ?p[j := \<lparr>pf_fd = rd_client x, pf_events = POLLIN, pf_revents = 0\<rparr>])"
    using assms(1) by (auto simp: accept_client_def add_client_find bindR_eq_Inr simp del: upt_Suc split: if_splits option.splits)
  moreover have "length ?p = MAX_CLIENTS" using assms(2,3) by (simp add: set_revents_def)
  moreover have "pf_revents (?p ! i) = rd_revents x ! i" by (rule nth_set_revents) (use assms(2-4) in simp_all)
  ultimately show ?thesis using assms(4) by (auto simp: nth_list_update list_update_beyond not_less)
     (metis list_update_beyond not_le nth_list_update_eq nth_list_update_neq pollfd.select_convs(3))+
qed

lemma run_server_run:
  assumes "serviceable E tab opn s t" and "reopen_law E tab opn" and "length junk = MAX_CLIENTS"
    and "\<forall>w. init_databases E (world s) = Inr w \<longrightarrow> rounds_ok ntop6 E tab (start_state junk (nt_socket net) (s\<lparr>world := w\<rparr>)) rounds"
  shows "\<exists>r s'. run_server ntop6 E net junk rounds s = Inr (r, s') \<and>
    (if nt_socket net < 0 \<or> nt_setsockopt net < 0 \<or> nt_bind net < 0 \<or> nt_listen net < 0
     then r = -1 \<and> world s' = world s \<and> cache s' = cache s
     else r = 0 \<and> serviceable E tab opn s' (tab (world s')))"
proof (cases "nt_socket net < 0 \<or> nt_setsockopt net < 0 \<or> nt_bind net < 0 \<or> nt_listen net < 0")
  case True
  then show ?thesis by (auto simp: run_server_def Let_def sys_close_def)
next
  case False
  note D = serviceableD [OF assms(1)]
  from service_start [OF D(1,3,4,2)] obtain w where w: "init_databases E (world s) = Inr w" "in_service E tab opn (s\<lparr>world := w\<rparr>)"
    by auto
  let ?lp = "start_state junk (nt_socket net) (s\<lparr>world := w\<rparr>)"
  have "in_service E tab opn (lp_server ?lp)" "rounds_ok ntop6 E tab ?lp rounds" using w assms(4) by (simp_all add: start_state_def)
  from run_loop_serves [OF start_arrays [OF assms(3)] assms(2) this] obtain lp' where
    "run_loop ntop6 E ?lp rounds = Inr lp'" "in_service E tab opn (lp_server lp')" by blast
  with w(1) have "run_server ntop6 E net junk rounds s = Inr (0, close_all (lp_pollfds lp') (nt_socket net) (lp_server lp'))"
    "in_service E tab opn (close_all (lp_pollfds lp') (nt_socket net) (lp_server lp'))" using False by (simp_all add: run_server_def Let_def)
  with False show ?thesis unfolding in_service_def by simp
qed

lemma run_server_in_service:
  assumes "in_service E tab opn s" "reopen_law E tab opn" "length junk = MAX_CLIENTS"
    "\<forall>w. init_databases E (world s) = Inr w \<longrightarrow> rounds_ok ntop6 E tab (start_state junk (nt_socket net) (s\<lparr>world := w\<rparr>)) rounds"
  shows "\<exists>r s'. run_server ntop6 E net junk rounds s = Inr (r, s') \<and> in_service E tab opn s'"
  using run_server_run [OF assms(1) [unfolded in_service_def] assms(2-4)] assms(1) in_service_cong [of _ s E tab opn]
  by (fastforce simp: in_service_def split: if_splits)

section \<open>Properties\<close>

text \<open>C23: the descriptors that are polled. In every run that is not cut short, whatever the requests do, the first element
  of the array stays the server socket, and behind it stand the first 254 clients in the order in which they connected,
  each with its address: a slot is never freed or used again, and a client who connects after 254 others, also after
  they are gone, is accepted and never served.\<close>

theorem poll_slots:
  assumes "length junk = MAX_CLIENTS" and "\<forall>x \<in> set rounds. length (rd_revents x) = MAX_CLIENTS"
    and "run_loop ntop6 E (start_state junk sock s) rounds = Inr lp"
  shows "map pf_fd (lp_pollfds lp) = slots sock (map rd_client (filter accepts rounds)) \<and>
    (\<forall>i a b c d. i < length (filter accepts rounds) \<and> i < MAX_CLIENTS - 1 \<and> rd_addr (filter accepts rounds ! i) = AF_INET a b c d \<longrightarrow>
      cstr (lp_addrs lp ! Suc i) = dotted a b c d)"
  using run_loop_arrays [OF start_arrays [OF assms(1)] _ assms(3)] assms(2) by (simp add: arrays_ok_def)

definition demo_connect :: round where
  "demo_connect = \<lparr>rd_arrived = \<lambda>_. [], rd_result = 1, rd_revents = 1 # replicate 254 0, rd_client = 5, rd_addr = AF_INET 10 0 0 1\<rparr>"

definition demo_ask :: round where
  "demo_ask = \<lparr>rd_arrived = (\<lambda>fd. if fd = 5 then [wire_header \<lparr>h_version = 1, h_type = 1, h_object = 1, h_body_size = 22\<rparr> @
       join_fields False [''bennychao'', ''benny'', ''monkey'']] else []),
     rd_result = 1, rd_revents = 0 # 1 # replicate 253 0, rd_client = -1, rd_addr = AF_OTHER\<rparr>"

definition demo_junk :: "pollfd list" where
  "demo_junk = replicate 255 \<lparr>pf_fd = 7, pf_events = 9, pf_revents = 1\<rparr>"

lemma demo_connect_quiet:
  assumes "accept_client ntop6 demo_connect (set_revents (rd_revents demo_connect) pollfds, addrs, s) = Inr (p, a, s')"
    "length pollfds = MAX_CLIENTS" "i \<in> set [1..<MAX_CLIENTS]"
  shows "pf_revents (p ! i) \<noteq> POLLIN"
proof -
  from assms(3) have i: "1 \<le> i" "i < MAX_CLIENTS" unfolding set_upt by simp_all
  then have "rd_revents demo_connect ! i = 0" by (cases i) (simp_all add: demo_connect_def)
  with accept_revents [OF assms(1) _ assms(2) i(2)] show ?thesis by (auto simp: demo_connect_def)
qed

lemma demo_connect_round:
  assumes "arrays_ok sock [] (lp_pollfds lp) (lp_addrs lp)"
  shows "\<exists>lp'. poll_round ntop6 E lp demo_connect = Inr lp' \<and> lp_server lp' = sys_accept 5 (with_arrivals (lp_server lp) demo_connect) \<and>
    arrays_ok sock [demo_connect] (lp_pollfds lp') (lp_addrs lp')"
proof -
  have x: "length (rd_revents demo_connect) = MAX_CLIENTS" "rd_result demo_connect > 0" "rd_client demo_connect = 5" "accepts demo_connect"
    by (simp_all add: demo_connect_def accepts_def)
  from accept_client_spec [OF assms x(1,2), of ntop6 "with_arrivals (lp_server lp) demo_connect"] x obtain p a where
    a: "accept_client ntop6 demo_connect (set_revents (rd_revents demo_connect) (lp_pollfds lp), lp_addrs lp, with_arrivals (lp_server lp) demo_connect) =
        Inr (p, a, sys_accept 5 (with_arrivals (lp_server lp) demo_connect))" "arrays_ok sock [demo_connect] p a" by auto
  from clients_quiet(2) [of "[1..<MAX_CLIENTS]" p E a] demo_connect_quiet [OF a(1) arrays_okD(1) [OF assms]]
  have "clients_loop E [1..<MAX_CLIENTS] p a s = Inr s" for s by blast
  with a x(2) show ?thesis by (simp add: poll_round_def Let_def with_arrivals_def [symmetric])
qed

theorem poll_slots_witness:
  "\<exists>lp. run_loop (\<lambda>_. []) mem_env (start_state demo_junk 3 (state_with [] mem_empty)) [demo_connect] = Inr lp \<and>
    map pf_fd (lp_pollfds lp) = slots 3 [5] \<and> cstr (lp_addrs lp ! 1) = dotted 10 0 0 1"
proof -
  have j: "length demo_junk = MAX_CLIENTS" by (simp add: demo_junk_def)
  from demo_connect_round [OF start_arrays [OF j], of "\<lambda>_. []" mem_env 3 "state_with [] mem_empty"] obtain lp where
    r: "run_loop (\<lambda>_. []) mem_env (start_state demo_junk 3 (state_with [] mem_empty)) [demo_connect] = Inr lp" by auto
  have "accepts demo_connect" "rd_client demo_connect = 5" "length (rd_revents demo_connect) = MAX_CLIENTS" "rd_addr demo_connect = AF_INET 10 0 0 1"
    by (simp_all add: demo_connect_def accepts_def)
  with poll_slots [OF j _ r] r show ?thesis by auto
qed


lemma demo_ask_ok:
  assumes "arrays_ok sock [demo_connect] (lp_pollfds lp) (lp_addrs lp)" "pending (with_arrivals (lp_server lp) demo_ask) 5 = hd (rd_arrived demo_ask 5)"
  shows "rounds_ok ntop6 E tab lp [demo_ask]"
proof -
  let ?p = "set_revents (rd_revents demo_ask) (lp_pollfds lp)"
  have x: "length (rd_revents demo_ask) = MAX_CLIENTS" "\<not> accepts demo_ask" "rd_revents demo_ask ! 0 = 0" "rd_revents demo_ask ! 1 = 1"
    by (simp_all add: demo_ask_def accepts_def)
  note A = arrays_ok_revents [OF assms(1) x(1)]
  have r: "pf_revents (?p ! i) = rd_revents demo_ask ! i" if "i < MAX_CLIENTS" for i
    by (rule nth_set_revents) (use that x(1) arrays_okD(1) [OF assms(1)] in simp_all)
  have q: "pf_revents (?p ! i) \<noteq> POLLIN" if "i \<in> set [2..<MAX_CLIENTS]" for i
  proof -
    from that have "2 \<le> i" "i < MAX_CLIENTS" unfolding set_upt by simp_all
    moreover from this obtain k where "i = Suc (Suc k)" "k < 253" by (cases i; cases "i - 1") auto
    ultimately show ?thesis using r by (simp add: demo_ask_def)
  qed
  have f: "pf_fd (?p ! 1) = 5" using arrays_okD(2) [OF A, of 1] nth_slots(2) [of 0] by (simp add: demo_connect_def)
  have c: "clients_ok E tab [2..<MAX_CLIENTS] ?p addrs s" for addrs s using clients_quiet(1) q by blast
  have "request_at (with_arrivals (lp_server lp) demo_ask) (pf_fd (?p ! 1)) \<lparr>h_version = 1, h_type = 1, h_object = 1, h_body_size = 22\<rparr>
      (Create_User ''bennychao'' ''benny'' ''monkey'')"
    unfolding f using assms(2) by (auto simp: request_at_def frame_at_def field_ok_def join_fields.simps demo_ask_def intro!: exI [of _ False])
  moreover have "admissible E s t addr (Create_User ''bennychao'' ''benny'' ''monkey'')" for s t addr by simp
  ultimately have "clients_ok E tab (1 # [2..<MAX_CLIENTS]) ?p addrs (with_arrivals (lp_server lp) demo_ask)" for addrs
    unfolding clients_ok.simps using c by metis
  moreover have "[1..<MAX_CLIENTS] = 1 # [2..<MAX_CLIENTS]" by (subst upt_conv_Cons) (simp_all add: numeral_2_eq_2)
  ultimately have c: "clients_ok E tab [1..<MAX_CLIENTS] ?p addrs (with_arrivals (lp_server lp) demo_ask)" for addrs by metis
  have a: "accept_client ntop6 demo_ask (?p, lp_addrs lp, s) = Inr (?p, lp_addrs lp, s)" for s
    using r [of 0] x(3) by (simp add: accept_client_def)
  show ?thesis unfolding rounds_ok.simps a using x(1,2) c by blast
qed

lemma demo_rounds_ok: "rounds_ok (\<lambda>_. []) mem_env mem_tab (start_state demo_junk 3 (state_with [] w)) [demo_connect, demo_ask]"
proof -
  have j: "length demo_junk = MAX_CLIENTS" by (simp add: demo_junk_def)
  let ?lp = "start_state demo_junk 3 (state_with [] w)"
  note A = start_arrays [OF j, of 3 "state_with [] w"]
  from demo_connect_round [OF A, of "\<lambda>_. []" mem_env] obtain lp1 where
    lp1: "poll_round (\<lambda>_. []) mem_env ?lp demo_connect = Inr lp1" "lp_server lp1 = sys_accept 5 (with_arrivals (lp_server ?lp) demo_connect)"
      "arrays_ok 3 [demo_connect] (lp_pollfds lp1) (lp_addrs lp1)" by blast
  have "pending (with_arrivals (lp_server lp1) demo_ask) 5 = hd (rd_arrived demo_ask 5)"
    by (simp add: lp1(2) pending_def with_arrivals_def sys_accept_def start_state_def demo_ask_def)
  then have "rounds_ok (\<lambda>_. []) mem_env mem_tab lp1 [demo_ask]" by (rule demo_ask_ok [OF lp1(3)])
  moreover have "clients_ok mem_env mem_tab [1..<MAX_CLIENTS] p a s'"
    if "accept_client (\<lambda>_. []) demo_connect (set_revents (rd_revents demo_connect) (lp_pollfds ?lp), addrs, s) = Inr (p, a, s')" for addrs s p a s'
    using clients_quiet(1) demo_connect_quiet [OF that arrays_okD(1) [OF A]] by blast
  moreover have "length (rd_revents demo_connect) = MAX_CLIENTS" "0 \<le> rd_client demo_connect" by (simp_all add: demo_connect_def)
  ultimately show ?thesis unfolding rounds_ok.simps(2) [of _ _ _ _ demo_connect] using lp1(1) by (simp del: rounds_ok.simps) blast
qed

lemma demo_serviceable: "serviceable mem_env mem_tab mw_open (state_with [] mem_empty) (\<lambda>d. None)"
  by (simp add: serviceable_def channels_terminated_def people_ok_def login_view_def account_view_def name_view_def content_def)

abbreviation demo_net :: net where
  "demo_net \<equiv> \<lparr>nt_socket = 3, nt_setsockopt = 0, nt_bind = 0, nt_listen = 0\<rparr>"


end
