(* ===== verification/Faults.thy ===== *)
theory Faults
  imports PollLoop
begin

text \<open>
  The requests outside the admissible ones that end the server, as one relation between the state and the fault, and what
  they mean for the other clients: the server is one process, so that a fault in the handler of one request ends the
  round of \<^verbatim>\<open>run_server\<close> and with it the service for everybody.
\<close>

section \<open>Requests that end the server\<close>

text \<open>The rules follow the switch of \<^verbatim>\<open>handle_request\<close>: a closed connection; an operation that does not exist; deleting a login that does
  not exist; a login from a second address; a channel name of 20 characters; a message to a channel that does not exist; the
  history of a channel.\<close>

inductive fatal :: "'w env \<Rightarrow> 'w server \<Rightarrow> table_state \<Rightarrow> int \<Rightarrow> bytes \<Rightarrow> fault \<Rightarrow> bool"
  for E :: "'w env" and s :: "'w server" and t :: table_state and fd :: int and addr :: bytes
where
  disconnect: "pending s fd = [] \<Longrightarrow> fatal E s t fd addr AssertFailed"
| no_operation: "pending s fd = wire_header h @ rest \<Longrightarrow> h_version h = CURRENT_VERSION \<Longrightarrow>
    h_object h \<in> {OBJECT_USER, OBJECT_CHANNEL, OBJECT_MESSAGE, OBJECT_AUTH} \<Longrightarrow>
    h_type h \<notin> {TYPE_CREATE, TYPE_READ, TYPE_UPDATE, TYPE_DESTROY} \<or> h_object h = OBJECT_AUTH \<and> h_type h = TYPE_READ \<Longrightarrow>
    fatal E s t fd addr AssertFailed"
| delete_missing: "frame_at s fd h tr [nm, tok, pw] \<Longrightarrow> h_object h = OBJECT_USER \<Longrightarrow> h_type h = TYPE_DESTROY \<Longrightarrow>
    length tok < TOKEN_NAME_LENGTH \<Longrightarrow> length nm < TOKEN_NAME_LENGTH \<Longrightarrow> length pw < PSWD_MAX_LENGTH \<Longrightarrow>
    find (\<lambda>u. cu_fd u = fd) (users (cache s)) = Some u \<Longrightarrow> login_view t (cu_login_token u) = Some ls \<Longrightarrow>
    account_view (host_le E) t (cu_uuid u) = Some as \<Longrightarrow> ua_privilege_level as = 0 \<Longrightarrow>
    user_name u = nm \<or> cstr (ul_password ls) = pw \<Longrightarrow> login_view t (nul_pad TOKEN_NAME_LENGTH tok) = None \<Longrightarrow>
    fatal E s t fd addr AssertFailed"
| login_elsewhere: "frame_at s fd h tr [tok, pw] \<Longrightarrow> h_object h = OBJECT_AUTH \<Longrightarrow> h_type h = TYPE_CREATE \<Longrightarrow>
    length tok < TOKEN_NAME_LENGTH \<Longrightarrow> length pw < PSWD_MAX_LENGTH \<Longrightarrow> addr_ok addr \<Longrightarrow> length (users (cache s)) < MAX_CLIENTS \<Longrightarrow>
    login_view t (nul_pad TOKEN_NAME_LENGTH tok) = Some l \<Longrightarrow> cstr (ul_password l) = pw \<Longrightarrow>
    account_view (host_le E) t (ul_uuid l) = Some a \<Longrightarrow> ua_online_status a \<Longrightarrow>
    u \<in> set (users (cache s)) \<Longrightarrow> user_name u = cstr (ua_display_name a) \<Longrightarrow> cstr (cu_ip_address u) \<noteq> cstr addr \<Longrightarrow>
    fatal E s t fd addr AssertFailed"
| long_channel: "frame_at s fd h tr [ch, nm, publ] \<Longrightarrow> h_object h = OBJECT_CHANNEL \<Longrightarrow> h_type h = TYPE_CREATE \<Longrightarrow>
    length ch = TOKEN_NAME_LENGTH - 1 \<Longrightarrow> length nm < TOKEN_NAME_LENGTH \<Longrightarrow> length publ = 1 \<Longrightarrow> terminated addr \<Longrightarrow>
    u \<in> set (users (cache s)) \<Longrightarrow> cstr (cu_ip_address u) = cstr addr \<Longrightarrow> user_name u = nm \<Longrightarrow> nm \<noteq> ''admin'' \<Longrightarrow>
    \<not> has_channel t ch \<Longrightarrow> fatal E s t fd addr BufferOverflow"
| missing_channel: "message_request E s t fd h tr nm ch text ts l \<Longrightarrow> \<not> has_channel t ch \<Longrightarrow> fatal E s t fd addr NullDeref"
| history: "frame_at s fd h tr [ch, num] \<Longrightarrow> h_object h = OBJECT_MESSAGE \<Longrightarrow> h_type h = TYPE_READ \<Longrightarrow>
    length ch < TOKEN_NAME_LENGTH \<Longrightarrow> length num < TOKEN_NAME_LENGTH \<Longrightarrow> list_all isdigit num \<Longrightarrow> has_channel t ch \<Longrightarrow>
    messages_ok (host_le E) t \<Longrightarrow> fatal E s t fd addr BufferOverflow"

section \<open>Lemmas\<close>

text \<open>What the handler of a request returns as a fault, the dispatch returns.\<close>

lemma handler_fault:
  assumes "frame_at s fd h tr fs"
  shows "h_object h = OBJECT_USER \<Longrightarrow> handle_user E (after_header s fd) fd h = Inl f \<Longrightarrow> handle_request E s fd addr = Inl f"
    and "h_object h = OBJECT_CHANNEL \<Longrightarrow> handle_channel E (after_header s fd) fd h addr = Inl f \<Longrightarrow> handle_request E s fd addr = Inl f"
    and "h_object h = OBJECT_MESSAGE \<Longrightarrow> handle_message E (after_header s fd) fd h = Inl f \<Longrightarrow> handle_request E s fd addr = Inl f"
    and "h_object h = OBJECT_AUTH \<Longrightarrow> handle_auth E (after_header s fd) fd h addr = Inl f \<Longrightarrow> handle_request E s fd addr = Inl f"
  using handle_request_frame [OF assms, of E addr] by simp_all

lemma fatal_fault:
  assumes "fatal E s t fd addr f" and "dbs E tab opn (world s) t" and "wf_cache (cache s)"
  shows "handle_request E s fd addr = Inl f"
  using assms(1)
proof cases
  case disconnect
  then show ?thesis by (simp add: handle_request_def read_header_disconnect)
next
  case (no_operation h rest)
  then show ?thesis using read_header_spec [OF no_operation(2), of E, folded after_header_def]
    by (auto simp: handle_request_def handle_user_def handle_channel_def handle_message_def handle_auth_def)
next
  case (delete_missing h tr nm tok pw u ls as)
  have "read_and_destroy_user E (after_header s fd) fd out (h_body_size h) = Inl AssertFailed" for out
    using read_and_destroy_user_missing [of E tab opn "after_header s fd" t fd "h_body_size h" tr nm tok pw u ls as out]
      frame_read(2) [OF delete_missing(2)] delete_missing assms(2,3) by auto
  with delete_missing(1,4) show ?thesis by (auto intro!: handler_fault(1) [OF delete_missing(2,3)] simp: handle_user_def)
next
  case (login_elsewhere h tr tok pw l a u)
  have "\<exists>out s'. read_and_login_user E (after_header s fd) fd (zeros BIG_TOKEN_NAME_LENGTH) addr (h_body_size h) = Inr ((9, out), s') \<and>
      send_login_user_response E s' fd h 9 out = Inl AssertFailed"
    using login_elsewhere_aborts [of E tab opn "after_header s fd" t fd "h_body_size h" tr tok pw l a addr "zeros BIG_TOKEN_NAME_LENGTH" u h]
      frame_read(2) [OF login_elsewhere(2)] login_elsewhere assms(2,3) by auto
  with login_elsewhere(1,4) show ?thesis by (auto intro!: handler_fault(4) [OF login_elsewhere(2,3)] simp: handle_auth_def)
next
  case (long_channel h tr ch nm publ u)
  have "read_and_create_channel E (after_header s fd) fd out (h_body_size h) addr = Inl BufferOverflow" for out
    using create_channel_name_overflow [of E tab opn "after_header s fd" t fd "h_body_size h" tr ch nm publ addr u out]
      frame_read(2) [OF long_channel(2)] long_channel assms(2,3) by auto
  with long_channel(1,4) show ?thesis by (auto intro!: handler_fault(2) [OF long_channel(2,3)] simp: handle_channel_def)
next
  case (missing_channel h tr nm ch msg ts l)
  then show ?thesis using message_to_missing_channel [OF assms(2,3)] by blast
next
  case (history h tr ch num)
  have "read_and_read_message E (after_header s fd) fd (zeros MAX_MSG_HISTORY_RES) (h_body_size h) = Inl BufferOverflow"
    using read_message_overflow [of E tab opn "after_header s fd" t fd "h_body_size h" tr ch num "zeros MAX_MSG_HISTORY_RES"]
      frame_read(2) [OF history(2)] history assms(2) by auto
  with history(1,4) show ?thesis by (auto intro!: handler_fault(3) [OF history(2,3)] simp: handle_message_def)
qed

lemma clients_loop_append:
  "clients_loop E (is @ js) pollfds addrs s = bindR (clients_loop E is pollfds addrs s) (clients_loop E js pollfds addrs)"
  by (induction "is" arbitrary: s) (simp_all add: bindR_assoc case_prod_unfold)

section \<open>Properties\<close>

text \<open>C5: one request ends the service for everybody. A request of the relation above makes \<^verbatim>\<open>handle_request\<close> fault: a closed
  connection, an operation that does not exist, the deletion of a missing login by an ordinary user, a login from a second
  address, a channel name of 20 characters, a message to a missing channel and every request for the history of a channel.
  The loop over the ready clients then stops with this fault: neither the clients behind it nor any later round are served.\<close>

theorem fatal_request_ends_service:
  assumes "clients_loop E is pollfds addrs s = Inr s'" and "pf_revents (pollfds ! i) = POLLIN"
    and "fatal E s' t (pf_fd (pollfds ! i)) (addrs ! i) f" and "dbs E tab opn (world s') t" and "wf_cache (cache s')"
  shows "handle_request E s' (pf_fd (pollfds ! i)) (addrs ! i) = Inl f \<and> clients_loop E (is @ i # js) pollfds addrs s = Inl f"
  using fatal_fault [OF assms(3-5)] assms(1,2) by (simp add: clients_loop_append)

theorem fatal_request_ends_service_witness:
  "handle_request mem_env (demo_state (wire_header \<lparr>h_version = 1, h_type = 2, h_object = 3, h_body_size = 8\<rparr> @ join_fields False [''global'', ''5'']))
     5 (nul_pad 16 ''10.0.0.1'') = Inl BufferOverflow"
proof -
  let ?h = "\<lparr>h_version = 1, h_type = 2, h_object = 3, h_body_size = 8\<rparr>"
  let ?s = "demo_state (wire_header ?h @ join_fields False [''global'', ''5''])"
  have "fatal mem_env ?s demo_tables 5 (nul_pad 16 ''10.0.0.1'') BufferOverflow"
    by (rule fatal.history [of _ _ ?h False "''global''" "''5''"]) (auto simp: frame_at_def field_ok_def join_fields.simps isdigit_def)
  then show ?thesis
    using fatal_request_ends_service [of mem_env "[]" "[\<lparr>pf_fd = 5, pf_events = POLLIN, pf_revents = POLLIN\<rparr>]" "[nul_pad 16 ''10.0.0.1'']" ?s ?s 0
        demo_tables BufferOverflow mem_tab mw_open "[]"] by simp
qed

end
