(* ===== verification/Viewer.thy ===== *)
theory Viewer
  imports ChannelUpdate
begin

text \<open>
  The database viewer of the user interface, \<^verbatim>\<open>src/db_viewer.c\<close>, and the list of the connected users,
  \<^verbatim>\<open>view_active_users\<close> of \<^verbatim>\<open>src/server.c\<close>. What they print is a text. The viewer does not copy a record into a
  structure, it casts the pointer to the datum: every field is read at its offset in the bytes of the datum, a \<^verbatim>\<open>%s\<close> runs to
  the next NUL there, and a read behind the datum is an over-read.
\<close>

section \<open>Fields of a datum\<close>

definition str_at :: "bytes \<Rightarrow> nat \<Rightarrow> string result" where
  "str_at v off = c_string (drop off v)"

definition int_at :: "bool \<Rightarrow> bytes \<Rightarrow> nat \<Rightarrow> int result" where
  "int_at le v off = (if length v < off + 4 then Inl Overread else Inr (sint (of_mem32 le (take 4 (drop off v)))))"

definition bool_at :: "bytes \<Rightarrow> nat \<Rightarrow> int result" where
  "bool_at v off = bindR (char_at v off) (\<lambda>c. Inr (if c = NUL then 0 else 1))"

abbreviation nl :: string where "nl \<equiv> [CHR 0x0A]"

abbreviation sep :: string where "sep \<equiv> '', ''"

section \<open>Operations\<close>

text \<open>The loop over the keys that the four printing functions share; a key without a datum is skipped.\<close>

fun print_records :: "'w env \<Rightarrow> 'w \<Rightarrow> db_name \<Rightarrow> (bytes \<Rightarrow> bytes \<Rightarrow> string result) \<Rightarrow> bytes list \<Rightarrow> string result" where
  "print_records E w db line [] = Inr []"
| "print_records E w db line (key # keys) =
     (case dbm_fetch E w db key of
        None \<Rightarrow> print_records E w db line keys
      | Some data \<Rightarrow> bindR (line key data) (\<lambda>s. bindR (print_records E w db line keys) (\<lambda>r. Inr (s @ r))))"

text \<open>The fields of an account: \<^verbatim>\<open>user_id\<close> at 0, \<^verbatim>\<open>display_name\<close> at 37, \<^verbatim>\<open>ip_addr\<close> at 58, \<^verbatim>\<open>online_status\<close> at 74 and
  \<^verbatim>\<open>privilege_level\<close> at 76.\<close>

definition account_line :: "bool \<Rightarrow> bytes \<Rightarrow> bytes \<Rightarrow> string result" where
  "account_line le key user =
     bindR (str_at user 0) (\<lambda>user_id. bindR (str_at user 37) (\<lambda>display_name. bindR (str_at user 58) (\<lambda>ip_addr.
     bindR (bool_at user 74) (\<lambda>online_status. bindR (int_at le user 76) (\<lambda>privilege_level.
       Inr (user_id @ sep @ display_name @ sep @ ip_addr @ sep @ show_int online_status @ sep @ show_int privilege_level @ nl))))))"

definition printAllUserAccounts :: "'w env \<Rightarrow> 'w \<Rightarrow> db_name \<Rightarrow> string result" where
  "printAllUserAccounts E w db = print_records E w db (account_line (host_le E)) (dbm_traverse E w db)"

definition name_line :: "bytes \<Rightarrow> bytes \<Rightarrow> string result" where
  "name_line key data = bindR (str_at key 0) (\<lambda>display_name. bindR (str_at data 0) (\<lambda>user_uuid.
     Inr (display_name @ sep @ user_uuid @ nl)))"

definition printAllDisplayNames :: "'w env \<Rightarrow> 'w \<Rightarrow> db_name \<Rightarrow> string result" where
  "printAllDisplayNames E w db = print_records E w db name_line (dbm_traverse E w db)"

definition login_line :: "bytes \<Rightarrow> bytes \<Rightarrow> string result" where
  "login_line key user =
     bindR (str_at user 0) (\<lambda>login_token. bindR (str_at user 21) (\<lambda>password. bindR (str_at user 52) (\<lambda>uuid.
       Inr (login_token @ sep @ password @ sep @ uuid @ nl))))"

definition printAllLoginInfos :: "'w env \<Rightarrow> 'w \<Rightarrow> db_name \<Rightarrow> string result" where
  "printAllLoginInfos E w db = print_records E w db login_line (dbm_traverse E w db)"

text \<open>\<^verbatim>\<open>while (list[i][0] != 0 && i < DEFAULT_LIST_SIZE)\<close> for the list at the offset \<open>off\<close> of a channel: the byte is read before
  the index is checked, so that the loop over a full list reads the first byte behind it.\<close>

function print_names :: "bytes \<Rightarrow> nat \<Rightarrow> nat \<Rightarrow> string result" where
  "print_names channel off i =
     bindR (char_at channel (off + TOKEN_NAME_LENGTH * i)) (\<lambda>c.
       if c \<noteq> NUL \<and> i < DEFAULT_LIST_SIZE
       then bindR (str_at channel (off + TOKEN_NAME_LENGTH * i)) (\<lambda>s. bindR (print_names channel off (Suc i)) (\<lambda>r. Inr (s @ '' '' @ r)))
       else Inr [])"
  by pat_completeness auto
termination
  by (relation "measure (\<lambda>(channel, off, i). DEFAULT_LIST_SIZE - i)") auto

declare print_names.simps [simp del]

text \<open>The fields of a channel: \<^verbatim>\<open>channel_id\<close> at 0, \<^verbatim>\<open>creator\<close> at 37, \<^verbatim>\<open>user_list\<close> at 58, \<^verbatim>\<open>admin_list\<close> at 1402 and
  \<^verbatim>\<open>channel_name\<close> at 4090.\<close>

definition channel_line :: "bytes \<Rightarrow> bytes \<Rightarrow> string result" where
  "channel_line key channel =
     bindR (str_at channel 4090) (\<lambda>channel_name. bindR (str_at channel 37) (\<lambda>creator. bindR (str_at channel 0) (\<lambda>channel_id.
     bindR (print_names channel 58 0) (\<lambda>user_list. bindR (print_names channel 1402 0) (\<lambda>admin_list.
       Inr (channel_name @ sep @ creator @ sep @ channel_id @ nl @ ''user list: '' @ nl @ user_list @ nl @
         ''admin list: '' @ nl @ admin_list @ nl))))))"

definition printAllChannelInfos :: "'w env \<Rightarrow> 'w \<Rightarrow> db_name \<Rightarrow> string result" where
  "printAllChannelInfos E w db = print_records E w db channel_line (dbm_traverse E w db)"

text \<open>One section of the viewer: its title, and the records if the database can be opened.\<close>

definition view_db :: "'w env \<Rightarrow> string \<Rightarrow> db_name \<Rightarrow> ('w env \<Rightarrow> 'w \<Rightarrow> db_name \<Rightarrow> string result) \<Rightarrow> 'w \<Rightarrow> (string \<times> 'w) result" where
  "view_db E title db printAll w =
     (let (ok, w) = dbm_open E w db [O_RDWR, O_SYNC, O_APPEND]
      in if ok then bindR (printAll E w db) (\<lambda>s. Inr (title @ nl @ s @ nl, dbm_close E w db))
         else Inr (title @ nl @ nl, w))"

definition run_db_viewer :: "'w env \<Rightarrow> 'w \<Rightarrow> (string \<times> 'w) result" where
  "run_db_viewer E w =
     bindR (view_db E ''UserAccounts DB'' DB_USER_ACCOUNT printAllUserAccounts w) (\<lambda>(a, w).
     bindR (view_db E ''DisplayNames DB'' DB_DISPLAY_NAMES printAllDisplayNames w) (\<lambda>(n, w).
     bindR (view_db E ''UserLoginInfo DB'' DB_LOGIN_INFO printAllLoginInfos w) (\<lambda>(l, w).
     bindR (view_db E ''ChannelInfo DB'' DB_CHANNEL_INFO printAllChannelInfos w) (\<lambda>(c, w).
       Inr (a @ n @ l @ c, w)))))"

text \<open>The connected users; the test for an empty cache reads the name of its first entry.\<close>

fun print_users :: "connected_user list \<Rightarrow> string result" where
  "print_users [] = Inr []"
| "print_users (u # us) =
     bindR (c_string (cu_dsply_name u)) (\<lambda>dsply_name. bindR (c_string (cu_uuid u)) (\<lambda>uuid. bindR (print_users us) (\<lambda>r.
       Inr (''display_name: '' @ dsply_name @ '', fd: '' @ show_int (cu_fd u) @ '', uuid: '' @ uuid @
         '', privilege lvl: '' @ show_int (sint (cu_privilege_level u)) @ nl @ r))))"

definition view_active_users :: "connected_user list \<Rightarrow> string result" where
  "view_active_users entries =
     bindR (get_num_connected_users entries) (\<lambda>num_active_users.
     bindR (name_empty (entries ! 0)) (\<lambda>none.
       if none then Inr (''There are no active users.'' @ nl)
       else bindR (print_users (take num_active_users entries)) (\<lambda>r.
         Inr (nl @ ''Active user count: '' @ show_int (int num_active_users) @ nl @ r))))"

section \<open>Lemmas\<close>

text \<open>What a reader of the structures expects: the line of an account, a login and a channel, and the members of a name list
  up to the first empty name. The id of a channel is printed up to the first NUL behind it, which is its own terminator
  or that of the creator.\<close>

definition account_row :: "user_account \<Rightarrow> string" where
  "account_row a = cstr (ua_user_id a) @ sep @ cstr (ua_display_name a) @ sep @ cstr (ua_ip_addr a) @ sep @
     show_int (if ua_online_status a then 1 else 0) @ sep @ show_int (sint (ua_privilege_level a)) @ nl"

definition name_row :: "bytes \<Rightarrow> bytes \<Rightarrow> string" where
  "name_row key uuid = cstr key @ sep @ cstr uuid @ nl"

definition login_row :: "user_login \<Rightarrow> string" where
  "login_row u = cstr (ul_login_token u) @ sep @ cstr (ul_password u) @ sep @ cstr (ul_uuid u) @ nl"

definition names_row :: "bytes list \<Rightarrow> string" where
  "names_row xs = concat (map (\<lambda>n. cstr n @ '' '') (takeWhile (\<lambda>n. cstr n \<noteq> []) xs))"

definition channel_row :: "channel_info \<Rightarrow> string" where
  "channel_row c = cstr (ch_channel_name c) @ sep @ cstr (ch_creator c) @ sep @ cstr (ch_channel_id c @ ch_creator c) @ nl @
     ''user list: '' @ nl @ names_row (ch_user_list c) @ nl @ ''admin list: '' @ nl @ names_row (ch_admin_list c) @ nl"

lemma str_at_field: "length pre = off \<Longrightarrow> terminated f \<Longrightarrow> str_at (pre @ f @ post) off = Inr (cstr f)"
  by (simp add: str_at_def)

lemma drop_concat: "list_all (\<lambda>x. length x = k) xs \<Longrightarrow> drop (k * i) (concat xs) = concat (drop i xs)"
proof (induction xs arbitrary: i)
  case (Cons x xs)
  then show ?case by (cases i) simp_all
qed simp

lemma print_names_spec:
  assumes L: "wf_names xs" and N: "list_all terminated xs" and O: "length pre = off" and P: "post \<noteq> []" and I: "i \<le> DEFAULT_LIST_SIZE"
  shows "print_names (pre @ concat xs @ post) off i = Inr (names_row (drop i xs))"
  using I
proof (induction "DEFAULT_LIST_SIZE - i" arbitrary: i)
  case 0
  have d: "drop (TOKEN_NAME_LENGTH * i) (concat xs) = concat (drop i xs)" by (rule drop_concat) (use L in \<open>simp add: wf_names_def\<close>)
  with 0 P L show ?case
    by (subst print_names.simps) (simp add: char_at_def O names_row_def wf_names_def length_concat_names [OF L])
next
  case (Suc k)
  let ?v = "pre @ concat xs @ post"
  have i: "i < length xs" using Suc L by (simp add: wf_names_def)
  then obtain y ys where y: "drop i xs = y # ys" "drop (Suc i) xs = ys" "y \<in> set xs" by (metis Cons_nth_drop_Suc nth_mem)
  have t: "terminated y" "length y = TOKEN_NAME_LENGTH" using y(3) L N by (auto simp: wf_names_def list_all_iff)
  have d: "drop (TOKEN_NAME_LENGTH * i) (concat xs) = y @ concat ys" using drop_concat [of 21 xs i] L y(1) by (simp add: wf_names_def)
  have b: "TOKEN_NAME_LENGTH * i < length (concat xs)" using i L by (simp add: length_concat_names [OF L] wf_names_def)
  have e: "drop (off + TOKEN_NAME_LENGTH * i) ?v = y @ concat ys @ post" using b d by (simp add: O [symmetric])
  then have c: "char_at ?v (off + TOKEN_NAME_LENGTH * i) = Inr (y ! 0)"
    using t b O by (simp add: char_at_def nth_append nth_via_drop)
      (metis append_Cons hd_append2 hd_conv_nth hd_drop_conv_nth length_0_conv length_append numeral_eq_iff zero_neq_numeral)
  have "y ! 0 = NUL \<longleftrightarrow> cstr y = []" using t by (cases y) auto
  moreover have "str_at ?v (off + TOKEN_NAME_LENGTH * i) = Inr (cstr y)" using e t by (simp add: str_at_def)
  moreover have "print_names ?v off (Suc i) = Inr (names_row ys)" using Suc y(2) by simp
  ultimately show ?case using c i L by (subst print_names.simps) (simp add: y(1) names_row_def wf_names_def)
qed

text \<open>The lines of well formed records.\<close>

lemma account_line_spec:
  assumes "wf_user_account a" "account_strings a"
  shows "account_line le k (encode_user_account le a) = Inr (account_row a)"
proof -
  let ?v = "encode_user_account le a"
  have l: "length (ua_user_id a) = 37" "length (ua_display_name a) = 21" "length (ua_ip_addr a) = 16"
    and t: "terminated (ua_user_id a)" "terminated (ua_display_name a)" "terminated (ua_ip_addr a)"
    using assms by (simp_all add: wf_user_account_def account_strings_def uuid_text_def)
  then have "str_at ?v 0 = Inr (cstr (ua_user_id a))" "str_at ?v 37 = Inr (cstr (ua_display_name a))" "str_at ?v 58 = Inr (cstr (ua_ip_addr a))"
    by (simp_all add: encode_user_account_def str_at_def clib)
  moreover have "bool_at ?v 74 = Inr (if ua_online_status a then 1 else 0)" "int_at le ?v 76 = Inr (sint (ua_privilege_level a))"
    using l by (simp_all add: bool_at_def char_at_def int_at_def encode_user_account_def nth_append)
  ultimately show ?thesis by (simp add: account_line_def account_row_def)
qed

lemma login_line_spec:
  assumes "wf_user_login u" "login_strings u"
  shows "login_line k (encode_user_login u) = Inr (login_row u)"
  using assms
  by (simp add: login_line_def login_row_def str_at_def encode_user_login_def wf_user_login_def login_strings_def uuid_text_def clib)

lemma channel_line_spec:
  assumes W: "wf_channel_info c" and S: "channel_strings c"
  shows "channel_line k (encode_channel_info c) = Inr (channel_row c)"
proof -
  let ?v = "encode_channel_info c"
  have l: "length (ch_channel_id c) = 37" "length (ch_creator c) = 21" "length (ch_channel_name c) = 21"
    "length (concat (ch_user_list c)) = 1344" "length (concat (ch_admin_list c)) = 1344" "length (concat (ch_banned_list c)) = 1344"
    using W by (simp_all add: wf_channel_info_def length_concat_names)
  have t: "terminated (ch_creator c)" "terminated (ch_channel_name c)" "list_all terminated (ch_user_list c)" "list_all terminated (ch_admin_list c)"
    using S by (auto simp: channel_strings_def names_ok_def list_all_iff)
  have w: "wf_names (ch_user_list c)" "wf_names (ch_admin_list c)" using W by (simp_all add: wf_channel_info_def)
  have "str_at ?v 0 = Inr (cstr (ch_channel_id c @ ch_creator c))"
    using t(1) by (simp add: str_at_def encode_channel_info_def clib flip: append_assoc)
  moreover have "str_at ?v 37 = Inr (cstr (ch_creator c))" "str_at ?v 4090 = Inr (cstr (ch_channel_name c))"
    using l t by (simp_all add: str_at_def encode_channel_info_def clib)
  moreover have "print_names ?v 58 0 = Inr (names_row (ch_user_list c))"
    using print_names_spec [OF w(1) t(3), of "ch_channel_id c @ ch_creator c" 58 _ 0] l by (simp add: encode_channel_info_def)
  moreover have "print_names ?v 1402 0 = Inr (names_row (ch_admin_list c))"
    using print_names_spec [OF w(2) t(4), of "ch_channel_id c @ ch_creator c @ concat (ch_user_list c)" 1402 _ 0] l
    by (simp add: encode_channel_info_def)
  ultimately show ?thesis by (simp add: channel_line_def channel_row_def)
qed

section \<open>The sections of the viewer\<close>

text \<open>What the loop over the records needs of a printing function: on a table with the invariant of its database, every record
  gives a line.\<close>

locale printed_table =
  fixes line :: "bytes \<Rightarrow> bytes \<Rightarrow> string result"
    and row :: "bytes \<Rightarrow> bytes \<Rightarrow> string"
    and table_ok :: "(bytes \<rightharpoonup> bytes) \<Rightarrow> bool"
  assumes line_row: "table_ok m \<Longrightarrow> m k = Some v \<Longrightarrow> line k v = Inr (row k v)"
begin

lemma records_shown:
  assumes "table_ok m" "\<And>k. dbm_fetch E w db k = m k" "set keys \<subseteq> dom m"
  shows "print_records E w db line keys = Inr (concat (map (\<lambda>k. row k (the (m k))) keys))"
  using assms(3) by (induction keys) (auto simp: assms(2) line_row [OF assms(1)])

lemma section_shown:
  assumes C: "ndbm_contract E tab opn" and R: "opn w = []" and t: "tab w = t" and T: "table_ok (content t db)"
    and P: "\<And>w. printAll E w db = print_records E w db line (dbm_traverse E w db)"
  shows "\<exists>w' keys. view_db E title db printAll w = Inr (title @ nl @ concat (map (\<lambda>k. row k (the (content t db k))) keys) @ nl, w') \<and>
    opn w' = [] \<and> tab w' = t \<and> distinct keys \<and> set keys = dom (content t db)"
proof (rule open_read_cases [OF C R, of "[O_RDWR, O_SYNC, O_APPEND]" db], simp)
  fix w1 assume w1: "dbm_open E w db [O_RDWR, O_SYNC, O_APPEND] = (False, w1)" "tab w db = None" "opn w1 = []" "tab w1 = tab w"
  then show ?thesis using t by (intro exI [of _ w1] exI [of _ "[]"]) (auto simp: view_db_def content_def)
next
  fix w1 m assume w1: "dbm_open E w db [O_RDWR, O_SYNC, O_APPEND] = (True, w1)" "tab w db = Some m" "\<And>k. dbm_fetch E w1 db k = m k"
    "opn (dbm_close E w1 db) = []" "tab (dbm_close E w1 db) = tab w" "distinct (dbm_traverse E w1 db)" "set (dbm_traverse E w1 db) = dom m"
  have m: "content t db = m" using w1(2) t by (auto simp: content_def)
  from records_shown [of m E w1 db "dbm_traverse E w1 db"] T w1(3,7)
  have "print_records E w1 db line (dbm_traverse E w1 db) = Inr (concat (map (\<lambda>k. row k (the (m k))) (dbm_traverse E w1 db)))" by (simp add: m)
  with w1 m P t show ?thesis by (intro exI [of _ "dbm_close E w1 db"] exI [of _ "dbm_traverse E w1 db"]) (simp add: view_db_def)
qed

end

interpretation accounts_shown: printed_table "account_line le" "\<lambda>k v. account_row (projr (decode_user_account le v))"
  "\<lambda>m. account_table le m \<and> (\<forall>k v. m k = Some v \<longrightarrow> account_strings (projr (decode_user_account le v)))"
  for le
  by unfold_locales (auto simp: account_table_def account_line_spec dest!: spec)

interpretation names_shown: printed_table name_line name_row "\<lambda>m. name_table m \<and> (\<forall>k. m k \<noteq> None \<longrightarrow> terminated k)"
  by unfold_locales (auto simp: name_table_def name_line_def name_row_def str_at_def uuid_text_def clib)

interpretation logins_shown: printed_table login_line "\<lambda>k v. login_row (projr (decode_user_login v))"
  "\<lambda>m. login_table m \<and> (\<forall>k v. m k = Some v \<longrightarrow> login_strings (projr (decode_user_login v)))"
  by unfold_locales (auto simp: login_table_def login_line_spec dest!: spec)

interpretation channels_shown: printed_table channel_line "\<lambda>k v. channel_row (projr (decode_channel_info v))"
  "\<lambda>m. chan_table m \<and> (\<forall>k v. m k = Some v \<longrightarrow> channel_strings (projr (decode_channel_info v)))"
  by unfold_locales (auto simp: chan_table_def channel_line_spec dest!: spec)

lemma db_ok_printed:
  assumes "db_ok le t"
  shows "account_table le (content t DB_USER_ACCOUNT) \<and>
      (\<forall>k v. content t DB_USER_ACCOUNT k = Some v \<longrightarrow> account_strings (projr (decode_user_account le v)))"
    "login_table (content t DB_LOGIN_INFO) \<and> (\<forall>k v. content t DB_LOGIN_INFO k = Some v \<longrightarrow> login_strings (projr (decode_user_login v)))"
  using assms by (simp_all add: db_ok_def account_view_def login_view_def) blast+

lemma rows_of_view:
  assumes "set keys = dom m" "\<And>k. view k = map_option d (m k)"
  shows "map (\<lambda>k. row (d (the (m k)))) keys = map (\<lambda>k. row (the (view k))) keys" "set keys = dom view"
  using assms by (auto simp: dom_def)

lemma db_viewer_shows:
  assumes "dbs E tab opn w t" and "channels_terminated t" and "\<forall>k. name_view t k \<noteq> None \<longrightarrow> terminated k"
  shows "\<exists>w' as ns ls cs. run_db_viewer E w = Inr (
      ''UserAccounts DB'' @ nl @ concat (map (\<lambda>k. account_row (the (account_view (host_le E) t k))) as) @ nl @
      ''DisplayNames DB'' @ nl @ concat (map (\<lambda>k. name_row k (the (name_view t k))) ns) @ nl @
      ''UserLoginInfo DB'' @ nl @ concat (map (\<lambda>k. login_row (the (login_view t k))) ls) @ nl @
      ''ChannelInfo DB'' @ nl @ concat (map channel_row cs) @ nl, w') \<and>
    dbs E tab opn w' t \<and> distinct as \<and> set as = dom (account_view (host_le E) t) \<and> distinct ns \<and> set ns = dom (name_view t) \<and>
    distinct ls \<and> set ls = dom (login_view t) \<and> table_channels t cs"
proof -
  note D = dbsD [OF assms(1)] and P = db_ok_printed [OF dbsD(4) [OF assms(1)]]
  have N: "name_table (content t DB_DISPLAY_NAMES) \<and> (\<forall>k. content t DB_DISPLAY_NAMES k \<noteq> None \<longrightarrow> terminated k)"
    and C: "chan_table (content t DB_CHANNEL_INFO) \<and> (\<forall>k v. content t DB_CHANNEL_INFO k = Some v \<longrightarrow> channel_strings (projr (decode_channel_info v)))"
    using D(4) assms(2,3) by (auto simp: db_ok_def name_view_def channels_terminated_def)
  obtain w1 as where a: "view_db E ''UserAccounts DB'' DB_USER_ACCOUNT printAllUserAccounts w =
      Inr (''UserAccounts DB'' @ nl @ concat (map (\<lambda>k. account_row (projr (decode_user_account (host_le E) (the (content t DB_USER_ACCOUNT k))))) as) @ nl, w1)"
    "opn w1 = []" "tab w1 = t" "distinct as" "set as = dom (content t DB_USER_ACCOUNT)"
    using accounts_shown.section_shown [OF D(1-3) P(1), where printAll = printAllUserAccounts, OF printAllUserAccounts_def] by blast
  obtain w2 ns where n: "view_db E ''DisplayNames DB'' DB_DISPLAY_NAMES printAllDisplayNames w1 =
      Inr (''DisplayNames DB'' @ nl @ concat (map (\<lambda>k. name_row k (the (content t DB_DISPLAY_NAMES k))) ns) @ nl, w2)"
    "opn w2 = []" "tab w2 = t" "distinct ns" "set ns = dom (content t DB_DISPLAY_NAMES)"
    using names_shown.section_shown [OF D(1) a(2,3) N, where printAll = printAllDisplayNames, OF printAllDisplayNames_def] by blast
  obtain w3 ls where l: "view_db E ''UserLoginInfo DB'' DB_LOGIN_INFO printAllLoginInfos w2 =
      Inr (''UserLoginInfo DB'' @ nl @ concat (map (\<lambda>k. login_row (projr (decode_user_login (the (content t DB_LOGIN_INFO k))))) ls) @ nl, w3)"
    "opn w3 = []" "tab w3 = t" "distinct ls" "set ls = dom (content t DB_LOGIN_INFO)"
    using logins_shown.section_shown [OF D(1) n(2,3) P(2), where printAll = printAllLoginInfos, OF printAllLoginInfos_def] by blast
  obtain w4 cs where c: "view_db E ''ChannelInfo DB'' DB_CHANNEL_INFO printAllChannelInfos w3 =
      Inr (''ChannelInfo DB'' @ nl @ concat (map (\<lambda>k. channel_row (projr (decode_channel_info (the (content t DB_CHANNEL_INFO k))))) cs) @ nl, w4)"
    "opn w4 = []" "tab w4 = t" "distinct cs" "set cs = dom (content t DB_CHANNEL_INFO)"
    using channels_shown.section_shown [OF D(1) l(2,3) C, where printAll = printAllChannelInfos, OF printAllChannelInfos_def] by blast
  have "table_channels t (chan_list (content t DB_CHANNEL_INFO) cs)" using c(4,5) by (auto simp: table_channels_def)
  moreover have "map channel_row (chan_list (content t DB_CHANNEL_INFO) cs) =
      map (\<lambda>k. channel_row (projr (decode_channel_info (the (content t DB_CHANNEL_INFO k))))) cs" by (simp add: chan_list_def)
  moreover note rows_of_view(2) [OF a(5) account_view_def [of "host_le E"]] rows_of_view(2) [OF l(5) login_view_def]
  moreover have "set ns = dom (name_view t)" using n(5) by (simp add: name_view_def dom_def)
  moreover have "dbs E tab opn w4 t" by (rule dbsI [OF assms(1) c(2,3) D(4)])
  ultimately show ?thesis
    using a(1) [unfolded rows_of_view(1) [OF a(5) account_view_def [of "host_le E"], where row = account_row]] a(4) n(1,4)
      l(1) [unfolded rows_of_view(1) [OF l(5) login_view_def, where row = login_row]] l(4) c(1)
    by (intro exI [of _ w4] exI [of _ as] exI [of _ ns] exI [of _ ls] exI [of _ "chan_list (content t DB_CHANNEL_INFO) cs"])
      (simp add: run_db_viewer_def name_view_def)
qed

section \<open>Properties\<close>



definition user_row :: "connected_user \<Rightarrow> string" where
  "user_row u = ''display_name: '' @ user_name u @ '', fd: '' @ show_int (cu_fd u) @ '', uuid: '' @ cstr (cu_uuid u) @
     '', privilege lvl: '' @ show_int (sint (cu_privilege_level u)) @ nl"

lemma print_users_spec: "list_all wf_user us \<Longrightarrow> print_users us = Inr (concat (map user_row us))"
  by (induction us) (simp_all add: user_row_def wf_user_def clib)

lemma view_active_users_spec:
  assumes "wf_cache entries"
  shows "view_active_users entries = Inr (if users entries = [] then ''There are no active users.'' @ nl
    else nl @ ''Active user count: '' @ show_nat (length (users entries)) @ nl @ concat (map user_row (users entries)))"
proof -
  obtain u us where e: "entries = u # us" using assms by (cases entries) (simp_all add: wf_cache_def)
  have w: "wf_user u" "list_all wf_user (users entries)" using assms wf_users [OF assms] by (simp add: wf_cache_def e, simp add: list_all_iff)
  have n: "name_empty (entries ! 0) = Inr (users entries = [])" using w(1) by (simp add: users_def e)
  have i: "show_int (int k) = show_nat k" for k by (simp add: show_int_def)
  show ?thesis
    unfolding view_active_users_def get_num_spec [OF assms] n take_users print_users_spec [OF w(2)] i bindR_simps
    by (simp only: if_distrib [of Inr])
qed

text \<open>C26: the list of the connected users. For a cache that is in order it says that there are none, or gives their number
  and one line for each of them in the order of the cache.\<close>

theorem view_active_users_correct:
  assumes "wf_cache entries"
  shows "view_active_users entries = Inr (if users entries = [] then ''There are no active users.'' @ nl
    else nl @ ''Active user count: '' @ show_nat (length (users entries)) @ nl @ concat (map user_row (users entries)))"
  by (rule view_active_users_spec [OF assms])

theorem view_active_users_correct_witness:
  "view_active_users demo_cache = Inr (nl @ ''Active user count: 1'' @ nl @ ''display_name: benny, fd: 5, uuid: '' @ cstr demo_uuid @
    '', privilege lvl: 0'' @ nl)"
  using view_active_users_correct [OF wf_demo_cache(1)] by (simp add: user_row_def show_digits show_int_def)

end
