(* ===== verification/ViewerTool.thy ===== *)
theory ViewerTool
  imports Viewer
begin

text \<open>
  The stand-alone database viewer, \<^verbatim>\<open>db_viewer/main.c\<close>. It declares the structures of the databases a second time, with the
  sizes 20 and 30 instead of 21 and 31 and with a \<^verbatim>\<open>struct sockaddr_in\<close> in place of the address text, and casts what the server
  stored to them. A datum lies in a buffer of the library; \<open>behind\<close> are the bytes behind it that may be read.
\<close>

section \<open>Operations\<close>

text \<open>The offsets of the structures as the compiler lays them out: in an account \<^verbatim>\<open>sock_addr\<close> is aligned to 60, \<^verbatim>\<open>online_status\<close>
  follows at 76 and \<^verbatim>\<open>privilege_level\<close> at 80; in a login the password is at 20 and the id at 50. The copy of the address is
  never freed.\<close>

definition tool_account_line :: "'w env \<Rightarrow> 'w \<Rightarrow> bytes \<Rightarrow> bytes \<Rightarrow> bytes \<Rightarrow> string result" where
  "tool_account_line E w behind key data =
     (let user = data @ behind
      in if \<not> malloc_ok E w 20 then Inl NullDeref
         else bindR (strncpy (heap_junk E w 20) (drop 60 user) 16) (\<lambda>clnt_addr.
           bindR (str_at user 0) (\<lambda>user_id. bindR (str_at user 37) (\<lambda>display_name. bindR (c_string clnt_addr) (\<lambda>addr.
           bindR (bool_at user 76) (\<lambda>online_status. bindR (int_at (host_le E) user 80) (\<lambda>privilege_level.
             Inr (user_id @ sep @ display_name @ sep @ addr @ sep @ show_int online_status @ sep @ show_int privilege_level @ nl))))))))"

definition tool_printAllUserAccounts :: "bytes \<Rightarrow> 'w env \<Rightarrow> 'w \<Rightarrow> db_name \<Rightarrow> string result" where
  "tool_printAllUserAccounts behind E w db = print_records E w db (tool_account_line E w behind) (dbm_traverse E w db)"

definition tool_name_line :: "bytes \<Rightarrow> bytes \<Rightarrow> bytes \<Rightarrow> string result" where
  "tool_name_line behind key data = bindR (str_at (key @ behind) 0) (\<lambda>display_name. bindR (str_at (data @ behind) 0) (\<lambda>user_uuid.
     Inr (display_name @ sep @ user_uuid @ nl)))"

definition tool_printAllDisplayNames :: "bytes \<Rightarrow> 'w env \<Rightarrow> 'w \<Rightarrow> db_name \<Rightarrow> string result" where
  "tool_printAllDisplayNames behind E w db = print_records E w db (tool_name_line behind) (dbm_traverse E w db)"

definition tool_login_line :: "bytes \<Rightarrow> bytes \<Rightarrow> bytes \<Rightarrow> string result" where
  "tool_login_line behind key data =
     (let user = data @ behind
      in bindR (str_at user 0) (\<lambda>login_token. bindR (str_at user 20) (\<lambda>password. bindR (str_at user 50) (\<lambda>uuid.
           Inr (login_token @ sep @ password @ sep @ uuid @ nl)))))"

definition tool_printAllLoginInfos :: "bytes \<Rightarrow> 'w env \<Rightarrow> 'w \<Rightarrow> db_name \<Rightarrow> string result" where
  "tool_printAllLoginInfos behind E w db = print_records E w db (tool_login_line behind) (dbm_traverse E w db)"

text \<open>\<^verbatim>\<open>identify_os\<close> returns what \<^verbatim>\<open>uname\<close> filled in, also if it failed.\<close>

definition tool_identify_os :: "int \<Rightarrow> string \<Rightarrow> string \<times> string" where
  "tool_identify_os result sysname =
     (if result = 0 then nl @ ''Server is running on: '' @ sysname @ nl else ''Error getting uname information'' @ nl, sysname)"

text \<open>The paths of accounts, display names and logins, in buffers of 256 bytes whose content is undetermined. For Darwin the
  first path is copied without its terminator, and for another system none is copied.\<close>

definition tool_paths :: "string \<Rightarrow> bytes \<times> bytes \<times> bytes \<Rightarrow> (bytes \<times> bytes \<times> bytes) result" where
  "tool_paths my_os = (\<lambda>(user_acc, user_dsply_nm, user_log_info).
     if my_os = ''Darwin''
     then bindR (strncpy user_acc (lit ''../user_account_info'') (length ''../user_account_info'')) (\<lambda>user_acc.
       bindR (strncpy user_dsply_nm (lit ''../display_names'') (length (lit ''../display_names''))) (\<lambda>user_dsply_nm.
       bindR (strncpy user_log_info (lit ''../user_login_info'') (length (lit ''../user_login_info''))) (\<lambda>user_log_info.
         Inr (user_acc, user_dsply_nm, user_log_info))))
     else if my_os = ''Linux''
     then bindR (strncpy user_acc (lit ''../src/user_account_info'') (length (lit ''../src/user_account_info''))) (\<lambda>user_acc.
       bindR (strncpy user_dsply_nm (lit ''../src/display_names'') (length (lit ''../src/display_names''))) (\<lambda>user_dsply_nm.
       bindR (strncpy user_log_info (lit ''../src/user_login_info'') (length (lit ''../src/user_login_info''))) (\<lambda>user_log_info.
         Inr (user_acc, user_dsply_nm, user_log_info))))
     else Inr (user_acc, user_dsply_nm, user_log_info))"

text \<open>Opening a path: \<open>at_path\<close> tells which database, if any, lies there. The handle is used without a check.\<close>

definition tool_view :: "(string \<Rightarrow> db_name option) \<Rightarrow> 'w env \<Rightarrow> string \<Rightarrow> bytes \<Rightarrow> ('w env \<Rightarrow> 'w \<Rightarrow> db_name \<Rightarrow> string result) \<Rightarrow> 'w \<Rightarrow>
    (string \<times> db_name \<times> 'w) result" where
  "tool_view at_path E title path printAll w =
     bindR (c_string path) (\<lambda>p.
       case at_path p of
         None \<Rightarrow> Inl NullDeref
       | Some db \<Rightarrow>
           (let (ok, w) = dbm_open E w db [O_RDWR, O_SYNC, O_APPEND]
            in if ok then bindR (printAll E w db) (\<lambda>s. Inr (title @ nl @ s @ nl, db, w)) else Inl NullDeref))"

definition tool_main ::
  "(string \<Rightarrow> db_name option) \<Rightarrow> bytes \<Rightarrow> int \<Rightarrow> string \<Rightarrow> 'w env \<Rightarrow> 'w \<Rightarrow> (string \<times> 'w) result"
where
  "tool_main at_path behind result sysname E w =
     (let junk = heap_junk E w 256; (t, my_os) = tool_identify_os result sysname
      in if \<not> malloc_ok E w 256 then Inl NullDeref
         else bindR (tool_paths my_os (junk, junk, junk)) (\<lambda>(user_acc, user_dsply_nm, user_log_info).
           bindR (tool_view at_path E ''UserAccounts DB'' user_acc (tool_printAllUserAccounts behind) w) (\<lambda>(a, accounts, w).
           bindR (tool_view at_path E ''DisplayNames DB'' user_dsply_nm (tool_printAllDisplayNames behind) w) (\<lambda>(n, names, w).
           bindR (tool_view at_path E ''UserLoginInfo DB'' user_log_info (tool_printAllLoginInfos behind) w) (\<lambda>(l, logins, w).
             Inr (t @ a @ n @ l, dbm_close E (dbm_close E (dbm_close E w logins) names) accounts))))))"

section \<open>Lemmas\<close>

lemma pad_drop: "k \<le> n \<Longrightarrow> length s \<le> n \<Longrightarrow> drop k (nul_pad n s) = nul_pad (n - k) (drop k s)"
  by (cases "k \<le> length s") (simp_all add: nul_pad_def)

lemma no_NUL_drop: "NUL \<notin> set s \<Longrightarrow> NUL \<notin> set (drop k s)"
  by (auto dest: in_set_dropD)

lemma tool_login_spec:
  assumes "NUL \<notin> set tok" "NUL \<notin> set pw" "length tok < TOKEN_NAME_LENGTH" "length pw < PSWD_MAX_LENGTH"
    and u: "ul_login_token u = nul_pad TOKEN_NAME_LENGTH tok" "ul_password u = nul_pad PSWD_MAX_LENGTH pw"
  shows "tool_login_line behind k (encode_user_login u) = Inr (tok @ sep @ sep @ drop 29 pw @ nl)"
proof -
  have "drop 20 (nul_pad 21 tok) = [NUL]" using assms(3) pad_drop [of 20 21 tok] by (simp add: zeros_def nul_pad_def)
  then have d: "drop 20 (encode_user_login u) = NUL # nul_pad 31 pw @ ul_uuid u" using u assms(3) by (simp add: encode_user_login_def)
  have "drop 50 (encode_user_login u) = nul_pad 2 (drop 29 pw) @ ul_uuid u"
    using u assms(3,4) pad_drop [of 29 31 pw] by (simp add: encode_user_login_def)
  moreover have "terminated (nul_pad 2 (drop 29 pw))" "cstr (nul_pad 2 (drop 29 pw)) = drop 29 pw"
    using no_NUL_drop [OF assms(2)] assms(4) by simp_all
  moreover have "str_at (encode_user_login u @ behind) 0 = Inr tok" using u assms(1,3) by (simp add: str_at_def encode_user_login_def clib)
  moreover have "length (encode_user_login u) \<ge> 52" using u assms(3,4) by (simp add: encode_user_login_def)
  ultimately show ?thesis using d by (simp add: tool_login_line_def str_at_def clib)
qed

lemma tool_account_spec:
  assumes W: "wf_user_account a" and S: "account_strings a" and ip: "ua_ip_addr a = nul_pad CLNT_IP_ADDR_LENGTH ip" "NUL \<notin> set ip"
      "length ip < CLNT_IP_ADDR_LENGTH" and H: "malloc_ok E w 20" "length (heap_junk E w 20) = 20"
  shows "tool_account_line E w behind k (encode_user_account (host_le E) a) =
    (if length behind < 4 then Inl Overread
     else Inr (cstr (ua_user_id a) @ sep @ cstr (ua_display_name a) @ sep @ drop 2 ip @ sep @
       show_int (if hd (mem32 (host_le E) (ua_privilege_level a)) = NUL then 0 else 1) @ sep @
       show_int (sint (of_mem32 (host_le E) (take 4 behind))) @ nl))"
proof -
  let ?v = "encode_user_account (host_le E) a" and ?p = "mem32 (host_le E) (ua_privilege_level a)"
  have l: "length (ua_user_id a) = 37" "length (ua_display_name a) = 21" "length ?p = 4" "length ?v = 80"
    and t: "terminated (ua_user_id a)" "terminated (ua_display_name a)"
    using W S by (simp_all add: wf_user_account_def account_strings_def uuid_text_def encode_user_account_def)
  have d: "drop 60 ?v = nul_pad 14 (drop 2 ip) @ [bool_byte (ua_online_status a), NUL] @ ?p"
    using l ip pad_drop [of 2 16 ip] by (simp add: encode_user_account_def)
  have n: "cstr (nul_pad 14 (drop 2 ip) @ x) = drop 2 ip" "terminated (nul_pad 14 (drop 2 ip))" "length (nul_pad 14 (drop 2 ip)) = 14" for x
    using no_NUL_drop [OF ip(2), of 2] ip(3) by simp_all
  have s: "strncpy (heap_junk E w 20) (drop 60 (?v @ behind)) 16 = Inr (nul_pad 16 (drop 2 ip) @ drop 16 (heap_junk E w 20))"
    using H(2) l(4) n by (simp add: strncpy_eq_Inr d)
  have c: "c_string (nul_pad 16 (drop 2 ip) @ x) = Inr (drop 2 ip)" for x
    using no_NUL_drop [OF ip(2), of 2] ip(3) by (simp add: c_string_def less_imp_diff_less)
  have f: "str_at (?v @ behind) 0 = Inr (cstr (ua_user_id a))" "str_at (?v @ behind) 37 = Inr (cstr (ua_display_name a))"
    using l t by (simp_all add: encode_user_account_def str_at_def clib)
  have b: "bool_at (?v @ behind) 76 = Inr (if hd ?p = NUL then 0 else 1)"
    using l ip by (cases ?p) (simp_all add: bool_at_def char_at_def encode_user_account_def nth_append)
  have i: "int_at (host_le E) (?v @ behind) 80 =
      (if length behind < 4 then Inl Overread else Inr (sint (of_mem32 (host_le E) (take 4 behind))))"
    using l by (simp add: int_at_def)
  show ?thesis unfolding tool_account_line_def Let_def s bindR_simps f c b i using H(1) by simp
qed

lemma tool_main_no_accounts:
  assumes "malloc_ok E w 256" "length (heap_junk E w 256) = 256" "at_path ''../src/user_account_info'' = None"
  shows "tool_main at_path behind r ''Linux'' E w = Inl NullDeref"
proof -
  have p: "strncpy (heap_junk E w 256) (lit s) (length (lit s)) = Inr (lit s @ drop (length (lit s)) (heap_junk E w 256))"
    if "NUL \<notin> set s" "length s < 256" for s
    using that assms(2) by (simp add: strncpy_eq_Inr nul_pad_def lit_def cstr_append zeros_def)
  have c: "c_string (lit s @ x) = Inr s" if "NUL \<notin> set s" for s x using that by (simp add: c_string_def)
  have q: "NUL \<notin> set ''../src/user_account_info''" "NUL \<notin> set ''../src/display_names''" "NUL \<notin> set ''../src/user_login_info''"
    "length ''../src/user_account_info'' < 256" "length ''../src/display_names'' < 256" "length ''../src/user_login_info'' < 256"
    "''Linux'' \<noteq> ''Darwin''" by simp_all
  show ?thesis
    unfolding tool_main_def tool_paths_def tool_identify_os_def Let_def tool_view_def
    by (simp only: assms(1) p [OF q(1,4)] p [OF q(2,5)] p [OF q(3,6)] q(7) bindR_simps c [OF q(1)] assms(3) prod.case option.case simp_thms if_True if_False)
qed

section \<open>Properties\<close>

text \<open>C38: the stand-alone viewer does not fit the server. Of a login the server stored it prints the token but neither the
  password nor the id (at most the last character of a password of 30). Of an account it prints the address without its first
  two characters, the privilege in place of the online status, and as privilege four bytes from behind the record, which is an
  over-read if there are none. On Linux it opens \<^verbatim>\<open>../src/user_account_info\<close>, while the server uses the home directory, and
  without a database there it passes a NULL handle to the library.\<close>

theorem standalone_viewer_misreads:
  assumes "heap_law E" and "NUL \<notin> set tok" "NUL \<notin> set pw" "length tok < TOKEN_NAME_LENGTH" "length pw < PSWD_MAX_LENGTH"
    and "ul_login_token u = nul_pad TOKEN_NAME_LENGTH tok" "ul_password u = nul_pad PSWD_MAX_LENGTH pw"
    and "wf_user_account a" "account_strings a" "ua_ip_addr a = nul_pad CLNT_IP_ADDR_LENGTH ip" "NUL \<notin> set ip"
      "length ip < CLNT_IP_ADDR_LENGTH" and "at_path ''../src/user_account_info'' = None"
  shows "tool_login_line behind k (encode_user_login u) = Inr (tok @ sep @ sep @ drop 29 pw @ nl) \<and>
    tool_account_line E w behind k (encode_user_account (host_le E) a) =
      (if length behind < 4 then Inl Overread
       else Inr (cstr (ua_user_id a) @ sep @ cstr (ua_display_name a) @ sep @ drop 2 ip @ sep @
         show_int (if hd (mem32 (host_le E) (ua_privilege_level a)) = NUL then 0 else 1) @ sep @
         show_int (sint (of_mem32 (host_le E) (take 4 behind))) @ nl)) \<and>
    tool_main at_path behind r ''Linux'' E w = Inl NullDeref"
proof (intro conjI)
  have h: "malloc_ok E w n" "length (heap_junk E w n) = n" for n using assms(1) by (simp_all add: heap_law_def)
  show "tool_login_line behind k (encode_user_login u) = Inr (tok @ sep @ sep @ drop 29 pw @ nl)" by (rule tool_login_spec [OF assms(2-7)])
  show "tool_main at_path behind r ''Linux'' E w = Inl NullDeref" using tool_main_no_accounts [of E w at_path] h assms(13) by blast
qed (rule tool_account_spec [OF assms(8-12)], use assms(1) in \<open>simp_all add: heap_law_def\<close>)

theorem standalone_viewer_misreads_witness:
  "tool_login_line [] [] (encode_user_login demo_login) = Inr ''bennychao, , \<newline>'' \<and>
   tool_account_line mem_env mem_empty [] [] (encode_user_account True demo_account) = Inl Overread"
  using standalone_viewer_misreads [of mem_env "''bennychao''" "''monkey123''" demo_login demo_account "''10.0.0.1''" "\<lambda>_. None" "[]" "[]" mem_empty]
    mem_env_contract
  by (simp add: ndbm_contract_def) (simp add: demo_login_def demo_account_def)

end
