(* ===== verification/Startup.thy ===== *)
theory Startup
  imports Util
begin

text \<open>
  What \<^verbatim>\<open>main\<close> does before the user interface starts: the options of the command line (\<^verbatim>\<open>src/option_handler.c\<close>) and the
  paths of the databases (\<^verbatim>\<open>setup_db_paths\<close> of \<^verbatim>\<open>src/main-chat-server.c\<close>).
\<close>

section \<open>Options\<close>

record options =
  op_port_in :: "16 word"
  op_server_sock :: int

abbreviation DEFAULT_PORT :: "16 word" where "DEFAULT_PORT \<equiv> 5050"

abbreviation MAX_ARG_COUNT :: nat where "MAX_ARG_COUNT \<equiv> 3"

definition options_init :: options where
  "options_init = (let opts = \<lparr>op_port_in = 0, op_server_sock = 0\<rparr>; opts = opts\<lparr>op_port_in := DEFAULT_PORT\<rparr> in opts\<lparr>op_server_sock := 0\<rparr>)"

text \<open>POSIX \<^verbatim>\<open>getopt\<close> for the option string \<^verbatim>\<open>"p:"\<close>, from the argument \<open>ind\<close> on: the option with its operand and the next
  \<^verbatim>\<open>optind\<close>; \<open>None\<close> is the result \<open>-1\<close>. The caller stops at the first error, so that no position inside an
  argument has to be kept.\<close>

definition getopt :: "string list \<Rightarrow> nat \<Rightarrow> (char \<times> string) option \<times> nat" where
  "getopt argv ind =
     (if ind \<ge> length argv then (None, ind)
      else let arg = argv ! ind
        in if length arg < 2 \<or> arg ! 0 \<noteq> CHR ''-'' then (None, ind)
           else if arg = ''--'' then (None, Suc ind)
           else if arg ! 1 \<noteq> CHR ''p'' then (Some (CHR ''?'', []), ind)
           else if length arg > 2 then (Some (CHR ''p'', drop 2 arg), Suc ind)
           else if Suc ind < length argv then (Some (CHR ''p'', argv ! Suc ind), Suc (Suc ind))
           else (Some (CHR ''?'', []), Suc ind))"

lemma getopt_next: "(Some (CHR ''p'', optarg), ind') = getopt argv ind \<Longrightarrow> ind < ind' \<and> ind' \<le> length argv"
  by (auto simp: getopt_def Let_def split: if_splits)

text \<open>The loop over the options returns the options and \<^verbatim>\<open>optind\<close>, or \<open>None\<close> for the return of \<^verbatim>\<open>EXIT_FAILURE\<close>. The
  default case asserts a string literal, which is always true.\<close>

function options_loop :: "string list \<Rightarrow> nat \<Rightarrow> options \<Rightarrow> (options \<times> nat option) result" where
  "options_loop argv ind opts =
     (case getopt argv ind of
        (None, ind) \<Rightarrow> Inr (opts, Some ind)
      | (Some (c, optarg), ind) \<Rightarrow>
          if c = CHR ''p'' then (case parse_port optarg of
              Inl _ \<Rightarrow> Inl (Exited 2)
            | Inr port \<Rightarrow> options_loop argv ind (opts\<lparr>op_port_in := port\<rparr>))
          else Inr (opts, None))"
  by pat_completeness auto
termination
  by (relation "measure (\<lambda>(argv, ind, opts). length argv - ind)") (simp, clarify, drule getopt_next, simp add: diff_less_mono2)

declare options_loop.simps [simp del]

definition parse_arguments :: "string list \<Rightarrow> options \<Rightarrow> (int \<times> options) result" where
  "parse_arguments argv opts =
     (if length argv > MAX_ARG_COUNT \<or> length argv mod 2 = 0 then Inr (1, opts)
      else bindR (options_loop argv 1 opts) (\<lambda>(opts, r). case r of
          None \<Rightarrow> Inr (1, opts)
        | Some optind \<Rightarrow> if optind < length argv then Inr (1, opts) else Inr (0, opts)))"

section \<open>Database paths\<close>

abbreviation PATH_MAX :: nat where "PATH_MAX \<equiv> 4096"

abbreviation EXIT_SUCCESS :: int where "EXIT_SUCCESS \<equiv> 0"

abbreviation EXIT_FAILURE :: int where "EXIT_FAILURE \<equiv> 1"

fun mapR :: "('a \<Rightarrow> 'b result) \<Rightarrow> 'a list \<Rightarrow> 'b list result" where
  "mapR f [] = Inr []"
| "mapR f (x # xs) = bindR (f x) (\<lambda>y. bindR (mapR f xs) (\<lambda>ys. Inr (y # ys)))"

text \<open>The databases in the order of the code: logins, display names, accounts, channels, messages.\<close>

definition db_names :: "string list" where
  "db_names = [''user_login_info'', ''display_names'', ''user_account_info'', ''channel_info'', ''messages_info'']"

text \<open>The argument is the value of \<^verbatim>\<open>getenv("HOME")\<close>, the result the returned code with the five path arrays.\<close>

definition setup_db_paths :: "string option \<Rightarrow> (int \<times> bytes list) result" where
  "setup_db_paths home =
     (let paths = replicate 5 (zeros PATH_MAX); temps = replicate 5 (zeros PATH_MAX)
      in case home of
           None \<Rightarrow> Inr (EXIT_FAILURE, paths)
         | Some home_dir \<Rightarrow>
             bindR (mapR strlen paths) (\<lambda>lens.
             if list_ex (\<lambda>l. length home_dir + l + 1 \<ge> PATH_MAX) lens then Inr (EXIT_FAILURE, paths)
             else bindR (mapR (\<lambda>t. strcpy t (lit home_dir)) temps) (\<lambda>temps.
             bindR (mapR (\<lambda>t. strcat t (lit ''/'')) temps) (\<lambda>temps.
             bindR (mapR (\<lambda>(t, n). strcat t (lit n)) (zip temps db_names)) (\<lambda>temps.
             bindR (mapR (\<lambda>(p, t). strncpy p t PATH_MAX) (zip paths temps)) (\<lambda>paths.
               Inr (EXIT_SUCCESS, paths)))))))"

section \<open>Lemmas\<close>

lemma mapR_same:
  assumes "\<And>x. x \<in> set xs \<Longrightarrow> f x = Inr (g x)"
  shows "mapR f xs = Inr (map g xs)"
  using assms by (induction xs) simp_all

lemma strcpy_pad: "NUL \<notin> set s \<Longrightarrow> length s < n \<Longrightarrow> strcpy (zeros n) (lit s) = Inr (nul_pad n s)"
  using strcpy_zeros [of "lit s" n] by simp

lemma strcat_pad:
  assumes "NUL \<notin> set s" "NUL \<notin> set u" "length s < n"
  shows "strcat (nul_pad n s) (lit u) = (if length s + length u < n then Inr (nul_pad n (s @ u)) else Inl BufferOverflow)"
proof -
  have "terminated (nul_pad n s)" "cstr (nul_pad n s) = s" "length (nul_pad n s) = n" using assms by simp_all
  moreover have "drop (Suc (length s + length u)) (nul_pad n s) = zeros (n - Suc (length s + length u))" if "length s + length u < n"
    using that by (simp add: nul_pad_def)
  moreover have "nul_pad n (s @ u) = lit (s @ u) @ zeros (n - Suc (length s + length u))" if "length s + length u < n"
    using that by (simp add: nul_pad_def lit_def zeros_def Suc_diff_Suc flip: replicate_Suc)
  ultimately show ?thesis using assms by (simp add: strcat_def strcpy_def clib)
qed

lemma setup_db_paths_spec:
  assumes "NUL \<notin> set home"
  shows "setup_db_paths None = Inr (EXIT_FAILURE, replicate 5 (zeros PATH_MAX)) \<and>
    setup_db_paths (Some home) =
      (if PATH_MAX \<le> length home + 1 then Inr (EXIT_FAILURE, replicate 5 (zeros PATH_MAX))
       else if PATH_MAX \<le> length home + 18 then Inl BufferOverflow
       else Inr (EXIT_SUCCESS, map (\<lambda>n. nul_pad PATH_MAX (home @ ''/'' @ n)) db_names)) \<and>
    distinct (map (\<lambda>n. home @ ''/'' @ n) db_names)"
proof -
  have r: "replicate 5 x = [x, x, x, x, x]" for x :: 'a by (simp add: eval_nat_numeral)
  show ?thesis
    using assms unfolding setup_db_paths_def r db_names_def Let_def
    by (simp add: strcpy_pad strcat_pad strlen_terminated strncpy_same_size)
qed

section \<open>Properties\<close>


text \<open>C34: the database paths. Without a home directory, or with one that alone fills the path arrays, the setup fails. If the
  longest path fits, all five paths are set and differ. Between the two, for the 17 lengths the check misses, the setup writes
  behind its arrays.\<close>

theorem setup_db_paths_correct:
  assumes "NUL \<notin> set home"
  shows "setup_db_paths None = Inr (EXIT_FAILURE, replicate 5 (zeros PATH_MAX)) \<and>
    setup_db_paths (Some home) =
      (if PATH_MAX \<le> length home + 1 then Inr (EXIT_FAILURE, replicate 5 (zeros PATH_MAX))
       else if PATH_MAX \<le> length home + 18 then Inl BufferOverflow
       else Inr (EXIT_SUCCESS, map (\<lambda>n. nul_pad PATH_MAX (home @ ''/'' @ n)) db_names)) \<and>
    distinct (map (\<lambda>n. home @ ''/'' @ n) db_names)"
  by (rule setup_db_paths_spec [OF assms])

theorem setup_db_paths_correct_witness:
  "setup_db_paths (Some ''/home/chat'') = Inr (EXIT_SUCCESS, map (\<lambda>n. nul_pad PATH_MAX (''/home/chat'' @ ''/'' @ n)) db_names) \<and>
   setup_db_paths (Some (replicate 4080 CHR ''x'')) = Inl BufferOverflow"
  using setup_db_paths_correct [of "''/home/chat''"] setup_db_paths_correct [of "replicate 4080 CHR ''x''"] by simp


end
