(* ===== verification/Ui.thy ===== *)
theory Ui
  imports Viewer Startup "HOL-Library.Signed_Division"
begin

text \<open>
  The user interface, \<^verbatim>\<open>src/ncurses_ui.c\<close>. What a function draws is a list of calls of ncurses (\<open>draw\<close>), the keys a
  function reads come from a list, and a function that waits for a key when the list is empty has the result \<open>None\<close>: it has not
  returned yet.
\<close>

section \<open>Drawing\<close>

datatype draw =
    Clear
  | Box
  | Put int int bool string
  | Printw string

text \<open>\<open>Put y x a s\<close> prints \<open>s\<close> at row \<open>y\<close> and column \<open>x\<close>, with the attribute (reverse or bold) if \<open>a\<close> holds.\<close>

abbreviation TITLE :: string where "TITLE \<equiv> ''Chat Server''"

abbreviation MENU_HEIGHT :: int where "MENU_HEIGHT \<equiv> 11"

abbreviation MENU_WIDTH :: int where "MENU_WIDTH \<equiv> 80"

abbreviation DB_PATH_BOX_HEIGHT :: int where "DB_PATH_BOX_HEIGHT \<equiv> 9"

abbreviation DB_PATH_BOX_WIDTH :: int where "DB_PATH_BOX_WIDTH \<equiv> 60"

definition choices :: "string list" where
  "choices = [''1. Run server'', ''2. View database'', ''3. View Active Users'', ''4. Quit'']"

definition credits :: string where
  "credits = ''Created by Shik Hur, Benny Chao, David Lee (BCIT CST COMP4985 Project)''"

fun print_choices :: "int \<Rightarrow> int \<Rightarrow> nat list \<Rightarrow> int \<Rightarrow> draw list \<times> int" where
  "print_choices highlight x [] y = ([], y)"
| "print_choices highlight x (i # is) y =
     (let (ds, y') = print_choices highlight x is (y + 1) in (Put y x (highlight = int i + 1) (choices ! i) # ds, y'))"

definition print_menu :: "int \<Rightarrow> draw list" where
  "print_menu highlight =
     (let x = 3; y = 3; (ds, y) = print_choices highlight x [0..<4] y; y = y + 1
      in Box # ds @ [Put y x False credits])"

text \<open>A window: height, width, first row, first column.\<close>

type_synonym window = "int \<times> int \<times> int \<times> int"

definition create_menu_window :: "int \<Rightarrow> int \<Rightarrow> window" where
  "create_menu_window COLS LINES =
     (let menu_startx = (COLS - MENU_WIDTH) sdiv 2; menu_starty = (LINES - MENU_HEIGHT) sdiv 2
      in (MENU_HEIGHT, MENU_WIDTH, menu_starty, menu_startx))"

definition create_db_path_window :: "int \<Rightarrow> window" where
  "create_db_path_window COLS =
     (let menu_startx = (COLS - DB_PATH_BOX_WIDTH) sdiv 2; menu_starty = 5
      in (DB_PATH_BOX_HEIGHT, DB_PATH_BOX_WIDTH, menu_starty, menu_startx))"

definition print_title :: "int \<Rightarrow> draw list" where
  "print_title startx = [Put 1 startx True TITLE]"

text \<open>The paths in the order of \<^verbatim>\<open>setup_db_paths\<close>: logins, display names, accounts, channels, messages.\<close>

fun print_paths :: "int \<Rightarrow> int \<Rightarrow> (string \<times> bytes) list \<Rightarrow> draw list result" where
  "print_paths y startx [] = Inr []"
| "print_paths y startx ((label, path) # ps) =
     bindR (c_string path) (\<lambda>p. bindR (print_paths (y + 1) startx ps) (\<lambda>ds. Inr (Put y startx False (label @ '': '' @ p) # ds)))"

definition print_db_paths :: "bytes list \<Rightarrow> int \<Rightarrow> draw list result" where
  "print_db_paths paths startx =
     (let y = 1; title = Put y startx False ''DB paths''; y = y + 2
      in bindR (print_paths y startx (zip [''User Login info'', ''Display names'', ''User account'', ''Channel info'', ''Message info''] paths))
           (\<lambda>ds. Inr (Box # title # ds)))"

section \<open>The menu\<close>

abbreviation KEY_DOWN :: int where "KEY_DOWN \<equiv> 258"

abbreviation KEY_UP :: int where "KEY_UP \<equiv> 259"

abbreviation KEY_RETURN :: int where "KEY_RETURN \<equiv> 10"

text \<open>The loop of \<^verbatim>\<open>navigate_menu\<close>: the choice, the keys that are left, and what was drawn.\<close>

fun navigate_loop :: "int \<Rightarrow> int list \<Rightarrow> draw list \<Rightarrow> (int \<times> int list \<times> draw list) option" where
  "navigate_loop choice [] out = None"
| "navigate_loop choice (key # keys) out =
     (let out = out @ print_menu choice
      in if key = KEY_UP then navigate_loop (if choice - 1 < 1 then 4 else choice - 1) keys out
         else if key = KEY_DOWN then navigate_loop (if choice + 1 > 4 then 1 else choice + 1) keys out
         else if key = KEY_RETURN then Some (choice, keys, out)
         else navigate_loop choice keys out)"

definition navigate_menu :: "int list \<Rightarrow> (int \<times> int list \<times> draw list) option" where
  "navigate_menu keys = navigate_loop 1 keys []"

section \<open>The viewers\<close>

fun getch :: "int list \<Rightarrow> (int \<times> int list) option" where
  "getch [] = None"
| "getch (key # keys) = Some (key, keys)"

text \<open>Both viewers clear the screen, print, wait for a key and clear the screen again.\<close>

definition run_db_viewer_wrapper :: "'w env \<Rightarrow> 'w \<Rightarrow> int list \<Rightarrow> ((int list \<times> draw list) option \<times> 'w) result" where
  "run_db_viewer_wrapper E w keys =
     bindR (run_db_viewer E w) (\<lambda>(text, w).
       Inr (map_option (\<lambda>(_, keys). (keys, [Clear, Printw (''Database contents:'' @ nl), Printw text, Clear])) (getch keys), w))"

definition run_active_user_viewer :: "connected_user list \<Rightarrow> int list \<Rightarrow> (int list \<times> draw list) option result" where
  "run_active_user_viewer entries keys =
     bindR (view_active_users entries) (\<lambda>text.
       Inr (map_option (\<lambda>(_, keys). (keys, [Clear, Printw text, Clear])) (getch keys)))"

section \<open>Lemmas\<close>

lemma print_menu_highlight:
  "print_menu h = [Box, Put 3 3 (h = 1) ''1. Run server'', Put 4 3 (h = 2) ''2. View database'', Put 5 3 (h = 3) ''3. View Active Users'',
     Put 6 3 (h = 4) ''4. Quit'', Put 8 3 False credits]"
  by (simp add: print_menu_def choices_def upt_rec Let_def)

text \<open>The position of the highlight after some keys: the choices lie on a circle.\<close>

definition moved :: "int \<Rightarrow> int list \<Rightarrow> int" where
  "moved choice keys = 1 + (choice - 1 + int (count_list keys KEY_DOWN) - int (count_list keys KEY_UP)) mod 4"

lemma moved_simps:
  assumes "1 \<le> choice" "choice \<le> 4"
  shows "moved choice [] = choice"
    "moved choice (KEY_UP # keys) = moved (if choice - 1 < 1 then 4 else choice - 1) keys"
    "moved choice (KEY_DOWN # keys) = moved (if choice + 1 > 4 then 1 else choice + 1) keys"
    "k \<noteq> KEY_UP \<Longrightarrow> k \<noteq> KEY_DOWN \<Longrightarrow> moved choice (k # keys) = moved choice keys"
proof -
  let ?d = "int (count_list keys KEY_DOWN)" and ?u = "int (count_list keys KEY_UP)"
  show "moved choice [] = choice" using assms by (simp add: moved_def)
  show "k \<noteq> KEY_UP \<Longrightarrow> k \<noteq> KEY_DOWN \<Longrightarrow> moved choice (k # keys) = moved choice keys" by (simp add: moved_def)
  have turn: "x = y + 4 \<Longrightarrow> x mod 4 = y mod 4" for x y :: int by simp
  have up: "(choice - 1 + ?d - (?u + 1)) mod 4 = ((if choice - 1 < 1 then 4 else choice - 1) - 1 + ?d - ?u) mod 4"
  proof (cases "choice = 1")
    case True
    have "(3 + ?d - ?u) mod 4 = (?d - (?u + 1)) mod 4" by (rule turn) simp
    with True show ?thesis by simp
  qed (use assms in \<open>simp add: algebra_simps\<close>)
  have dn: "(choice - 1 + (?d + 1) - ?u) mod 4 = ((if choice + 1 > 4 then 1 else choice + 1) - 1 + ?d - ?u) mod 4"
  proof (cases "choice = 4")
    case True
    have "(3 + (?d + 1) - ?u) mod 4 = (?d - ?u) mod 4" by (rule turn) simp
    with True show ?thesis by simp
  qed (use assms in \<open>simp add: algebra_simps\<close>)
  show "moved choice (KEY_UP # keys) = moved (if choice - 1 < 1 then 4 else choice - 1) keys"
    "moved choice (KEY_DOWN # keys) = moved (if choice + 1 > 4 then 1 else choice + 1) keys"
    using up dn by (simp_all add: moved_def algebra_simps)
qed

lemma moved_range: "1 \<le> moved choice keys \<and> moved choice keys \<le> 4"
proof -
  have "0 \<le> x mod 4 \<and> x mod 4 < 4" for x :: int by simp
  then show ?thesis unfolding moved_def by (smt (verit))
qed

lemma navigate_loop_spec:
  assumes "1 \<le> choice" "choice \<le> 4" "KEY_RETURN \<notin> set pre"
  shows "navigate_loop choice (pre @ KEY_RETURN # rest) out =
    Some (moved choice pre, rest, out @ concat (map (\<lambda>n. print_menu (moved choice (take n pre))) [0..<Suc (length pre)]))"
  using assms
proof (induction pre arbitrary: choice out)
  case Nil
  then show ?case by (simp add: moved_simps)
next
  case (Cons k pre)
  let ?c = "if k = KEY_UP then (if choice - 1 < 1 then 4 else choice - 1) else if k = KEY_DOWN then (if choice + 1 > 4 then 1 else choice + 1) else choice"
  have c: "1 \<le> ?c" "?c \<le> 4" using Cons.prems by auto
  have m: "moved choice (k # ks) = moved ?c ks" for ks using moved_simps [OF Cons.prems(1,2)] by simp
  have u: "[0..<Suc (length (k # pre))] = 0 # map Suc [0..<Suc (length pre)]" by (simp add: map_Suc_upt upt_conv_Cons del: upt_Suc)
  have "navigate_loop choice ((k # pre) @ KEY_RETURN # rest) out = navigate_loop ?c (pre @ KEY_RETURN # rest) (out @ print_menu choice)"
    using Cons.prems by (simp add: Let_def)
  also have "\<dots> = Some (moved ?c pre, rest, (out @ print_menu choice) @ concat (map (\<lambda>n. print_menu (moved ?c (take n pre))) [0..<Suc (length pre)]))"
    by (rule Cons.IH [OF c]) (use Cons.prems in simp)
  finally show ?case unfolding u by (simp add: m moved_simps(1) [OF Cons.prems(1,2)] comp_def del: upt_Suc)
qed

lemma navigate_loop_waits: "KEY_RETURN \<notin> set keys \<Longrightarrow> navigate_loop choice keys out = None"
  by (induction keys arbitrary: choice out) (simp_all add: Let_def)

lemma navigate_menu_waits: "navigate_menu keys = None \<longleftrightarrow> KEY_RETURN \<notin> set keys"
proof
  assume n: "navigate_menu keys = None"
  show "KEY_RETURN \<notin> set keys"
  proof
    assume "KEY_RETURN \<in> set keys"
    then obtain pre rest where "keys = pre @ KEY_RETURN # rest" "KEY_RETURN \<notin> set pre" by (meson split_list_first)
    with n navigate_loop_spec [of 1 pre rest "[]"] show False by (simp add: navigate_menu_def)
  qed
qed (simp add: navigate_menu_def navigate_loop_waits)

lemma navigate_loop_less: "navigate_loop choice keys out = Some (c, rest, ds) \<Longrightarrow> length rest < length keys"
  by (induction keys arbitrary: choice out) (auto simp: Let_def split: if_splits dest: less_SucI)

lemma sdiv_two: "0 \<le> n \<Longrightarrow> n sdiv 2 = n div 2" for n :: int
  by (cases "n = 0") (simp_all add: signed_divide_int_def)

text \<open>On a screen that is large enough both windows lie inside it, with margins that differ by at most one column, and the lines
  of the menu lie inside its frame.\<close>

lemma windows_fit:
  assumes "MENU_WIDTH \<le> COLS" "MENU_HEIGHT \<le> LINES" "DB_PATH_BOX_HEIGHT + 5 \<le> LINES"
    and "create_menu_window COLS LINES = (h, b, y, x)" "create_db_path_window COLS = (h', b', y', x')"
  shows "0 \<le> x \<and> x + b \<le> COLS \<and> 0 \<le> y \<and> y + h \<le> LINES \<and> COLS - (x + b) - x \<in> {0, 1}"
    "0 \<le> x' \<and> x' + b' \<le> COLS \<and> 0 \<le> y' \<and> y' + h' \<le> LINES \<and> COLS - (x' + b') - x' \<in> {0, 1}"
proof -
  have d: "0 \<le> n \<Longrightarrow> 0 \<le> n sdiv 2 \<and> n - 2 * (n sdiv 2) \<in> {0, 1}" for n :: int by (simp add: sdiv_two) presburger
  show "0 \<le> x \<and> x + b \<le> COLS \<and> 0 \<le> y \<and> y + h \<le> LINES \<and> COLS - (x + b) - x \<in> {0, 1}"
    "0 \<le> x' \<and> x' + b' \<le> COLS \<and> 0 \<le> y' \<and> y' + h' \<le> LINES \<and> COLS - (x' + b') - x' \<in> {0, 1}"
    using assms d [of "COLS - MENU_WIDTH"] d [of "LINES - MENU_HEIGHT"] d [of "COLS - DB_PATH_BOX_WIDTH"]
    by (auto simp: create_menu_window_def create_db_path_window_def Let_def)
qed

section \<open>Properties\<close>

text \<open>C25: the menu. The menu returns exactly when Return is pressed; the choice is then one of the four entries, the one that the
  presses of the arrow keys lead to on a circle from the first entry, other keys have no effect, and after every key the entry
  that is highlighted is the one Return would select.\<close>

theorem navigate_menu_correct:
  "(KEY_RETURN \<notin> set keys \<longrightarrow> navigate_menu keys = None) \<and>
   (KEY_RETURN \<notin> set pre \<longrightarrow> navigate_menu (pre @ KEY_RETURN # rest) =
     Some (moved 1 pre, rest, concat (map (\<lambda>n. print_menu (moved 1 (take n pre))) [0..<Suc (length pre)]))) \<and>
   moved 1 pre \<in> {1, 2, 3, 4} \<and>
   filter (\<lambda>d. case d of Put y x a s \<Rightarrow> a | _ \<Rightarrow> False) (print_menu (moved 1 pre)) =
     [Put (moved 1 pre + 2) 3 True (choices ! nat (moved 1 pre - 1))]"
proof -
  have r: "moved 1 pre \<in> {1, 2, 3, 4}" using moved_range [of 1 pre] by auto
  moreover from r have "filter (\<lambda>d. case d of Put y x a s \<Rightarrow> a | _ \<Rightarrow> False) (print_menu (moved 1 pre)) =
     [Put (moved 1 pre + 2) 3 True (choices ! nat (moved 1 pre - 1))]"
    by (auto simp: print_menu_highlight choices_def nth_Cons')
  moreover have "KEY_RETURN \<notin> set keys \<longrightarrow> navigate_menu keys = None" by (simp add: navigate_menu_def navigate_loop_waits)
  moreover have "KEY_RETURN \<notin> set pre \<longrightarrow> navigate_menu (pre @ KEY_RETURN # rest) =
     Some (moved 1 pre, rest, concat (map (\<lambda>n. print_menu (moved 1 (take n pre))) [0..<Suc (length pre)]))"
    using navigate_loop_spec [of 1 pre rest "[]"] by (simp add: navigate_menu_def del: upt_Suc)
  ultimately show ?thesis by blast
qed

theorem navigate_menu_correct_witness:
  "navigate_menu [KEY_UP, KEY_RETURN, 113] = Some (4, [113], print_menu 1 @ print_menu 4) \<and> navigate_menu [KEY_UP] = None"
  using navigate_menu_correct [of "[KEY_UP]" "[KEY_UP]" "[113]"] by (simp add: moved_def)

end
