(* ===== verification/Program.thy ===== *)
theory Program
  imports Ui PollLoop
begin

text \<open>
  \<^verbatim>\<open>main\<close> and \<^verbatim>\<open>run_server_thread\<close> of \<^verbatim>\<open>src/main-chat-server.c\<close>: the options, the paths, the menu and the server it starts.
  The input of a run is the list of the keys that are pressed and, for each start of the server, what the operating system does
  during that run (\<open>run_input\<close>). While the server thread works, \<^verbatim>\<open>main\<close> only waits for the key \<^verbatim>\<open>q\<close>, so that the thread has its
  state to itself; clearing \<^verbatim>\<open>server_running\<close> ends the rounds. The program is \<open>Waiting\<close> when it asks for input beyond the end of
  the lists.
\<close>

section \<open>Operations\<close>

record run_input =
  rn_net :: net
  rn_junk :: "pollfd list"
  rn_rounds :: "round list"

record 'w ui =
  ui_server :: "'w server"
  ui_running :: bool
  ui_opts :: options
  ui_paths :: "bytes list"
  ui_out :: "draw list"

definition run_server_thread ::
  "(8 word list \<Rightarrow> string) \<Rightarrow> 'w env \<Rightarrow> run_input \<Rightarrow> 'w server \<Rightarrow> ('w server \<times> draw list) result"
where
  "run_server_thread ntop6 E x s =
     bindR (run_server ntop6 E (rn_net x) (rn_junk x) (rn_rounds x) s) (\<lambda>(r, s).
       Inr (s, Clear # (if r = 0 then [Clear] else [Printw (''Please press 'q' to go back to the menu'' @ nl)])))"

text \<open>The loop that waits for the key \<^verbatim>\<open>q\<close>.\<close>

fun wait_q :: "int list \<Rightarrow> int list option" where
  "wait_q [] = None"
| "wait_q (ch # keys) = (if ch = 113 then Some keys else wait_q keys)"

text \<open>The first case of the menu. \<^verbatim>\<open>run_server\<close> stores the descriptor of its socket in the options, and \<^verbatim>\<open>main\<close> closes it once more
  after the thread has.\<close>

definition start_server ::
  "(8 word list \<Rightarrow> string) \<Rightarrow> 'w env \<Rightarrow> run_input \<Rightarrow> 'w ui \<Rightarrow> int list \<Rightarrow> ('w ui \<times> int list) option result"
where
  "start_server ntop6 E x ui keys =
     (let ui = ui\<lparr>ui_running := True, ui_opts := (ui_opts ui)\<lparr>op_server_sock := nt_socket (rn_net x)\<rparr>\<rparr>
      in bindR (run_server_thread ntop6 E x (ui_server ui)) (\<lambda>(s, ds).
           Inr (map_option (\<lambda>keys.
             (ui\<lparr>ui_running := False, ui_server := sys_close (op_server_sock (ui_opts ui)) s, ui_out := ui_out ui @ ds @ [Clear]\<rparr>, keys))
             (wait_q keys))))"

datatype 'w outcome = Waiting | Quit "'w ui" | Next "'w ui" "int list" "run_input list"

definition menu_case ::
  "(8 word list \<Rightarrow> string) \<Rightarrow> 'w env \<Rightarrow> int \<Rightarrow> 'w ui \<Rightarrow> int list \<Rightarrow> run_input list \<Rightarrow> 'w outcome result"
where
  "menu_case ntop6 E choice ui keys runs =
     (if choice = 1 then
        (if \<not> ui_running ui then
           (case runs of
              [] \<Rightarrow> Inr Waiting
            | x # runs \<Rightarrow> bindR (start_server ntop6 E x ui keys) (\<lambda>r. case r of
                None \<Rightarrow> Inr Waiting
              | Some (ui, keys) \<Rightarrow> Inr (Next ui keys runs)))
         else Inr (Next ui keys runs))
      else if choice = 2 then
        bindR (run_db_viewer_wrapper E (world (ui_server ui)) keys) (\<lambda>(r, w). case r of
            None \<Rightarrow> Inr Waiting
          | Some (keys, ds) \<Rightarrow> Inr (Next (ui\<lparr>ui_server := (ui_server ui)\<lparr>world := w\<rparr>, ui_out := ui_out ui @ ds\<rparr>) keys runs))
      else if choice = 3 then
        bindR (run_active_user_viewer (cache (ui_server ui)) keys) (\<lambda>r. case r of
            None \<Rightarrow> Inr Waiting
          | Some (keys, ds) \<Rightarrow> Inr (Next (ui\<lparr>ui_out := ui_out ui @ ds\<rparr>) keys runs))
      else if choice = 4 then Inr (Quit ui)
      else Inr (Next ui keys runs))"

definition menu_step ::
  "(8 word list \<Rightarrow> string) \<Rightarrow> 'w env \<Rightarrow> int \<Rightarrow> 'w ui \<Rightarrow> int list \<Rightarrow> run_input list \<Rightarrow> 'w outcome result"
where
  "menu_step ntop6 E startx ui keys runs =
     bindR (print_db_paths (ui_paths ui) 2) (\<lambda>db.
       case navigate_menu keys of
         None \<Rightarrow> Inr Waiting
       | Some (choice, keys, ds) \<Rightarrow> menu_case ntop6 E choice (ui\<lparr>ui_out := ui_out ui @ print_title startx @ db @ ds\<rparr>) keys runs)"

lemma wait_q_less: "wait_q keys = Some keys' \<Longrightarrow> length keys' < length keys"
  by (induction keys) (auto split: if_splits)

lemma getch_less: "getch keys = Some (k, keys') \<Longrightarrow> length keys' < length keys"
  by (cases keys) auto

lemma menu_case_le: "menu_case ntop6 E choice ui keys runs = Inr (Next ui' keys' runs') \<Longrightarrow> length keys' \<le> length keys"
  by (auto simp: menu_case_def start_server_def run_db_viewer_wrapper_def run_active_user_viewer_def bindR_eq_Inr Let_def
      split: if_splits list.splits option.splits dest!: wait_q_less getch_less)

lemma menu_step_less: "menu_step ntop6 E startx ui keys runs = Inr (Next ui' keys' runs') \<Longrightarrow> length keys' < length keys"
proof -
  assume m: "menu_step ntop6 E startx ui keys runs = Inr (Next ui' keys' runs')"
  then obtain choice ks ds ui1 where "navigate_loop 1 keys [] = Some (choice, ks, ds)"
    "menu_case ntop6 E choice ui1 ks runs = Inr (Next ui' keys' runs')"
    by (cases "navigate_menu keys") (auto simp: menu_step_def navigate_menu_def bindR_eq_Inr)
  from navigate_loop_less [OF this(1)] menu_case_le [OF this(2)] show ?thesis by simp
qed

function menu_loop ::
  "(8 word list \<Rightarrow> string) \<Rightarrow> 'w env \<Rightarrow> int \<Rightarrow> 'w ui \<Rightarrow> int list \<Rightarrow> run_input list \<Rightarrow> 'w ui option result"
where
  "menu_loop ntop6 E startx ui keys runs =
     (case menu_step ntop6 E startx ui keys runs of
        Inl e \<Rightarrow> Inl e
      | Inr Waiting \<Rightarrow> Inr None
      | Inr (Quit ui) \<Rightarrow> Inr (Some ui)
      | Inr (Next ui keys runs) \<Rightarrow> menu_loop ntop6 E startx ui keys runs)"
  by pat_completeness auto
termination
  by (relation "measure (\<lambda>(ntop6, E, startx, ui, keys, runs). length keys)") (auto dest: menu_step_less)

declare menu_loop.simps [simp del]

text \<open>\<open>fp\<close> is the descriptor of the error log, which is closed at the end.\<close>

definition main_program ::
  "(8 word list \<Rightarrow> string) \<Rightarrow> 'w env \<Rightarrow> string list \<Rightarrow> string option \<Rightarrow> int \<Rightarrow> int \<Rightarrow> 'w server \<Rightarrow> int list \<Rightarrow> run_input list \<Rightarrow>
    (int \<times> 'w ui) option result"
where
  "main_program ntop6 E argv home COLS fp s keys runs =
     bindR (parse_arguments argv options_init) (\<lambda>(r, opts).
       if r = EXIT_FAILURE then Inl (Exited 1)
       else bindR (setup_db_paths home) (\<lambda>(result, paths).
         if result \<noteq> EXIT_SUCCESS then Inl (Exited 1)
         else
           let startx = (COLS - int (length TITLE)) sdiv 2;
               s = s\<lparr>cache := replicate MAX_CLIENTS zero_user\<rparr>;
               ui = \<lparr>ui_server = s, ui_running = False, ui_opts = opts, ui_paths = paths, ui_out = [Clear]\<rparr>
           in if fp = -1 then Inl (Exited 1)
              else bindR (menu_loop ntop6 E startx ui keys runs) (\<lambda>r.
                Inr (map_option (\<lambda>ui. (0, ui\<lparr>ui_server := sys_close fp (ui_server ui)\<rparr>)) r))))"

section \<open>Lemmas\<close>

text \<open>A run of the server is in order in a state if its rounds have admissible requests there; a session is in order if every
  run is, in the state in which it starts.\<close>

definition run_ok :: "(8 word list \<Rightarrow> string) \<Rightarrow> 'w env \<Rightarrow> 'w tables \<Rightarrow> run_input \<Rightarrow> 'w server \<Rightarrow> bool" where
  "run_ok ntop6 E tab x s \<longleftrightarrow> length (rn_junk x) = MAX_CLIENTS \<and>
     (\<forall>w. init_databases E (world s) = Inr w \<longrightarrow>
       rounds_ok ntop6 E tab (start_state (rn_junk x) (nt_socket (rn_net x)) (s\<lparr>world := w\<rparr>)) (rn_rounds x))"

function session_ok ::
  "(8 word list \<Rightarrow> string) \<Rightarrow> 'w env \<Rightarrow> 'w tables \<Rightarrow> int \<Rightarrow> 'w ui \<Rightarrow> int list \<Rightarrow> run_input list \<Rightarrow> bool"
where
  "session_ok ntop6 E tab startx ui keys runs \<longleftrightarrow>
     (\<forall>keys' ds x runs'. navigate_menu keys = Some (1, keys', ds) \<and> runs = x # runs' \<longrightarrow> run_ok ntop6 E tab x (ui_server ui)) \<and>
     (\<forall>ui' keys' runs'. menu_step ntop6 E startx ui keys runs = Inr (Next ui' keys' runs') \<longrightarrow>
       session_ok ntop6 E tab startx ui' keys' runs')"
  by pat_completeness auto
termination
  by (relation "measure (\<lambda>(ntop6, E, tab, startx, ui, keys, runs). length keys)") (auto dest: menu_step_less)

declare session_ok.simps [simp del]

definition ui_ok :: "'w env \<Rightarrow> 'w tables \<Rightarrow> 'w handles \<Rightarrow> 'w ui \<Rightarrow> bool" where
  "ui_ok E tab opn ui \<longleftrightarrow> in_service E tab opn (ui_server ui) \<and> \<not> ui_running ui \<and> list_all terminated (ui_paths ui)"

lemma print_paths_ok: "list_all terminated paths \<Longrightarrow> \<exists>ds. print_paths y x (zip labels paths) = Inr ds"
proof (induction paths arbitrary: y labels)
  case (Cons p paths)
  show ?case
  proof (cases labels)
    case L: (Cons l ls)
    from Cons.IH obtain ds where "print_paths (y + 1) x (zip ls paths) = Inr ds" using Cons.prems by fastforce
    with L Cons.prems show ?thesis by (simp add: clib)
  qed simp
qed simp

lemma bindR_ok: "\<exists>a. m = Inr a \<Longrightarrow> \<exists>b. bindR m (\<lambda>a. Inr (f a)) = Inr b"
  by auto

lemma print_db_paths_ok: "list_all terminated paths \<Longrightarrow> \<exists>ds. print_db_paths paths x = Inr ds"
  unfolding print_db_paths_def Let_def by (rule bindR_ok, rule print_paths_ok)

lemma viewer_ok:
  assumes "in_service E tab opn s"
  shows "\<exists>out w. run_db_viewer E (world s) = Inr (out, w) \<and> in_service E tab opn (s\<lparr>world := w\<rparr>)"
proof -
  note D = serviceableD [OF assms [unfolded in_service_def]]
  have "\<forall>k. name_view (tab (world s)) k \<noteq> None \<longrightarrow> terminated k" using D(4) by (simp add: people_ok_def)
  from db_viewer_shows [OF D(1,3) this] obtain out w where "run_db_viewer E (world s) = Inr (out, w)" "dbs E tab opn w (tab (world s))" by blast
  moreover have "tab w = tab (world s)" by (rule dbsD(3)) fact
  ultimately show ?thesis using D by (simp add: in_service_def serviceable_def)
qed

lemma thread_ok:
  assumes "reopen_law E tab opn" "in_service E tab opn s" "run_ok ntop6 E tab x s"
  shows "\<exists>s' ds. run_server_thread ntop6 E x s = Inr (s', ds) \<and> in_service E tab opn s'"
proof -
  obtain r s' where r: "run_server ntop6 E (rn_net x) (rn_junk x) (rn_rounds x) s = Inr (r, s')" "in_service E tab opn s'"
    using run_server_in_service [OF assms(2,1)] assms(3) unfolding run_ok_def by blast
  then show ?thesis by (simp add: run_server_thread_def)
qed

fun outcome_ok :: "'w env \<Rightarrow> 'w tables \<Rightarrow> 'w handles \<Rightarrow> 'w outcome \<Rightarrow> bool" where
  "outcome_ok E tab opn Waiting \<longleftrightarrow> True"
| "outcome_ok E tab opn (Quit ui) \<longleftrightarrow> ui_ok E tab opn ui"
| "outcome_ok E tab opn (Next ui keys runs) \<longleftrightarrow> ui_ok E tab opn ui"

lemma start_server_ok:
  assumes "reopen_law E tab opn" "ui_ok E tab opn ui" "run_ok ntop6 E tab x (ui_server ui)"
  shows "\<exists>ui'. ui_ok E tab opn ui' \<and> (\<forall>keys. start_server ntop6 E x ui keys = Inr (map_option (\<lambda>keys. (ui', keys)) (wait_q keys)))"
proof -
  from thread_ok [OF assms(1) _ assms(3)] assms(2) obtain s' ds where
    "run_server_thread ntop6 E x (ui_server ui) = Inr (s', ds)" "in_service E tab opn s'" by (auto simp: ui_ok_def)
  with assms(2) show ?thesis
    by (intro exI [of _ "ui\<lparr>ui_opts := (ui_opts ui)\<lparr>op_server_sock := nt_socket (rn_net x)\<rparr>, ui_running := False,
        ui_server := sys_close (nt_socket (rn_net x)) s', ui_out := ui_out ui @ ds @ [Clear]\<rparr>"])
      (simp add: start_server_def Let_def ui_ok_def)
qed

lemma active_viewer_ok:
  assumes "in_service E tab opn s"
  shows "\<exists>out. view_active_users (cache s) = Inr out"
  using view_active_users_spec [OF serviceableD(2) [OF assms [unfolded in_service_def]]] by blast

lemma menu_case_ok:
  assumes R: "reopen_law E tab opn" and U: "ui_ok E tab opn ui"
    and X: "\<And>x rs. choice = 1 \<Longrightarrow> runs = x # rs \<Longrightarrow> run_ok ntop6 E tab x (ui_server ui)"
  shows "\<exists>r. menu_case ntop6 E choice ui keys runs = Inr r \<and> outcome_ok E tab opn r"
proof -
  consider (start) x rs where "choice = 1" "runs = x # rs" | (view) "choice = 2" | (users) "choice = 3"
    | (other) "choice \<notin> {2, 3}" "choice = 1 \<Longrightarrow> runs = []" by (cases runs) auto
  then show ?thesis
  proof cases
    case start
    then show ?thesis
      using start_server_ok [OF R U X [OF start]] U by (auto simp: menu_case_def ui_ok_def split: option.splits)
  next
    case view
    then show ?thesis
      using viewer_ok [of E tab opn "ui_server ui"] U
      by (auto simp: menu_case_def run_db_viewer_wrapper_def ui_ok_def split: option.splits)
  next
    case users
    then show ?thesis
      using active_viewer_ok [of E tab opn "ui_server ui"] U
      by (auto simp: menu_case_def run_active_user_viewer_def ui_ok_def split: option.splits)
  next
    case other
    then show ?thesis using U by (auto simp: menu_case_def ui_ok_def)
  qed
qed

text \<open>More input does not change a step that was not waiting.\<close>

fun extend :: "int list \<Rightarrow> run_input list \<Rightarrow> 'w outcome \<Rightarrow> 'w outcome" where
  "extend e z Waiting = Waiting"
| "extend e z (Quit ui) = Quit ui"
| "extend e z (Next ui keys runs) = Next ui (keys @ e) (runs @ z)"

lemma navigate_append: "navigate_loop c keys out = Some (c', rest, ds) \<Longrightarrow> navigate_loop c (keys @ e) out = Some (c', rest @ e, ds)"
  by (induction keys arbitrary: c out) (auto simp: Let_def split: if_splits)

lemma wait_q_append: "wait_q keys = Some rest \<Longrightarrow> wait_q (keys @ e) = Some (rest @ e)" "wait_q keys = None \<Longrightarrow> wait_q (keys @ 113 # e) = Some e"
  by (induction keys) (auto split: if_splits)

lemma start_server_append:
  "start_server ntop6 E x ui keys = Inr (Some (ui', rest)) \<Longrightarrow> start_server ntop6 E x ui (keys @ e) = Inr (Some (ui', rest @ e))"
  by (cases "run_server_thread ntop6 E x (ui_server ui)"; cases "wait_q keys") (auto simp: start_server_def Let_def wait_q_append(1))

lemma viewers_append:
  "run_db_viewer_wrapper E w keys = Inr (Some (rest, ds), w') \<Longrightarrow> run_db_viewer_wrapper E w (keys @ e) = Inr (Some (rest @ e, ds), w')"
  "run_active_user_viewer us keys = Inr (Some (rest, ds)) \<Longrightarrow> run_active_user_viewer us (keys @ e) = Inr (Some (rest @ e, ds))"
  by (cases "run_db_viewer E w"; cases keys; auto simp: run_db_viewer_wrapper_def)
    (cases "view_active_users us"; cases keys; auto simp: run_active_user_viewer_def)

lemma menu_case_append:
  assumes "menu_case ntop6 E choice ui keys runs = Inr r" "r \<noteq> Waiting"
  shows "menu_case ntop6 E choice ui (keys @ e) (runs @ z) = Inr (extend e z r)"
proof -
  have "\<exists>x rs. runs = x # rs" if "choice = 1" "\<not> ui_running ui" using assms that by (cases runs) (auto simp: menu_case_def)
  then consider (start) x rs where "choice = 1" "runs = x # rs" "\<not> ui_running ui" | (view) "choice = 2" | (users) "choice = 3"
    | (other) "choice \<notin> {2, 3}" "choice = 1 \<Longrightarrow> ui_running ui" by blast
  then show ?thesis
  proof cases
    case start
    with assms obtain ui' rest where f: "start_server ntop6 E x ui keys = Inr (Some (ui', rest))" "r = Next ui' rest rs"
      by (auto simp: menu_case_def bindR_eq_Inr split: option.splits)
    show ?thesis using start start_server_append [OF f(1), of e] f(2) by (simp add: menu_case_def)
  next
    case view
    with assms obtain rest ds w where f: "run_db_viewer_wrapper E (world (ui_server ui)) keys = Inr (Some (rest, ds), w)"
      "r = Next (ui\<lparr>ui_server := (ui_server ui)\<lparr>world := w\<rparr>, ui_out := ui_out ui @ ds\<rparr>) rest runs"
      by (auto simp: menu_case_def bindR_eq_Inr split: option.splits)
    show ?thesis using view viewers_append(1) [OF f(1), of e] f(2) by (simp add: menu_case_def)
  next
    case users
    with assms obtain rest ds where f: "run_active_user_viewer (cache (ui_server ui)) keys = Inr (Some (rest, ds))"
      "r = Next (ui\<lparr>ui_out := ui_out ui @ ds\<rparr>) rest runs"
      by (auto simp: menu_case_def bindR_eq_Inr split: option.splits)
    show ?thesis using users viewers_append(2) [OF f(1), of e] f(2) by (simp add: menu_case_def)
  next
    case other
    then show ?thesis using assms by (cases "choice = 1") (auto simp: menu_case_def)
  qed
qed

lemma menu_step_append:
  assumes "menu_step ntop6 E startx ui keys runs = Inr r" "r \<noteq> Waiting"
  shows "menu_step ntop6 E startx ui (keys @ e) (runs @ z) = Inr (extend e z r)"
proof -
  from assms obtain db c ks ds where d: "print_db_paths (ui_paths ui) 2 = Inr db" "navigate_menu keys = Some (c, ks, ds)"
    "menu_case ntop6 E c (ui\<lparr>ui_out := ui_out ui @ print_title startx @ db @ ds\<rparr>) ks runs = Inr r"
    by (auto simp: menu_step_def bindR_eq_Inr split: option.splits)
  have "navigate_menu (keys @ e) = Some (c, ks @ e, ds)" using d(2) unfolding navigate_menu_def by (rule navigate_append)
  with d(1) menu_case_append [OF d(3) assms(2)] show ?thesis by (simp add: menu_step_def)
qed

text \<open>Whatever the user has pressed so far, the program can be left.\<close>

lemma moved_append: "moved c (xs @ ys) = moved (moved c xs) ys"
proof -
  let ?d = "\<lambda>zs. int (count_list zs KEY_DOWN) - int (count_list zs KEY_UP)"
  have "(c - 1 + ?d xs + ?d ys) mod 4 = ((c - 1 + ?d xs) mod 4 + ?d ys) mod 4" by (simp add: mod_simps)
  then show ?thesis by (simp add: moved_def count_list_append algebra_simps)
qed

lemma quit_keys:
  assumes "KEY_RETURN \<notin> set keys"
  shows "\<exists>e ds. navigate_menu (keys @ e) = Some (4, [], ds)"
proof -
  have "\<exists>ys. KEY_RETURN \<notin> set ys \<and> moved c ys = 4" if "1 \<le> c" "c \<le> 4" for c
  proof -
    from that consider "c = 1" | "c = 2" | "c = 3" | "c = 4" by linarith
    then show ?thesis
      by cases (rule exI [of _ "[KEY_UP]"] exI [of _ "[KEY_DOWN, KEY_DOWN]"] exI [of _ "[KEY_DOWN]"] exI [of _ "[]"], simp add: moved_def)+
  qed
  then obtain ys where "KEY_RETURN \<notin> set ys" "moved 1 (keys @ ys) = 4" using moved_range [of 1 keys] moved_append by metis
  with navigate_loop_spec [of 1 "keys @ ys" "[]" "[]"] assms show ?thesis
    by (intro exI [of _ "ys @ [KEY_RETURN]"]) (simp add: navigate_menu_def)
qed

lemma menu_step_runs:
  assumes "menu_step ntop6 E startx ui keys runs = Inr (Next ui' keys' runs')"
  shows "runs' = runs \<or> runs' = tl runs \<and> (\<exists>ks ds. navigate_menu keys = Some (1, ks, ds))"
proof -
  have "runs' = runs \<or> runs' = tl runs \<and> c = 1" if "menu_case ntop6 E c ui keys runs = Inr (Next ui' keys' runs')" for c ui keys and ui' :: "'a ui" and keys'
    using that by (auto simp: menu_case_def bindR_eq_Inr split: if_splits option.splits list.splits)
  with assms show ?thesis by (fastforce simp: menu_step_def bindR_eq_Inr split: option.splits)
qed

lemma session_ok_trivial:
  "session_ok ntop6 E tab startx ui keys []" "session_ok ntop6 E tab startx ui [] runs"
proof -
  have "runs' = []" if "menu_step ntop6 E startx ui keys [] = Inr (Next ui' keys' runs')" for ui keys and ui' :: "'a ui" and keys' runs'
    using menu_step_runs [OF that] by auto
  then show "session_ok ntop6 E tab startx ui keys []"
    by (induction "length keys" arbitrary: ui keys rule: less_induct) (subst session_ok.simps, use menu_step_less in blast)
  show "session_ok ntop6 E tab startx ui [] runs"
    by (subst session_ok.simps) (auto simp: menu_step_def navigate_menu_def bindR_eq_Inr)
qed

text \<open>A run in which the socket cannot be opened.\<close>

definition no_socket :: run_input where
  "no_socket = \<lparr>rn_net = \<lparr>nt_socket = -1, nt_setsockopt = 0, nt_bind = 0, nt_listen = 0\<rparr>, rn_junk = replicate MAX_CLIENTS
     \<lparr>pf_fd = 0, pf_events = 0, pf_revents = 0\<rparr>, rn_rounds = []\<rparr>"

lemma menu_case_waiting:
  assumes R: "reopen_law E tab opn" and U: "ui_ok E tab opn ui"
    and X: "\<And>x rs. choice = 1 \<Longrightarrow> runs = x # rs \<Longrightarrow> run_ok ntop6 E tab x (ui_server ui)"
    and W: "menu_case ntop6 E choice ui keys runs = Inr Waiting"
  shows "\<exists>e0 z0 ui' keys' runs'. (\<forall>e z. menu_case ntop6 E choice ui (keys @ e0 @ e) (runs @ z0 @ z) = Inr (Next ui' (keys' @ e) (runs' @ z))) \<and>
    ui_ok E tab opn ui' \<and> session_ok ntop6 E tab startx ui' keys' runs' \<and> length keys' \<le> length keys"
proof -
  have n: "\<not> ui_running ui" using U by (simp add: ui_ok_def)
  have "choice = 1 \<or> choice = 2 \<or> choice = 3" using W by (auto simp: menu_case_def split: if_splits)
  then consider (none) "choice = 1" "runs = []" | (start) x rs where "choice = 1" "runs = x # rs" | (view) "choice = 2" | (users) "choice = 3"
    by (cases runs) auto
  then show ?thesis
  proof cases
    case none
    have "run_ok ntop6 E tab no_socket (ui_server ui)" by (simp add: run_ok_def no_socket_def)
    from start_server_ok [OF R U this] obtain ui' where u: "ui_ok E tab opn ui'"
      "\<And>keys. start_server ntop6 E no_socket ui keys = Inr (map_option (\<lambda>keys. (ui', keys)) (wait_q keys))" by blast
    show ?thesis
    proof (cases "wait_q keys")
      case None
      with u none n show ?thesis
        by (intro exI [of _ "[113]"] exI [of _ "[no_socket]"] exI [of _ ui'] exI [of _ "[]"])
          (simp add: menu_case_def session_ok_trivial wait_q_append(2))
    next
      case (Some ks)
      with u none n wait_q_less [OF Some] show ?thesis
        by (intro exI [of _ "[]"] exI [of _ "[no_socket]"] exI [of _ ui'] exI [of _ ks])
          (simp add: menu_case_def session_ok_trivial wait_q_append(1))
    qed
  next
    case start
    from start_server_ok [OF R U X [OF start]] obtain ui' where u: "ui_ok E tab opn ui'"
      "\<And>keys. start_server ntop6 E x ui keys = Inr (map_option (\<lambda>keys. (ui', keys)) (wait_q keys))" by blast
    with W start n have "wait_q keys = None" by (auto simp: menu_case_def split: option.splits)
    with u start n show ?thesis
      by (intro exI [of _ "[113]"] exI [of _ "[]"] exI [of _ ui'] exI [of _ "[]"] exI [of _ rs])
        (simp add: menu_case_def session_ok_trivial wait_q_append(2))
  next
    case view
    from viewer_ok [of E tab opn "ui_server ui"] U obtain out w where
      w: "run_db_viewer E (world (ui_server ui)) = Inr (out, w)" "in_service E tab opn ((ui_server ui)\<lparr>world := w\<rparr>)" by (auto simp: ui_ok_def)
    with W view have "keys = []" by (cases keys) (simp_all add: menu_case_def run_db_viewer_wrapper_def)
    with w view U show ?thesis
      by (intro exI [of _ "[0]"] exI [of _ "[]"] exI [of _ "ui\<lparr>ui_server := (ui_server ui)\<lparr>world := w\<rparr>,
          ui_out := ui_out ui @ [Clear, Printw (''Database contents:'' @ nl), Printw out, Clear]\<rparr>"] exI [of _ "[]"] exI [of _ runs])
        (simp add: menu_case_def run_db_viewer_wrapper_def session_ok_trivial ui_ok_def)
  next
    case users
    from active_viewer_ok [of E tab opn "ui_server ui"] U obtain out where
      w: "view_active_users (cache (ui_server ui)) = Inr out" by (auto simp: ui_ok_def)
    with W users have "keys = []" by (cases keys) (simp_all add: menu_case_def run_active_user_viewer_def)
    with w users U show ?thesis
      by (intro exI [of _ "[0]"] exI [of _ "[]"] exI [of _ "ui\<lparr>ui_out := ui_out ui @ [Clear, Printw out, Clear]\<rparr>"] exI [of _ "[]"] exI [of _ runs])
        (simp add: menu_case_def run_active_user_viewer_def session_ok_trivial ui_ok_def)
  qed
qed

lemma session_step:
  assumes R: "reopen_law E tab opn" and U: "ui_ok E tab opn ui" and S: "session_ok ntop6 E tab startx ui keys runs"
  shows "\<exists>r. menu_step ntop6 E startx ui keys runs = Inr r \<and> outcome_ok E tab opn r"
    "menu_step ntop6 E startx ui keys runs = Inr Waiting \<Longrightarrow> \<exists>e0 z0 r. r \<noteq> Waiting \<and> outcome_ok E tab opn r \<and>
      (\<forall>e z. menu_step ntop6 E startx ui (keys @ e0 @ e) (runs @ z0 @ z) = Inr (extend e z r)) \<and>
      (\<forall>ui' keys' runs'. r = Next ui' keys' runs' \<longrightarrow> session_ok ntop6 E tab startx ui' keys' runs' \<and> length keys' < length keys)"
proof -
  obtain db where db: "print_db_paths (ui_paths ui) 2 = Inr db" using print_db_paths_ok U by (auto simp: ui_ok_def)
  let ?ui = "\<lambda>ds. ui\<lparr>ui_out := ui_out ui @ print_title startx @ db @ ds\<rparr>"
  have u: "ui_ok E tab opn (?ui ds)" for ds using U by (simp add: ui_ok_def)
  have x: "run_ok ntop6 E tab x (ui_server (?ui ds))" if "navigate_menu keys = Some (c, ks, ds)" "c = 1" "runs = x # rs" for x rs c ks ds
    using S that by (subst (asm) session_ok.simps) auto
  show "\<exists>r. menu_step ntop6 E startx ui keys runs = Inr r \<and> outcome_ok E tab opn r"
  proof (cases "navigate_menu keys")
    case None
    with db show ?thesis by (simp add: menu_step_def)
  next
    case (Some n)
    then obtain c ks ds where n: "navigate_menu keys = Some (c, ks, ds)" by (cases n) auto
    have "\<exists>r. menu_case ntop6 E c (?ui ds) ks runs = Inr r \<and> outcome_ok E tab opn r" by (rule menu_case_ok [OF R u x [OF n]])
    with n db show ?thesis by (simp add: menu_step_def)
  qed
  assume w: "menu_step ntop6 E startx ui keys runs = Inr Waiting"
  show "\<exists>e0 z0 r. r \<noteq> Waiting \<and> outcome_ok E tab opn r \<and>
      (\<forall>e z. menu_step ntop6 E startx ui (keys @ e0 @ e) (runs @ z0 @ z) = Inr (extend e z r)) \<and>
      (\<forall>ui' keys' runs'. r = Next ui' keys' runs' \<longrightarrow> session_ok ntop6 E tab startx ui' keys' runs' \<and> length keys' < length keys)"
  proof (cases "navigate_menu keys")
    case None
    then have "KEY_RETURN \<notin> set keys" using navigate_menu_waits by blast
    from quit_keys [OF this] obtain e0 ds where e0: "navigate_menu (keys @ e0) = Some (4, [], ds)" by blast
    then have "navigate_menu (keys @ e0 @ e) = Some (4, e, ds)" for e
      using navigate_append [of 1 "keys @ e0" "[]" 4 "[]" ds e] by (simp add: navigate_menu_def)
    with db u show ?thesis by (intro exI [of _ e0] exI [of _ "[]"] exI [of _ "Quit (?ui ds)"]) (simp add: menu_step_def menu_case_def)
  next
    case (Some n)
    then obtain c ks ds where n: "navigate_menu keys = Some (c, ks, ds)" by (cases n) auto
    with w db have q: "menu_case ntop6 E c (?ui ds) ks runs = Inr Waiting" by (simp add: menu_step_def)
    have "\<exists>e0 z0 ui' keys' runs'. (\<forall>e z. menu_case ntop6 E c (?ui ds) (ks @ e0 @ e) (runs @ z0 @ z) = Inr (Next ui' (keys' @ e) (runs' @ z))) \<and>
        ui_ok E tab opn ui' \<and> session_ok ntop6 E tab startx ui' keys' runs' \<and> length keys' \<le> length ks"
      by (rule menu_case_waiting [OF R u _ q]) (use x [OF n] in blast)
    then obtain e0 z0 ui' keys' runs' where
      m: "\<And>e z. menu_case ntop6 E c (?ui ds) (ks @ e0 @ e) (runs @ z0 @ z) = Inr (Next ui' (keys' @ e) (runs' @ z))"
      "ui_ok E tab opn ui'" "session_ok ntop6 E tab startx ui' keys' runs'" "length keys' \<le> length ks" by blast
    have "navigate_menu (keys @ e) = Some (c, ks @ e, ds)" for e using n navigate_append unfolding navigate_menu_def by blast
    moreover have "length ks < length keys" using n navigate_loop_less unfolding navigate_menu_def by blast
    ultimately show ?thesis using m db
      by (intro exI [of _ e0] exI [of _ z0] exI [of _ "Next ui' keys' runs'"]) (simp add: menu_step_def)
  qed
qed

lemma session_can_end:
  assumes "reopen_law E tab opn" "ui_ok E tab opn ui" "session_ok ntop6 E tab startx ui keys runs"
  shows "\<exists>e z ui'. menu_loop ntop6 E startx ui (keys @ e) (runs @ z) = Inr (Some ui') \<and> ui_ok E tab opn ui'"
  using assms(2,3)
proof (induction "length keys" arbitrary: ui keys runs rule: less_induct)
  case less
  have "\<exists>e0 z0 r. r \<noteq> Waiting \<and> outcome_ok E tab opn r \<and>
      (\<forall>e z. menu_step ntop6 E startx ui (keys @ e0 @ e) (runs @ z0 @ z) = Inr (extend e z r)) \<and>
      (\<forall>ui' keys' runs'. r = Next ui' keys' runs' \<longrightarrow> session_ok ntop6 E tab startx ui' keys' runs' \<and> length keys' < length keys)"
  proof (cases "menu_step ntop6 E startx ui keys runs = Inr Waiting")
    case True
    then show ?thesis by (rule session_step(2) [OF assms(1) less.prems])
  next
    case False
    with session_step(1) [OF assms(1) less.prems] obtain r where
      r: "menu_step ntop6 E startx ui keys runs = Inr r" "outcome_ok E tab opn r" "r \<noteq> Waiting" by blast
    moreover have "session_ok ntop6 E tab startx ui' keys' runs' \<and> length keys' < length keys" if "r = Next ui' keys' runs'" for ui' keys' runs'
      using less.prems(2) r(1) that menu_step_less by (subst (asm) session_ok.simps) blast
    ultimately show ?thesis using menu_step_append [OF r(1,3)]
      by (intro exI [of _ "[]"] exI [of _ "[]"] exI [of _ r]) simp
  qed
  then obtain e0 z0 r where r: "r \<noteq> Waiting" "outcome_ok E tab opn r"
    "\<And>e z. menu_step ntop6 E startx ui (keys @ e0 @ e) (runs @ z0 @ z) = Inr (extend e z r)"
    "\<And>ui' keys' runs'. r = Next ui' keys' runs' \<Longrightarrow> session_ok ntop6 E tab startx ui' keys' runs' \<and> length keys' < length keys" by blast
  show ?case
  proof (cases r)
    case (Quit ui')
    with r(2) r(3) [of "[]" "[]"] show ?thesis
      by (intro exI [of _ e0] exI [of _ z0] exI [of _ ui']) (simp add: menu_loop.simps [of _ _ _ _ "keys @ e0"])
  next
    case (Next ui' keys' runs')
    with r(2,4) less.hyps [of keys' ui' runs'] obtain e z ui'' where
      "menu_loop ntop6 E startx ui' (keys' @ e) (runs' @ z) = Inr (Some ui'')" "ui_ok E tab opn ui''" by auto
    with r(3) [of e z] Next show ?thesis
      by (intro exI [of _ "e0 @ e"] exI [of _ "z0 @ z"] exI [of _ ui'']) (simp add: menu_loop.simps [of _ _ _ _ "keys @ e0 @ e"])
  qed (use r(1) in simp)
qed

lemma session_serves:
  assumes "reopen_law E tab opn" "ui_ok E tab opn ui" "session_ok ntop6 E tab startx ui keys runs"
  shows "\<exists>r. menu_loop ntop6 E startx ui keys runs = Inr r \<and> (\<forall>ui'. r = Some ui' \<longrightarrow> ui_ok E tab opn ui')"
  using assms(2,3)
proof (induction "length keys" arbitrary: ui keys runs rule: less_induct)
  case less
  from session_step(1) [OF assms(1) less.prems] obtain r where r: "menu_step ntop6 E startx ui keys runs = Inr r" "outcome_ok E tab opn r" by blast
  show ?case
  proof (cases r)
    case (Next ui' keys' runs')
    then have "session_ok ntop6 E tab startx ui' keys' runs'" "length keys' < length keys"
      using less.prems(2) r(1) menu_step_less by (subst (asm) session_ok.simps, blast)+
    from less.hyps [OF this(2) _ this(1)] r Next show ?thesis by (simp add: menu_loop.simps [of _ _ _ ui])
  qed (use r in \<open>simp_all add: menu_loop.simps [of _ _ _ ui]\<close>)
qed

section \<open>Properties\<close>

text \<open>The state in which the menu starts.\<close>

definition start_ui :: "options \<Rightarrow> string \<Rightarrow> 'w server \<Rightarrow> 'w ui" where
  "start_ui opts home s = \<lparr>ui_server = s\<lparr>cache := empty_cache\<rparr>, ui_running = False, ui_opts = opts,
     ui_paths = map (\<lambda>n. nul_pad PATH_MAX (home @ ''/'' @ n)) db_names, ui_out = [Clear]\<rparr>"

lemma main_program_starts:
  assumes "parse_arguments argv options_init = Inr (EXIT_SUCCESS, opts)" "NUL \<notin> set home" "length home + 18 < PATH_MAX" "fp \<noteq> -1"
  shows "main_program ntop6 E argv (Some home) COLS fp s keys runs =
    bindR (menu_loop ntop6 E ((COLS - 11) sdiv 2) (start_ui opts home s) keys runs) (\<lambda>r.
      Inr (map_option (\<lambda>ui. (0, ui\<lparr>ui_server := sys_close fp (ui_server ui)\<rparr>)) r))"
proof -
  have "setup_db_paths (Some home) = Inr (EXIT_SUCCESS, map (\<lambda>n. nul_pad PATH_MAX (home @ ''/'' @ n)) db_names)"
    using setup_db_paths_spec [OF assms(2)] assms(3) by simp
  moreover have "int (length TITLE) = 11" by simp
  ultimately show ?thesis
    unfolding main_program_def assms(1) using assms(4) by (simp add: start_ui_def empty_cache_def Let_def)
qed

lemma start_ui_ok:
  assumes "dbs E tab opn (world s) t" "channels_terminated t" "people_ok (host_le E) t []" "NUL \<notin> set home" "length home + 18 < PATH_MAX"
  shows "ui_ok E tab opn (start_ui opts home s)"
proof -
  have "list_all terminated (map (\<lambda>n. nul_pad PATH_MAX (home @ ''/'' @ n)) db_names)"
    using assms(4,5) by (simp add: db_names_def)
  moreover have "tab (world s) = t" using dbsD(3) [OF assms(1)] .
  ultimately show ?thesis using assms(1-3) by (simp add: ui_ok_def start_ui_def in_service_def serviceable_def)
qed


definition demo_run :: run_input where
  "demo_run = \<lparr>rn_net = demo_net, rn_junk = demo_junk, rn_rounds = [demo_connect, demo_ask]\<rparr>"

lemma demo_session: "session_ok (\<lambda>_. []) mem_env mem_tab startx (start_ui opts home (state_with [] mem_empty)) (KEY_RETURN # keys) [demo_run]"
proof -
  have n: "navigate_menu (KEY_RETURN # keys) = Some (1, keys, print_menu 1)" by (simp add: navigate_menu_def)
  have "(state_with [] mem_empty)\<lparr>cache := empty_cache, world := w\<rparr> = state_with [] w" for w by (simp add: state_with_def)
  then have "run_ok (\<lambda>_. []) mem_env mem_tab demo_run (ui_server (start_ui opts home (state_with [] mem_empty)))"
    using demo_rounds_ok by (simp add: run_ok_def demo_run_def start_ui_def demo_junk_def del: rounds_ok.simps)
  moreover have "runs' = []" if "menu_step (\<lambda>_. []) mem_env startx (start_ui opts home (state_with [] mem_empty)) (KEY_RETURN # keys) [demo_run] =
      Inr (Next ui' keys' runs')" for ui' keys' runs'
  proof -
    have "start_ui opts home (state_with [] mem_empty :: mem_world server) = ui \<Longrightarrow> \<not> ui_running ui" for ui by (auto simp: start_ui_def)
    with that n show ?thesis by (auto simp: menu_step_def menu_case_def bindR_eq_Inr split: option.splits if_splits)
  qed
  ultimately show ?thesis by (subst session_ok.simps) (use session_ok_trivial(1) in auto)
qed


lemma sys_close_simps: "set (closed (sys_close fd s)) = insert fd (set (closed s))" "cache (sys_close fd s) = cache s"
  by (simp_all add: sys_close_def)

lemma closed_close_all: "set (closed (close_all pollfds sock s)) = {sock} \<union> (\<lambda>i. pf_fd (pollfds ! i)) ` {1..<MAX_CLIENTS} \<union> set (closed s)"
  "cache (close_all pollfds sock s) = cache s"
proof -
  have f: "set (closed (fold (\<lambda>i s. sys_close (pf_fd (pollfds ! i)) s) is s)) = (\<lambda>i. pf_fd (pollfds ! i)) ` set is \<union> set (closed s) \<and>
      cache (fold (\<lambda>i s. sys_close (pf_fd (pollfds ! i)) s) is s) = cache s" for "is" s
    by (induction "is" arbitrary: s) (auto simp: sys_close_simps)
  from f [of "[1..<MAX_CLIENTS]" s] show "set (closed (close_all pollfds sock s)) = {sock} \<union> (\<lambda>i. pf_fd (pollfds ! i)) ` {1..<MAX_CLIENTS} \<union> set (closed s)"
    "cache (close_all pollfds sock s) = cache s"
    unfolding close_all_def set_upt sys_close_simps by blast+
qed



end
