(* ===== verification/Client.thy ===== *)
theory Client
  imports Service Address
begin

text \<open>
  The mock client of \<^verbatim>\<open>mock_client/main.c\<close>: what it sends for each choice of its menu and how it reads the size of an
  answer. Its requests are related to \<^verbatim>\<open>read_header\<close> of the server. Half of them copy the header structure to the wire as it
  lies in memory, the others use the client's copy of \<^verbatim>\<open>create_response_header\<close>.
\<close>

unbundle bit_operations_syntax

section \<open>Operations\<close>

text \<open>\<^verbatim>\<open>memcpy(&temp_int, &test_header, sizeof(test_header))\<close> after \<^verbatim>\<open>htons\<close> of the size. The compilers of the platform
  place the first bit field of a byte at its low end on a little endian host and at its high end on a big endian one.\<close>

definition struct_header :: "bool \<Rightarrow> chat_header \<Rightarrow> bytes" where
  "struct_header le h =
     [byte_chr (if le then push_bit 4 (ucast (h_type h)) OR ucast (h_version h) else push_bit 4 (ucast (h_version h)) OR ucast (h_type h)),
      byte_chr (h_object h), byte_chr (ucast (drop_bit 8 (h_body_size h))), byte_chr (ucast (h_body_size h))]"

definition client_create_response_header :: "bool \<Rightarrow> chat_header \<Rightarrow> 32 word" where
  "client_create_response_header le header =
     (let version = push_bit 28 (ucast (h_version header)); type = push_bit 24 (ucast (h_type header));
          object = push_bit 16 (ucast (h_object header)); body_size = ucast (h_body_size header)
      in htonl le (version OR type OR object OR body_size))"

definition copied :: "bool \<Rightarrow> 4 word \<Rightarrow> 8 word \<Rightarrow> string \<Rightarrow> bytes \<times> bytes" where
  "copied le type object body =
     (struct_header le \<lparr>h_version = 1, h_type = type, h_object = object, h_body_size = word_of_nat (length body)\<rparr>, body)"

definition serialized :: "bool \<Rightarrow> 4 word \<Rightarrow> 8 word \<Rightarrow> string \<Rightarrow> bytes \<times> bytes" where
  "serialized le type object body =
     (mem32 le (client_create_response_header le
       \<lparr>h_version = 1, h_type = type, h_object = object, h_body_size = word_of_nat (length body)\<rparr>), body)"

text \<open>Header and body of the request of each choice. The lowest byte of the time is printed into a message.\<close>

definition mock_create_admin :: "bool \<Rightarrow> bytes \<times> bytes" where
  "mock_create_admin le = copied le 1 1 (msg ''GlobalAdmin'' @ msg ''admin'' @ ''admin'')"

definition mock_create_user :: "bool \<Rightarrow> bytes \<times> bytes" where
  "mock_create_user le = copied le 1 1 (msg ''bennychao'' @ msg ''benny'' @ ''monkey123'')"

definition mock_create_auth :: "bool \<Rightarrow> bytes \<times> bytes" where
  "mock_create_auth le = copied le 1 4 (msg ''bennychao'' @ msg ''monkey123'')"

definition mock_destroy_auth :: "bool \<Rightarrow> bytes \<times> bytes" where
  "mock_destroy_auth le = serialized le 4 4 (msg ''benny'')"

definition mock_destroy_auth_admin :: "bool \<Rightarrow> bytes \<times> bytes" where
  "mock_destroy_auth_admin le = copied le 4 4 ''bennychao''"

definition mock_create_channel :: "bool \<Rightarrow> bytes \<times> bytes" where
  "mock_create_channel le = copied le 1 2 (msg ''comp4981 channel'' @ msg ''benny'' @ show_int 0)"

definition mock_create_message :: "bool \<Rightarrow> 8 word \<Rightarrow> bytes \<times> bytes" where
  "mock_create_message le send_this = serialized le 1 3 (msg ''benny'' @ msg ''comp4981 channel'' @ msg ''new message'' @ show_nat (unat send_this))"

definition mock_destroy_user :: "bool \<Rightarrow> bytes \<times> bytes" where
  "mock_destroy_user le = serialized le 4 1 (msg ''benny'' @ msg ''bennychao'' @ ''monkey123'')"

definition mock_read_channel :: "bool \<Rightarrow> bytes \<times> bytes" where
  "mock_read_channel le = serialized le 2 2 (msg ''comp4981 channel'' @ msg ''1'' @ msg ''1'' @ msg ''0'')"

definition mock_update_channel :: "bool \<Rightarrow> bytes \<times> bytes" where
  "mock_update_channel le = serialized le 3 2 (msg ''comp4981 channel'' @ msg ''0'' @ msg ''0'' @ msg ''1'' @ msg ''1'' @ msg ''admin'' @ msg ''0'' @ msg ''0'')"

definition mock_read_message :: "bool \<Rightarrow> bytes \<times> bytes" where
  "mock_read_message le = serialized le 2 3 (msg ''comp4981 channel'' @ msg (show_int 10))"

definition mock_request :: "bool \<Rightarrow> 8 word \<Rightarrow> char \<Rightarrow> (bytes \<times> bytes) option" where
  "mock_request le send_this choice =
     (if choice = CHR ''0'' then Some (mock_create_admin le)
      else if choice = CHR ''1'' then Some (mock_create_user le)
      else if choice = CHR ''2'' then Some (mock_create_auth le)
      else if choice = CHR ''3'' then Some (mock_destroy_auth le)
      else if choice = CHR ''4'' then Some (mock_destroy_auth_admin le)
      else if choice = CHR ''5'' then Some (mock_create_channel le)
      else if choice = CHR ''6'' then Some (mock_create_message le send_this)
      else if choice = CHR ''7'' then Some (mock_destroy_user le)
      else if choice = CHR ''8'' then Some (mock_read_channel le)
      else if choice = CHR ''9'' then Some (mock_update_channel le)
      else if choice = CHR ''A'' then Some (mock_read_message le)
      else None)"

text \<open>The size the client takes from the four bytes of an answer: \<^verbatim>\<open>ntohl\<close> of the word, copied over the header structure.\<close>

definition client_body_size :: "bool \<Rightarrow> bytes \<Rightarrow> 16 word" where
  "client_body_size le buffer =
     (let h = ntohl le (of_mem32 le buffer); m = mem32 le h; x = chr_byte (m ! 2); y = chr_byte (m ! 3)
      in if le then push_bit 8 (ucast y) OR ucast x else push_bit 8 (ucast x) OR ucast y)"

text \<open>What arrives for the client are segments, of which a read takes at most one; without a segment it returns nothing.\<close>

fun read_seg :: "bytes list \<Rightarrow> nat \<Rightarrow> bytes \<times> bytes list" where
  "read_seg [] n = ([], [])"
| "read_seg (seg # segs) n = (take n seg, if length seg \<le> n then segs else drop n seg # segs)"

definition read_into :: "bytes \<Rightarrow> bytes list \<Rightarrow> nat \<Rightarrow> (bytes \<times> bytes list) result" where
  "read_into buffer segs n =
     (let (b, segs) = read_seg segs n
      in if length buffer < length b then Inl BufferOverflow else Inr (b @ drop (length b) buffer, segs))"

text \<open>The answer to a request: the header goes to the uninitialised buffer (\<open>junk\<close>), then the buffer is cleared and read again,
  with its size or, for the last three choices, with the size taken from the header, and printed.\<close>

definition takes_size :: "char \<Rightarrow> bool" where
  "takes_size choice \<longleftrightarrow> choice = CHR ''8'' \<or> choice = CHR ''9'' \<or> choice = CHR ''A''"

definition answer_label :: "char \<Rightarrow> string" where
  "answer_label choice = (if choice \<in> set ''01234'' then ''res: '' else ''res-body: '')"

definition mock_answer :: "bool \<Rightarrow> char \<Rightarrow> bytes \<Rightarrow> bytes list \<Rightarrow> (string \<times> bytes list) result" where
  "mock_answer le choice junk segs =
     bindR (read_into junk segs 4) (\<lambda>(buffer, segs).
     bindR (read_into (zeros 1024) segs (if takes_size choice then unat (client_body_size le (take 4 buffer)) else 1024)) (\<lambda>(buffer, segs).
     bindR (c_string buffer) (\<lambda>res. Inr (answer_label choice @ res @ [CHR 0x0A], segs))))"

definition mock_menu :: string where
  "mock_menu = concat (map (\<lambda>l. CHR 0x0A # l) [''[0] - CREATE_ADMIN'', ''[1] - CREATE_USER'', ''[2] - CREATE_AUTH'', ''[3] - DESTROY_AUTH'',
     ''[4] - DESTROY_AUTH_ADMIN'', ''[5] - CREATE_CHANNEL'', ''[6] - CREATE_MESSAGE'', ''[7] - DESTROY_USER'', ''[8] - READ_CHANNEL'',
     ''[9] - UPDATE_CHANNEL'', ''[A] - READ_MESSAGE'']) @ [CHR 0x0A]"

text \<open>The object and the type that each choice sets in its header, which is the operation it is meant to request.\<close>

definition intended :: "char \<Rightarrow> 8 word \<times> 4 word" where
  "intended choice =
     (if choice = CHR ''0'' \<or> choice = CHR ''1'' then (OBJECT_USER, TYPE_CREATE)
      else if choice = CHR ''2'' then (OBJECT_AUTH, TYPE_CREATE)
      else if choice = CHR ''3'' \<or> choice = CHR ''4'' then (OBJECT_AUTH, TYPE_DESTROY)
      else if choice = CHR ''5'' then (OBJECT_CHANNEL, TYPE_CREATE)
      else if choice = CHR ''6'' then (OBJECT_MESSAGE, TYPE_CREATE)
      else if choice = CHR ''7'' then (OBJECT_USER, TYPE_DESTROY)
      else if choice = CHR ''8'' then (OBJECT_CHANNEL, TYPE_READ)
      else if choice = CHR ''9'' then (OBJECT_CHANNEL, TYPE_UPDATE)
      else (OBJECT_MESSAGE, TYPE_READ))"

text \<open>What is printed before a request is sent: the fields of the header, for a message the time (\<open>send_time\<close>), and for the
  reading of a channel two sizes.\<close>

definition mock_echo :: "int \<Rightarrow> char \<Rightarrow> string" where
  "mock_echo send_time choice =
     (let (object, type) = intended choice
      in ''version: '' @ show_nat 1 @ [CHR 0x0A] @ ''type: '' @ show_nat (unat type) @ [CHR 0x0A] @ ''object: '' @ show_nat (unat object) @ [CHR 0x0A] @
         (if choice = CHR ''6'' then show_int send_time
          else if choice = CHR ''8'' then ''sizeof(chat_header): 4, sizeof(uint32_t): 4'' @ [CHR 0x0A] else []))"

text \<open>The loop of the client over the characters it reads, each with the time at that moment: what it sends and what it prints. A
  character that is no choice, as the end of a line, only shows the menu again; at the end of the list it waits for input.\<close>

fun mock_loop :: "bool \<Rightarrow> bytes \<Rightarrow> (char \<times> int) list \<Rightarrow> bytes list \<Rightarrow> (bytes list \<times> string) result" where
  "mock_loop le junk [] segs = Inr ([], mock_menu)"
| "mock_loop le junk ((choice, send_time) # choices) segs =
     (case mock_request le (word_of_int send_time) choice of
        None \<Rightarrow> bindR (mock_loop le junk choices segs) (\<lambda>(sends, out). Inr (sends, mock_menu @ out))
      | Some (hdr, body) \<Rightarrow>
          bindR (mock_answer le choice junk segs) (\<lambda>(res, segs).
          bindR (mock_loop le junk choices segs) (\<lambda>(sends, out). Inr (hdr # body # sends, mock_menu @ mock_echo send_time choice @ res @ out))))"

text \<open>\<^verbatim>\<open>main\<close>: the exit code 1 without a socket or a connection; otherwise it never returns (\<open>None\<close>).\<close>

definition mock_main :: "bool \<Rightarrow> int \<Rightarrow> int \<Rightarrow> bytes \<Rightarrow> (char \<times> int) list \<Rightarrow> bytes list \<Rightarrow> (int option \<times> bytes list \<times> string) result" where
  "mock_main le client_socket connected junk choices segs =
     (if client_socket = -1 then Inr (Some 1, [], ''Could not create socket'' @ [CHR 0x0A])
      else if connected < 0 then Inr (Some 1, [], [])
      else bindR (mock_loop le junk choices segs) (\<lambda>(sends, out). Inr (None, sends, out)))"

text \<open>\<^verbatim>\<open>copy\<close>, which nothing calls: the results of \<^verbatim>\<open>read\<close> and \<^verbatim>\<open>write\<close> (\<open>None\<close> is \<open>-1\<close>) are its input, and the end of the list is the
  end of the file.\<close>

fun copy_loop :: "nat \<Rightarrow> (bytes option \<times> nat option) list \<Rightarrow> nat \<Rightarrow> int \<times> bytes" where
  "copy_loop count [] total_rbytes = (0, [])"
| "copy_loop count ((rd, wr) # io) total_rbytes =
     (case rd of
        None \<Rightarrow> (1, [])
      | Some b \<Rightarrow>
          if b = [] then (0, [])
          else (case wr of
              None \<Rightarrow> (1, [])
            | Some n \<Rightarrow>
                let total_rbytes = total_rbytes + n
                in if total_rbytes \<ge> count then (0, take n b) else (let (r, out) = copy_loop count io total_rbytes in (r, take n b @ out))))"

definition copy :: "bool \<Rightarrow> nat \<Rightarrow> (bytes option \<times> nat option) list \<Rightarrow> int \<times> bytes" where
  "copy malloc_fails count io = (if malloc_fails then (1, []) else copy_loop count io 0)"

section \<open>Lemmas\<close>

lemmas mock_defs = mock_create_admin_def mock_create_user_def mock_create_auth_def mock_destroy_auth_def mock_destroy_auth_admin_def mock_create_channel_def mock_create_message_def mock_destroy_user_def mock_read_channel_def mock_update_channel_def mock_read_message_def

lemma struct_header_wire:
  "struct_header le h = wire_header (if le then h\<lparr>h_version := h_type h, h_type := h_version h\<rparr> else h)"
  by (simp add: struct_header_def wire_header_def header_bytes_def)

lemma client_header_wire: "mem32 le (client_create_response_header le h) = wire_header h"
  using mem32_response_header [of le h] by (simp add: client_create_response_header_def create_response_header_def Let_def)

lemma mock_request_wire:
  assumes "mock_request le t choice = Some (hdr, body)"
  shows "\<exists>h. hdr = wire_header h \<and> h_body_size h = word_of_nat (length body) \<and> (if le \<and> choice = CHR ''4''
    then h_version h = 4 \<and> h_type h = 1 else h_version h = CURRENT_VERSION \<and> (h_object h, h_type h) = intended choice)"
  using assms
  by (auto simp: mock_request_def mock_defs copied_def serialized_def struct_header_wire client_header_wire intended_def split: if_splits)

lemma size_bytes: "push_bit 8 (ucast (ucast (drop_bit 8 n) :: 8 word)) OR ucast (ucast n :: 8 word) = n" for n :: "16 word"
proof (rule bit_word_eqI)
  fix i assume "i < LENGTH(16)"
  then show "bit (push_bit 8 (ucast (ucast (drop_bit 8 n) :: 8 word)) OR ucast (ucast n :: 8 word) :: 16 word) i \<longleftrightarrow> bit n i"
    by (cases "i < 8") (auto simp: bit_or_iff bit_push_bit_iff bit_ucast_iff bit_drop_bit_eq not_less)
qed

lemma client_size_wire:
  "client_body_size le (wire_header h) = (if le then push_bit 8 (ucast (header_bytes h ! 0)) OR ucast (h_object h) else h_body_size h)"
proof -
  obtain a b c d where h: "header_bytes h = [a, b, c, d]" "b = h_object h" "c = ucast (drop_bit 8 (h_body_size h))" "d = ucast (h_body_size h)"
    by (simp add: header_bytes_def)
  have "ntohl le (of_mem32 le (wire_header h)) = of_be a b c d"
    by (simp add: ntohl_of_mem32 wire_header_def h(1) nul_pad_def Let_def)
  then show ?thesis
    using size_bytes [of "h_body_size h"] by (simp add: client_body_size_def mem32_def be_bytes_of_be h)
qed

lemma mock_client_misreads_size:
  "client_body_size le (wire_header h) = (if le then push_bit 8 (ucast (header_bytes h ! 0)) OR ucast (h_object h) else h_body_size h) \<and>
   unat (client_body_size True (wire_header \<lparr>h_version = 1, h_type = 2, h_object = 2, h_body_size = n\<rparr>)) = 4610 \<and>
   unat (client_body_size True (wire_header \<lparr>h_version = 1, h_type = 3, h_object = 2, h_body_size = n\<rparr>)) = 4866"
  by (simp add: client_size_wire header_bytes_def)

lemma bit_le_unat: "bit w n \<Longrightarrow> 2 ^ n \<le> unat w" for w :: "16 word"
proof (rule ccontr)
  assume b: "bit w n" and "\<not> 2 ^ n \<le> unat w"
  then have "unat w div 2 ^ n = 0" by simp
  then have "\<not> bit (unat w) n" by (simp add: bit_iff_odd)
  with b show False by (simp add: bit_unsigned_iff)
qed

lemma client_size_large: "h_version h = 1 \<Longrightarrow> 4096 \<le> unat (client_body_size True (wire_header h))"
  using bit_le_unat [of "client_body_size True (wire_header h)" 12] by (simp add: client_size_wire header_bytes_def bit_simps)

text \<open>An answer arrives as header and body, in one segment or in two.\<close>

definition answer_arrives :: "bytes list \<Rightarrow> chat_header \<Rightarrow> bytes \<Rightarrow> bytes list \<Rightarrow> bool" where
  "answer_arrives segs h body rest \<longleftrightarrow> body \<noteq> [] \<and> (segs = (wire_header h @ body) # rest \<or> segs = wire_header h # body # rest)"

lemma answer_read:
  assumes "answer_arrives segs h body rest" "length junk = 1024"
  shows "\<exists>segs'. read_into junk segs 4 = Inr (wire_header h @ drop 4 junk, segs') \<and> segs' = body # rest"
  using assms by (auto simp: answer_arrives_def read_into_def)

lemma body_read:
  assumes "length body \<le> n"
  shows "read_into (zeros 1024) (body # rest) n = (if length body \<le> 1024 then Inr (nul_pad 1024 body, rest) else Inl BufferOverflow)"
  using assms by (simp add: read_into_def nul_pad_def)

lemma copy_all: "data \<noteq> [] \<Longrightarrow> length data \<le> n \<Longrightarrow> copy False (length data) [(Some data, Some n)] = (0, data)"
  by (simp add: copy_def)

text \<open>The request each choice stands for. The logout of the administrator, the deletion of a user and the history of a channel are
  not among the requests of the service.\<close>

definition mock_meaning :: "8 word \<Rightarrow> char \<Rightarrow> request option" where
  "mock_meaning send_this choice =
     (if choice = CHR ''0'' then Some (Create_User ''GlobalAdmin'' ''admin'' ''admin'')
      else if choice = CHR ''1'' then Some (Create_User ''bennychao'' ''benny'' ''monkey123'')
      else if choice = CHR ''2'' then Some (Login ''bennychao'' ''monkey123'')
      else if choice = CHR ''3'' then Some (Logout ''benny'')
      else if choice = CHR ''5'' then Some (Create_Channel ''comp4981 channel'' ''benny'' ''0'')
      else if choice = CHR ''6'' then Some (Post ''benny'' ''comp4981 channel'' ''new message'' (show_nat (unat send_this)))
      else if choice = CHR ''8'' then Some (Read_Channel ''comp4981 channel'' [''1'', ''1'', ''0''])
      else if choice = CHR ''9'' then Some (Add_Members ''comp4981 channel'' ([''admin''], []) ([], []) ([], []))
      else None)"

definition trailing :: "char \<Rightarrow> bool" where
  "trailing choice \<longleftrightarrow> choice \<in> set ''2389''"

lemma mock_request_fields:
  assumes "mock_request le t choice = Some (hdr, body)" "mock_meaning t choice = Some q"
  shows "\<exists>h. hdr = wire_header h \<and> h_version h = CURRENT_VERSION \<and> (h_object h, h_type h) = request_kind q \<and>
    h_body_size h = word_of_nat (length body) \<and> body = join_fields (trailing choice) (request_fields q) \<and>
    list_all field_ok (request_fields q) \<and> request_fields q \<noteq> [] \<and> length body < 100"
  using assms octet_text [of t]
  by (auto simp: mock_request_def mock_meaning_def mock_defs copied_def serialized_def struct_header_wire client_header_wire trailing_def
      join_fields.simps msg_def field_ok_def show_int_def show_digits update_fields_def setting_fields_def alter_fields_def name_fields_def split: if_splits)

lemma mock_request_at:
  assumes "mock_request le t choice = Some (hdr, body)" "mock_meaning t choice = Some q" "pending s fd = hdr @ body"
  shows "\<exists>h. request_at s fd h q"
proof -
  from mock_request_fields [OF assms(1,2)] obtain h where h: "hdr = wire_header h" "h_version h = CURRENT_VERSION"
    "(h_object h, h_type h) = request_kind q" "h_body_size h = word_of_nat (length body)" "body = join_fields (trailing choice) (request_fields q)"
    "list_all field_ok (request_fields q)" "request_fields q \<noteq> []" "length body < 100" by blast
  have "unat (h_body_size h) = length body" using h(4,8) by (simp add: unat_of_nat take_bit_nat_eq_self_iff)
  with h assms(3) have "frame_at s fd h (trailing choice) (request_fields q)" by (simp add: frame_at_def)
  with h(3) show ?thesis by (auto simp: request_at_def)
qed

lemma mock_admissible:
  assumes "mock_meaning t choice = Some q" "choice \<noteq> CHR ''2''" "choice \<noteq> CHR ''6''"
  shows "admissible E s tb addr q"
  using assms by (auto simp: mock_meaning_def request_pair_def request_names_def field_ok_def split: if_splits)

lemma answer_printed:
  assumes "answer_arrives segs h body rest" and "length junk = 1024" and "NUL \<notin> set body" and "h_version h = CURRENT_VERSION" and "length body \<le> 4096"
  shows "(length body < 1024 \<and> (takes_size choice \<longrightarrow> le \<or> length body = unat (h_body_size h)) \<longrightarrow>
      mock_answer le choice junk segs = Inr (answer_label choice @ body @ [CHR 0x0A], rest)) \<and>
    (takes_size choice \<and> length body > 1024 \<longrightarrow> mock_answer True choice junk segs = Inl BufferOverflow) \<and>
    (takes_size choice \<and> length body = 1024 \<longrightarrow> mock_answer True choice junk segs = Inl Overread)"
proof -
  let ?n = "\<lambda>le. if takes_size choice then unat (client_body_size le (wire_header h)) else 1024"
  have l: "length body \<le> unat (client_body_size True (wire_header h))" using client_size_large [of h] assms(4,5) by simp
  have m: "mock_answer le choice junk segs = bindR (read_into (zeros 1024) (body # rest) (?n le)) (\<lambda>(buffer, segs).
      bindR (c_string buffer) (\<lambda>res. Inr (answer_label choice @ res @ [CHR 0x0A], segs)))" for le
    using answer_read [OF assms(1,2)] by (auto simp: mock_answer_def)
  have "length body \<le> ?n le" if "length body < 1024 \<and> (takes_size choice \<longrightarrow> le \<or> length body = unat (h_body_size h))"
    using that l by (cases le) (auto simp: client_size_wire)
  with m [of le] body_read [of body "?n le" rest] assms(3) have
    "length body < 1024 \<and> (takes_size choice \<longrightarrow> le \<or> length body = unat (h_body_size h)) \<longrightarrow>
      mock_answer le choice junk segs = Inr (answer_label choice @ body @ [CHR 0x0A], rest)" by (auto simp: clib)
  moreover have "takes_size choice \<longrightarrow> mock_answer True choice junk segs = (if length body \<le> 1024
      then bindR (c_string (nul_pad 1024 body)) (\<lambda>res. Inr (answer_label choice @ res @ [CHR 0x0A], rest)) else Inl BufferOverflow)"
    using m [of True] body_read [OF l, of rest] by auto
  moreover have "length body = 1024 \<Longrightarrow> c_string (nul_pad 1024 body) = Inl Overread" using assms(3) by (simp add: c_string_def)
  ultimately show ?thesis by auto
qed

text \<open>A session: the choices with the answers to them, each of less than 1024 characters and, where the size of its header is used,
  on a little endian host or with the right size.\<close>

definition answer_ok :: "bool \<Rightarrow> (char \<times> int) \<times> chat_header \<times> bytes \<Rightarrow> bool" where
  "answer_ok le = (\<lambda>((choice, send_time), h, body). mock_request le (word_of_int send_time) choice \<noteq> None \<and> h_version h = CURRENT_VERSION \<and>
     body \<noteq> [] \<and> NUL \<notin> set body \<and> length body < 1024 \<and> (takes_size choice \<longrightarrow> le \<or> length body = unat (h_body_size h)))"

definition mock_sends :: "bool \<Rightarrow> char \<times> int \<Rightarrow> bytes list" where
  "mock_sends le = (\<lambda>(choice, send_time). case mock_request le (word_of_int send_time) choice of None \<Rightarrow> [] | Some (hdr, body) \<Rightarrow> [hdr, body])"

lemma mock_session:
  assumes "list_all (answer_ok le) qs" "length junk = 1024"
  shows "mock_loop le junk (map fst qs) (map (\<lambda>(_, h, body). wire_header h @ body) qs) =
    Inr (concat (map (mock_sends le \<circ> fst) qs),
      concat (map (\<lambda>((choice, send_time), _, body). mock_menu @ mock_echo send_time choice @ answer_label choice @ body @ [CHR 0x0A]) qs) @ mock_menu)"
  using assms(1)
proof (induction qs)
  case (Cons q qs)
  obtain c n h b where q: "q = ((c, n), h, b)" by (cases q) auto
  then have ok: "answer_ok le ((c, n), h, b)" using Cons.prems by simp
  then obtain hdr body where r: "mock_request le (word_of_int n) c = Some (hdr, body)" by (auto simp: answer_ok_def)
  have "mock_answer le c junk (map (\<lambda>(_, h, body). wire_header h @ body) (q # qs)) =
      Inr (answer_label c @ b @ [CHR 0x0A], map (\<lambda>(_, h, body). wire_header h @ body) qs)"
    by (rule answer_printed [THEN conjunct1, THEN mp]) (use ok q assms(2) in \<open>auto simp: answer_ok_def answer_arrives_def\<close>)
  with Cons r q show ?case by (simp add: mock_sends_def)
qed simp

section \<open>Properties\<close>

text \<open>C35: what the server understands of the mock client. For every choice of the menu the server reads a header with the
  size of the body and, with one exception, the current version and the intended object and operation. The exception is the
  logout of the administrator on a little endian host: the copied bit fields arrive swapped, the server sees version 4 and
  refuses the request.\<close>

theorem mock_client_understood:
  assumes "mock_request le t choice = Some (hdr, body)" and "pending s fd = hdr @ rest"
  shows "\<exists>h s'. read_header E s fd = Inr ((0, h), s') \<and> h_body_size h = word_of_nat (length body) \<and>
    (if le \<and> choice = CHR ''4'' then h_version h = 4 \<and> handle_request E s fd addr = Inr (2, s')
     else h_version h = CURRENT_VERSION \<and> (h_object h, h_type h) = intended choice)"
proof -
  from mock_request_wire [OF assms(1)] obtain h where h: "hdr = wire_header h" "h_body_size h = word_of_nat (length body)"
    "if le \<and> choice = CHR ''4'' then h_version h = 4 \<and> h_type h = 1 else h_version h = CURRENT_VERSION \<and> (h_object h, h_type h) = intended choice"
    by blast
  have "read_header E s fd = Inr ((0, h), consume (consume s fd 1) fd 3)" by (rule read_header_spec) (use assms(2) h(1) in simp)
  with h(2,3) show ?thesis by (auto simp: handle_request_def split: if_splits)
qed

theorem mock_client_understood_witness:
  "\<exists>h s'. read_header mem_env (demo_state (fst (the (mock_request True 7 CHR ''4'')))) 5 = Inr ((0, h), s') \<and> h_version h = 4"
  using mock_client_understood [of True 7 "CHR ''4''" "fst (the (mock_request True 7 CHR ''4''))" "snd (the (mock_request True 7 CHR ''4''))"
      "demo_state (fst (the (mock_request True 7 CHR ''4'')))" 5 "[]" mem_env]
  by (simp add: mock_request_def) blast



text \<open>C37: a session of the mock client. Without a socket or a connection it ends with 1. Otherwise, if every answer has less than
  1024 characters, each choice sends its request and prints the complete answer, also where the client takes a wrong size from
  the header: on a little endian host it computes the size from version, type and object, which gives at least 4096 for every
  answer of the server. For the requests that use this size an answer of more than 1024 characters is therefore written beyond
  the buffer, and one of exactly 1024 is printed beyond its end.\<close>

theorem mock_client_session:
  assumes "length junk = 1024"
  shows "(list_all (answer_ok le) qs \<longrightarrow>
      mock_main le sock conn junk (map fst qs) (map (\<lambda>(_, h, body). wire_header h @ body) qs) =
        (if sock = -1 \<or> conn < 0 then Inr (Some 1, [], if sock = -1 then ''Could not create socket'' @ [CHR 0x0A] else [])
         else Inr (None, concat (map (mock_sends le \<circ> fst) qs),
           concat (map (\<lambda>((choice, send_time), _, body). mock_menu @ mock_echo send_time choice @ answer_label choice @ body @ [CHR 0x0A]) qs) @ mock_menu))) \<and>
    (answer_arrives segs h body rest \<and> takes_size choice \<and> h_version h = CURRENT_VERSION \<and> NUL \<notin> set body \<and> 1024 \<le> length body \<and> length body \<le> 4096 \<longrightarrow>
      mock_answer True choice junk segs = Inl (if length body = 1024 then Overread else BufferOverflow))"
proof (intro conjI impI)
  assume "list_all (answer_ok le) qs"
  from mock_session [OF this assms] show "mock_main le sock conn junk (map fst qs) (map (\<lambda>(_, h, body). wire_header h @ body) qs) =
        (if sock = -1 \<or> conn < 0 then Inr (Some 1, [], if sock = -1 then ''Could not create socket'' @ [CHR 0x0A] else [])
         else Inr (None, concat (map (mock_sends le \<circ> fst) qs),
           concat (map (\<lambda>((choice, send_time), _, body). mock_menu @ mock_echo send_time choice @ answer_label choice @ body @ [CHR 0x0A]) qs) @ mock_menu))"
    by (simp add: mock_main_def)
next
  assume "answer_arrives segs h body rest \<and> takes_size choice \<and> h_version h = CURRENT_VERSION \<and> NUL \<notin> set body \<and> 1024 \<le> length body \<and> length body \<le> 4096"
  then show "mock_answer True choice junk segs = Inl (if length body = 1024 then Overread else BufferOverflow)"
    using answer_printed [of segs h body rest junk choice] assms by auto
qed

theorem mock_client_session_witness:
  "\<exists>sends out. mock_main True 3 0 (zeros 1024) [(CHR ''1'', 0), (CHR ''8'', 0)]
      [wire_header \<lparr>h_version = 1, h_type = 1, h_object = 1, h_body_size = 2\<rparr> @ ''ok'', wire_header \<lparr>h_version = 1, h_type = 2, h_object = 2, h_body_size = 4\<rparr> @ ''fine''] =
    Inr (None, sends, out) \<and> length sends = 4"
proof -
  let ?qs = "[((CHR ''1'', 0), \<lparr>h_version = 1, h_type = 1, h_object = 1, h_body_size = 2\<rparr>, ''ok''),
    ((CHR ''8'', 0), \<lparr>h_version = 1, h_type = 2, h_object = 2, h_body_size = 4\<rparr>, ''fine'')] :: ((char \<times> int) \<times> chat_header \<times> bytes) list"
  have ok: "list_all (answer_ok True) ?qs" by (simp add: answer_ok_def mock_request_def)
  have s: "length (concat (map (mock_sends True \<circ> fst) ?qs)) = 4" by (simp add: mock_sends_def mock_request_def case_prod_unfold)
  from mock_client_session [of "zeros 1024" True ?qs 3 0] ok have
    "mock_main True 3 0 (zeros 1024) (map fst ?qs) (map (\<lambda>(_, h, body). wire_header h @ body) ?qs) =
      Inr (None, concat (map (mock_sends True \<circ> fst) ?qs), concat (map (\<lambda>((choice, send_time), _, body).
        mock_menu @ mock_echo send_time choice @ answer_label choice @ body @ [CHR 0x0A]) ?qs) @ mock_menu)" by simp
  with s show ?thesis by (simp only: list.map fst_conv prod.case) blast
qed

end
