(* ===== verification/Reporting.thy ===== *)
theory Reporting
  imports Cache
begin

text \<open>
  The log file (\<^verbatim>\<open>src/logger.c\<close>), the fatal errors (\<^verbatim>\<open>src/error.c\<close>), and of \<^verbatim>\<open>src/util.c\<close> the reader of the rest of a line
  (\<^verbatim>\<open>clean_stdin\<close>) and \<^verbatim>\<open>identify_os\<close>. The log is the text of the file; the time, whether the file can be opened and
  the formatting of a time (\<^verbatim>\<open>ctime\<close>, which depends on the time zone) are arguments.
\<close>

section \<open>Operations\<close>

abbreviation LOG_MAX_CLIENTS :: nat where "LOG_MAX_CLIENTS \<equiv> 100"

text \<open>The static array of connection times and the file. The products of whole seconds below \<open>2 ^ 53\<close> and 1000 are exact in the
  \<^verbatim>\<open>double\<close> that \<^verbatim>\<open>difftime\<close> returns.\<close>

record log_state =
  lg_times :: "int list"
  lg_file :: string

definition log_event :: "(int \<Rightarrow> string) \<Rightarrow> int \<Rightarrow> bool \<Rightarrow> log_state \<Rightarrow> string \<Rightarrow> string \<Rightarrow> nat \<Rightarrow> log_state result" where
  "log_event ctime current_time opened st ip_address event_type i =
     (let c_time_string = ctime current_time; times = lg_times st
      in if c_time_string = [] then Inl BufferOverflow
         else
           let line = butlast c_time_string @ '', '' @ event_type @ '', '' @ ip_address
           in if event_type = ''CONNECT'' then
                if length times \<le> i then Inl BufferOverflow
                else if \<not> opened then Inl NullDeref
                else Inr (st\<lparr>lg_times := times[i := current_time], lg_file := lg_file st @ line @ [CHR 0x0A]\<rparr>)
              else if event_type = ''DISCONNECT'' then
                if length times \<le> i then Inl Overread
                else
                  let duration = (current_time - times ! i) * 1000
                  in if \<not> opened then Inl NullDeref
                     else Inr (st\<lparr>lg_file := lg_file st @ line @ '', '' @ show_int duration @ [CHR 0x0A]\<rparr>)
              else if \<not> opened then Inl NullDeref
              else Inr (st\<lparr>lg_file := lg_file st @ line @ [CHR 0x0A]\<rparr>))"

text \<open>A fatal error prints a line to the standard error and ends the program with the exit code.\<close>

definition fatal_errno :: "(int \<Rightarrow> string) \<Rightarrow> string \<Rightarrow> string \<Rightarrow> nat \<Rightarrow> int \<Rightarrow> int \<Rightarrow> string \<times> fault" where
  "fatal_errno strerror src_file func line err_code exit_code =
     (let message = strerror err_code
      in (''Error ('' @ src_file @ '' @ '' @ func @ '':'' @ show_nat line @ '' '' @ show_int err_code @ '') - '' @ message @ [CHR 0x0A], Exited exit_code))"

definition fatal_message :: "string \<Rightarrow> string \<Rightarrow> nat \<Rightarrow> string \<Rightarrow> int \<Rightarrow> string \<times> fault" where
  "fatal_message src_file func line message exit_code =
     (''Error ('' @ src_file @ '' @ '' @ func @ '':'' @ show_nat line @ '') - '' @ message @ [CHR 0x0A], Exited exit_code)"

text \<open>\<^verbatim>\<open>getchar\<close> returns the characters of the input as numbers and \<open>-1\<close> at its end, which the end of the list stands for.\<close>

abbreviation EOF :: int where "EOF \<equiv> -1"

fun clean_stdin :: "int list \<Rightarrow> int list" where
  "clean_stdin [] = []"
| "clean_stdin (c # input) = (if c \<noteq> 10 \<and> c \<noteq> EOF then clean_stdin input else input)"

text \<open>\<^verbatim>\<open>identify_os\<close> of \<^verbatim>\<open>src/util.c\<close>: what \<^verbatim>\<open>uname\<close> filled in, also if it failed, and what \<^verbatim>\<open>perror\<close> prints.\<close>

definition identify_os :: "(int \<Rightarrow> string) \<Rightarrow> int \<Rightarrow> int \<Rightarrow> 'u \<Rightarrow> string \<times> 'u" where
  "identify_os strerror err result unameData =
     (if result < 0 then ''unname(): '' @ strerror err @ [CHR 0x0A] else [], unameData)"

section \<open>Lemmas\<close>

text \<open>A sequence of events: time, address, type and slot of each.\<close>

type_synonym log_entry = "int \<times> string \<times> string \<times> nat"

fun log_events :: "(int \<Rightarrow> string) \<Rightarrow> log_state \<Rightarrow> log_entry list \<Rightarrow> log_state result" where
  "log_events ctime st [] = Inr st"
| "log_events ctime st ((now, ip, ev, i) # es) = bindR (log_event ctime now True st ip ev i) (\<lambda>st. log_events ctime st es)"

lemma log_event_times:
  assumes "ctime now \<noteq> []" "i < length (lg_times st)"
  shows "\<exists>f. log_event ctime now True st ip ev i =
    Inr \<lparr>lg_times = (if ev = ''CONNECT'' then (lg_times st)[i := now] else lg_times st), lg_file = lg_file st @ f\<rparr>"
  using assms by (cases st) (auto simp: log_event_def Let_def)

lemma log_events_keep:
  assumes "\<And>now ip ev j. (now, ip, ev, j) \<in> set es \<Longrightarrow> ctime now \<noteq> [] \<and> j < length (lg_times st) \<and> \<not> (j = i \<and> ev = ''CONNECT'')"
  shows "\<exists>times f. log_events ctime st es = Inr \<lparr>lg_times = times, lg_file = lg_file st @ f\<rparr> \<and> length times = length (lg_times st) \<and>
    times ! i = lg_times st ! i"
  using assms
proof (induction es arbitrary: st)
  case Nil
  show ?case by (cases st) simp
next
  case (Cons e es)
  obtain now ip ev j where e: "e = (now, ip, ev, j)" by (cases e) auto
  have p: "ctime now \<noteq> []" "j < length (lg_times st)" "\<not> (j = i \<and> ev = ''CONNECT'')" using Cons.prems [of now ip ev j] e by auto
  from log_event_times [of ctime now j st ip ev, OF p(1,2)] obtain f where f: "log_event ctime now True st ip ev j =
      Inr \<lparr>lg_times = (if ev = ''CONNECT'' then (lg_times st)[j := now] else lg_times st), lg_file = lg_file st @ f\<rparr>" (is "_ = Inr ?st") by blast
  have t: "length (lg_times ?st) = length (lg_times st)" "lg_times ?st ! i = lg_times st ! i" using p by auto
  obtain times g where "log_events ctime ?st es = Inr \<lparr>lg_times = times, lg_file = lg_file ?st @ g\<rparr>" "length times = length (lg_times st)"
    "times ! i = lg_times st ! i" using Cons.IH [of ?st] Cons.prems t by fastforce
  with f e show ?case by auto
qed

section \<open>Properties\<close>

text \<open>C39: the log of connections. After a connection on a slot is logged, and whatever is logged on other slots and of other types
  since, the line of its end gives the time between the two in milliseconds. The array of times has 100 elements, while the server has
  slots up to 254: a connection on a slot from 100 on is written beyond it.\<close>

theorem log_event_duration:
  assumes "length (lg_times st) = LOG_MAX_CLIENTS" and "\<forall>now. ctime now \<noteq> []"
    and "\<forall>(now, ip, ev, j) \<in> set es. j < LOG_MAX_CLIENTS \<and> \<not> (j = i \<and> ev = ''CONNECT'')"
  shows "(i < LOG_MAX_CLIENTS \<longrightarrow> (\<exists>times f. log_events ctime st ((t1, ip, ''CONNECT'', i) # es @ [(t2, ip, ''DISCONNECT'', i)]) =
      Inr \<lparr>lg_times = times, lg_file = f @ butlast (ctime t2) @ '', DISCONNECT, '' @ ip @ '', '' @ show_int (1000 * (t2 - t1)) @ [CHR 0x0A]\<rparr>)) \<and>
    (LOG_MAX_CLIENTS \<le> i \<longrightarrow> log_event ctime t1 True st ip ''CONNECT'' i = Inl BufferOverflow)"
proof (intro conjI impI)
  assume i: "i < LOG_MAX_CLIENTS"
  let ?st = "\<lparr>lg_times = (lg_times st)[i := t1], lg_file = lg_file st @ butlast (ctime t1) @ '', CONNECT, '' @ ip @ [CHR 0x0A]\<rparr>"
  have c: "log_event ctime t1 True st ip ''CONNECT'' i = Inr ?st" using i assms(1,2) by (cases st) (simp add: log_event_def Let_def)
  have "\<exists>times f. log_events ctime ?st es = Inr \<lparr>lg_times = times, lg_file = lg_file ?st @ f\<rparr> \<and> length times = length (lg_times ?st) \<and>
      times ! i = lg_times ?st ! i"
    by (rule log_events_keep) (use assms in fastforce)
  then obtain times f where t: "log_events ctime ?st es = Inr \<lparr>lg_times = times, lg_file = f\<rparr>" "length times = LOG_MAX_CLIENTS" "times ! i = t1"
    using i assms(1) by auto
  have a: "log_events ctime st' (es @ fs) = bindR (log_events ctime st' es) (\<lambda>st. log_events ctime st fs)" for st' fs
    by (induction es arbitrary: st') (auto simp: bindR_assoc)
  have "log_event ctime t2 True \<lparr>lg_times = times, lg_file = f\<rparr> ip ''DISCONNECT'' i =
      Inr \<lparr>lg_times = times, lg_file = f @ butlast (ctime t2) @ '', DISCONNECT, '' @ ip @ '', '' @ show_int (1000 * (t2 - t1)) @ [CHR 0x0A]\<rparr>"
    using t(2,3) i assms(2) by (simp add: log_event_def Let_def mult.commute)
  with c t(1) show "\<exists>times f. log_events ctime st ((t1, ip, ''CONNECT'', i) # es @ [(t2, ip, ''DISCONNECT'', i)]) =
      Inr \<lparr>lg_times = times, lg_file = f @ butlast (ctime t2) @ '', DISCONNECT, '' @ ip @ '', '' @ show_int (1000 * (t2 - t1)) @ [CHR 0x0A]\<rparr>"
    by (auto simp: a)
qed (use assms(1,2) in \<open>simp add: log_event_def Let_def\<close>)

theorem log_event_duration_witness:
  "\<exists>times f. log_events (\<lambda>_. ''Thu'') \<lparr>lg_times = replicate 100 0, lg_file = []\<rparr> [(10, ''10.0.0.1'', ''CONNECT'', 3), (12, ''10.0.0.1'', ''DISCONNECT'', 3)] =
    Inr \<lparr>lg_times = times, lg_file = f @ ''Th'' @ '', DISCONNECT, '' @ ''10.0.0.1'' @ '', '' @ show_int 2000 @ [CHR 0x0A]\<rparr>"
  using log_event_duration [of "\<lparr>lg_times = replicate 100 0, lg_file = []\<rparr>" "\<lambda>_. ''Thu''" "[]" 3 10 "''10.0.0.1''" 12] by simp

end
