(* ===== verification/Spec2Isabelle.thy ===== *)
theory Spec2Isabelle
  imports Faults ViewerTool Program Client Reporting
begin

text \<open>
  A verification library for the chat server of this repository, a C program that keeps users, channels and messages in
  ndbm databases and answers requests of a binary protocol over TCP.

  \<^bold>\<open>The program.\<close> \<^verbatim>\<open>main\<close> reads the command line (\<^verbatim>\<open>option_handler.c\<close>, \<^verbatim>\<open>conversion.c\<close>), sets the paths of five
  databases and shows a menu; \<^verbatim>\<open>run_server\<close> (\<^verbatim>\<open>main-chat-server.c\<close>) opens the socket, creates the administrator and the channel
  \<open>global\<close>, and polls: new clients go into an array of descriptors, and for each ready client \<^verbatim>\<open>handle_request\<close>
  (\<^verbatim>\<open>server.c\<close>) reads a header, calls the handler for its object and type, and sends the answer. The handlers read the body, split it
  at ETX, work on the databases through \<^verbatim>\<open>my_ndbm.c\<close> and on the array of connected users, and return a result code
  and a text; a message that is posted also goes to the connected members of its channel.

  \<^bold>\<open>The model.\<close> Each function of the source is one definition of the same name (a large body is cut into definitions
  that name the lines they translate in the manifest). What can crash returns \<open>'a result\<close>, whose left values are the
  faults: NULL dereference, write or read outside an array, failed assertion, exit. Arrays are byte lists of their size, integers
  are words of their width. The state is the record \<open>server\<close> (outside world, arriving and sent bytes, closed descriptors, cache);
  ndbm, libuuid, the allocator, the clock and the sockets are the fields of the record \<open>env\<close>, and what is assumed of
  them is \<open>ndbm_contract\<close>, which the executable environment \<open>mem_env\<close> satisfies: all witnesses run on it.

  \<^bold>\<open>Theories and sources.\<close>
  \<^item> \<open>CLib\<close>: the prelude; faults, arrays and the C library functions the code uses. \<open>Words\<close>: 32 bit words in memory and on the wire.
  \<^item> \<open>Util\<close>: \<^verbatim>\<open>util.c\<close> and \<^verbatim>\<open>conversion.c\<close> (string comparison, tokenizer, port). \<open>Address\<close>: \<^verbatim>\<open>get_ip_str\<close>.
    \<open>Startup\<close>: \<^verbatim>\<open>option_handler.c\<close> and \<^verbatim>\<open>setup_db_paths\<close>. \<open>Reporting\<close>: \<^verbatim>\<open>logger.c\<close>, \<^verbatim>\<open>error.c\<close> and the rest of \<^verbatim>\<open>util.c\<close>.
  \<^item> \<open>Records\<close>: the structures of \<^verbatim>\<open>my_ndbm.h\<close> and their layout. \<open>Env\<close>: the environment and its contract. \<open>Ndbm\<close>:
    \<^verbatim>\<open>my_ndbm.c\<close>. \<open>Tables\<close>: the locale \<open>keyed_table\<close>, interpreted on the logins, the accounts and the display names.
  \<^item> \<open>Cache\<close>: the connected users, with the locale \<open>registry\<close>. \<open>Wire\<close>: headers, bodies and the nine responses, with the locale
    \<open>responder\<close>.
  \<^item> \<open>Request\<close>: fields of requests and the invariant \<open>dbs\<close> of the databases. \<open>Users\<close>, \<open>Auth\<close>, \<open>Channels\<close>, \<open>ChannelUpdate\<close>,
    \<open>Messages\<close>: the handlers of \<^verbatim>\<open>server.c\<close>. \<open>Init\<close>: the initial content of the databases.
  \<^item> \<open>Dispatch\<close>: \<^verbatim>\<open>handle_request\<close>. \<open>Service\<close>: the server as a state machine. \<open>PollLoop\<close>: \<^verbatim>\<open>init_pollfd\<close> and \<^verbatim>\<open>run_server\<close>. \<open>Faults\<close>: the
    requests that end the server, as an inductive relation.
  \<^item> \<open>Viewer\<close>: \<^verbatim>\<open>db_viewer.c\<close> and \<^verbatim>\<open>view_active_users\<close>, with the locale \<open>printed_table\<close>. \<open>Ui\<close>: \<^verbatim>\<open>ncurses_ui.c\<close>. \<open>Program\<close>: \<^verbatim>\<open>main\<close> and
    \<^verbatim>\<open>run_server_thread\<close>, which compose the options, the paths, the menu, the viewers and the server.
  \<^item> \<open>Client\<close>: \<^verbatim>\<open>mock_client/main.c\<close>. \<open>ViewerTool\<close>: \<^verbatim>\<open>db_viewer/main.c\<close>, the stand-alone viewer.

  \<^bold>\<open>What is shown.\<close> Round trips of the header, of the stored structures and of the parsed update request. Refinement: the keyed
  tables act as maps, the cache as a list. For each handler the result code, the answer and the tables afterwards on every
  outcome of a well formed request. For the dispatch the forwarding to exactly the members and the refusals. For the
  whole server an invariant that every admissible request keeps, and that such a request is handled to its end; a run of
  \<^verbatim>\<open>run_server\<close> is a sequence of such steps, and its array of descriptors is the list of the first 254 clients; the
  program around it goes through any session of the menu without fault and can always be ended. The viewers print
  exactly what the databases and the cache hold. The theorems of kind error and bounds show the inputs outside the admissible ones that stop
  the server: these are the findings of the manifest, such as a disconnecting client, a message to a missing channel, a request for
  the history, a login from another address and a channel name of 20 characters (one relation in \<open>Faults\<close>), and a full cache. Of the two clients,
  the requests of the mock client are served and its answers printed, and the stand-alone viewer is shown to misread the records.

  \<^bold>\<open>Bounds.\<close> A request body has fewer than 1024 bytes and its fields are not empty, with or without a separator after the last; longer
  bodies overrun the buffer of the handlers. Loops over arrays and databases are recursions over their lists and terminate; \<open>options_loop\<close>,
  \<open>print_names\<close> and \<open>menu_loop\<close> have termination proofs. The loop of \<^verbatim>\<open>run_server\<close> runs once for each element of the list of rounds it is given, and the menu of \<^verbatim>\<open>main\<close> and
  the loop of the mock client consume the list of the keys that are pressed; that they wait for more input is a value of its own. No fuel is used.

  \<^bold>\<open>Not modelled.\<close> How ncurses puts its calls on the screen, and \<^verbatim>\<open>init_ncurses\<close>, which only sets the terminal up; the status lines that \<^verbatim>\<open>run_server\<close>
  and the handlers print; releasing memory (\<^verbatim>\<open>free_channel_list\<close>, \<^verbatim>\<open>free_message_list\<close> and the calls of \<^verbatim>\<open>free\<close>), as the
  model passes values; and the timing of the two threads: while the server runs, the other thread only waits for a key. Blocking
  of the server is not modelled: a read on a connection without data is an end of file.
\<close>

section \<open>Properties that span components\<close>

lemma find_channel_order:
  assumes "table_channels t cs" "table_channels t cs'"
  shows "find_channel nm cs \<noteq> None \<longleftrightarrow> find_channel nm cs' \<noteq> None"
  using find_channel_has assms by blast

text \<open>C29: equivalence of the two searches for a channel. The test for a taken channel name, with its own loop over the
  table, answers yes exactly if the lookup of the channel finds a record, whatever the order in which the database lists
  its records, and neither changes the tables.\<close>

theorem channel_searches_agree:
  assumes "dbs E tab opn w t" and "dbs E tab opn w' t" and "terminated nm"
  shows "\<exists>taken w1 found w2. check_duplicate_channel_name E w nm = Inr (taken, w1) \<and> get_channel_info_malloc_or_null E w' nm = Inr (found, w2) \<and>
    dbs E tab opn w1 t \<and> dbs E tab opn w2 t \<and> (taken \<longleftrightarrow> found \<noteq> None)"
proof -
  from dbs_check_channel [OF assms(1,3)] obtain w1 cs where
    c: "check_duplicate_channel_name E w nm = Inr (find_channel nm cs \<noteq> None, w1)" "dbs E tab opn w1 t" "table_channels t cs" by blast
  from dbs_get_channel [OF assms(2,3)] obtain w2 cs' where
    g: "get_channel_info_malloc_or_null E w' nm = Inr (find_channel nm cs', w2)" "dbs E tab opn w2 t" "table_channels t cs'" by blast
  show ?thesis using c(1,2) g(1,2) find_channel_order [OF c(3) g(3)] by blast
qed

theorem channel_searches_agree_witness:
  "\<exists>taken w1 found w2. check_duplicate_channel_name mem_env demo_world (nul_pad 21 ''global'') = Inr (taken, w1) \<and>
    get_channel_info_malloc_or_null mem_env demo_world (nul_pad 21 ''global'') = Inr (found, w2) \<and> (taken \<longleftrightarrow> found \<noteq> None)"
  using channel_searches_agree [OF dbs_demo dbs_demo, of "nul_pad 21 ''global''"] by auto

lemma remove_first_snoc: "\<forall>u \<in> set us. \<not> p u \<Longrightarrow> p v \<Longrightarrow> remove_first p (us @ [v]) = us"
  by (induction us) auto

lemma logout_online:
  assumes "dbs E tab opn (world s) t" "body_at s fd n tr [nm]" "length nm < TOKEN_NAME_LENGTH" "addr_ok addr" "wf_cache (cache s)"
    and "name_view t (nul_pad TOKEN_NAME_LENGTH nm) = Some uuid" "account_view (host_le E) t uuid = Some a"
    and "ua_privilege_level a \<in> {0, 1}" "ua_online_status a" "cstr (ua_ip_addr a) = cstr addr"
  shows "\<exists>out s'. read_and_logout_user E s fd (zeros TOKEN_NAME_LENGTH) addr n = Inr ((0, out), s') \<and>
    users (cache s') = remove_first (\<lambda>u. user_name u = cstr (ua_display_name a)) (users (cache s))"
  by (rule read_and_logout_user_spec [THEN exE, OF assms(1-4) length_zeros assms(5)]) (use assms(6-) in \<open>auto simp: Let_def\<close>)

lemma login_offline:
  assumes "dbs E tab opn (world s) t" "body_at s fd n tr [tok, pw]" "length tok < TOKEN_NAME_LENGTH" "length pw < PSWD_MAX_LENGTH" "addr_ok addr"
    and "wf_cache (cache s)" "length (users (cache s)) < MAX_CLIENTS"
    and "login_view t (nul_pad TOKEN_NAME_LENGTH tok) = Some l" "cstr (ul_password l) = pw" "account_view (host_le E) t (ul_uuid l) = Some a"
    and "cstr (ua_display_name a) \<noteq> []" "\<not> ua_online_status a" "cstr (ua_display_name a) \<notin> user_name ` set (users (cache s))"
  shows "\<exists>out s' t' w. read_and_login_user E s fd (zeros BIG_TOKEN_NAME_LENGTH) addr n = Inr ((0, out), s') \<and> dbs E tab opn (world s') t' \<and>
    account_view (host_le E) t' (ul_uuid l) = Some (logged_in a addr) \<and> name_view t' = name_view t \<and> wf_cache (cache s') \<and>
    users (cache s') = users (cache s) @ [cache_entry E w (fd, logged_in a addr, l)]"
proof -
  have p: "filter (\<lambda>c. \<not> isspace c) (cstr (ul_password l)) = filter (\<lambda>c. \<not> isspace c) pw" using assms(9) by simp
  have n: "\<not> (\<exists>u \<in> set (users (cache s)). cstr (cu_ip_address u) = cstr addr \<and> user_name u = cstr (ua_display_name a) \<and> cu_fd u = fd)"
    using assms(13) by (metis image_eqI)
  from read_and_login_user_accepts_spec [OF assms(1-4,8) p assms(10,11,5) length_zeros assms(6,7)] assms(12)
  show ?thesis unfolding if_not_P [OF n] by fastforce
qed



end
